(* ===== verification/Prelude.thy ===== *)
theory Prelude
  imports
    Main
    "HOL-Library.Word"
    "HOL-Library.Signed_Division"
    "HOL-Library.Monad_Syntax"
begin

unbundle bit_operations_syntax

text \<open>
  Shared vocabulary of the development: the machine integers of the emulator, Rust's
  \<open>Result\<close>, the little-endian view of a machine word as bytes, and the lemmas on lists,
  options and words that several components use.

  A Rust function that may panic returns an \<open>option\<close>; \<open>None\<close> is the panic.  The model
  follows the release profile: arithmetic on machine integers wraps and the bodies of
  \<open>debug_assert!\<close> are absent, while \<open>assert!\<close>, \<open>expect\<close>, \<open>unreachable!\<close> and
  out-of-range indexing still panic.
\<close>

section \<open>Collections of rewrite rules\<close>

named_theorems word_field_simps \<open>bit fields of machine words\<close>
named_theorems csr_simps \<open>reading and writing control and status registers\<close>
named_theorems exec_simps \<open>unfolding the instruction handlers\<close>
named_theorems keeps_rules \<open>operations that preserve an invariant\<close>

section \<open>Types\<close>

type_synonym u8 = "8 word"
type_synonym u16 = "16 word"
type_synonym u32 = "32 word"
type_synonym u64 = "64 word"

datatype ('a, 'e) result = Ok 'a | Err 'e

fun map_ok :: "('a \<Rightarrow> 'b) \<Rightarrow> ('a, 'e) result \<Rightarrow> ('b, 'e) result" where
  "map_ok f (Ok a) = Ok (f a)"
| "map_ok f (Err e) = Err e"

fun map_err :: "('e \<Rightarrow> 'f) \<Rightarrow> ('a, 'e) result \<Rightarrow> ('a, 'f) result" where
  "map_err f (Ok a) = Ok a"
| "map_err f (Err e) = Err (f e)"

fun is_ok :: "('a, 'e) result \<Rightarrow> bool" where
  "is_ok (Ok a) = True"
| "is_ok (Err e) = False"

text \<open>
  A stateful operation that returns a \<open>Result\<close> and may panic.  \<open>bind_q\<close> is the question
  mark operator: an error ends the operation and keeps the state it has reached.
\<close>

type_synonym ('s, 'a, 'e) prog = "'s \<Rightarrow> (('a, 'e) result \<times> 's) option"

definition ret_ok :: "'a \<Rightarrow> ('s, 'a, 'e) prog" where
  "ret_ok a s = Some (Ok a, s)"

definition ret_err :: "'e \<Rightarrow> ('s, 'a, 'e) prog" where
  "ret_err e s = Some (Err e, s)"

definition bind_q :: "('s, 'a, 'e) prog \<Rightarrow> ('a \<Rightarrow> ('s, 'b, 'e) prog) \<Rightarrow> ('s, 'b, 'e) prog" where
  "bind_q m f s =
     (case m s of
        None \<Rightarrow> None
      | Some (Ok a, s') \<Rightarrow> f a s'
      | Some (Err e, s') \<Rightarrow> Some (Err e, s'))"

section \<open>Words as little-endian bytes\<close>

definition size_of :: "'a::len itself \<Rightarrow> nat" where
  "size_of _ = LENGTH('a) div 8"

definition of_bytes :: "u8 list \<Rightarrow> 'a::len word" where
  "of_bytes bs = foldr (\<lambda>b acc. push_bit 8 acc OR ucast b) bs 0"

definition to_bytes :: "'a::len word \<Rightarrow> u8 list" where
  "to_bytes w = map (\<lambda>i. ucast (drop_bit (8 * i) w)) [0..<LENGTH('a) div 8]"

section \<open>Lemmas\<close>

lemma bind_q_simps [simp]:
  "bind_q (ret_ok a) f s = f a s"
  "bind_q (ret_err e) f s = Some (Err e, s)"
  by (simp_all add: bind_q_def ret_ok_def ret_err_def)

lemma bind_q_Some_Ok:
  "bind_q m f s = Some (Ok b, s'') \<longleftrightarrow> (\<exists>a s'. m s = Some (Ok a, s') \<and> f a s' = Some (Ok b, s''))"
  by (auto simp: bind_q_def split: option.splits prod.splits result.splits)

lemma map_err_Ok [simp]: "map_err f r = Ok a \<longleftrightarrow> r = Ok a"
  by (cases r) simp_all

lemma size_of_simps [simp]:
  "size_of TYPE(8) = 1" "size_of TYPE(16) = 2" "size_of TYPE(32) = 4" "size_of TYPE(64) = 8"
  by (simp_all add: size_of_def)

lemma length_to_bytes [simp]: "length (to_bytes (w :: 'a::len word)) = size_of TYPE('a)"
  by (simp add: to_bytes_def size_of_def)

lemma bit_of_bytes [bit_simps]:
  "bit (of_bytes bs :: 'a::len word) k \<longleftrightarrow>
     k < LENGTH('a) \<and> k div 8 < length bs \<and> bit (bs ! (k div 8)) (k mod 8)"
proof (induction bs arbitrary: k)
  case Nil
  then show ?case by (simp add: of_bytes_def)
next
  case (Cons b bs)
  have e: "of_bytes (b # bs) = (push_bit 8 (of_bytes bs) OR ucast b :: 'a word)"
    by (simp add: of_bytes_def)
  show ?case
  proof (cases "k < 8")
    case True
    then show ?thesis
      by (auto simp: e bit_simps)
  next
    case False
    then have "k div 8 = Suc ((k - 8) div 8)" "k mod 8 = (k - 8) mod 8"
      by (auto simp: le_div_geq le_mod_geq)
    then show ?thesis
      using False by (auto simp: e bit_simps Cons.IH dest: bit_imp_le_length)
  qed
qed

lemma of_bytes_to_bytes:
  assumes "8 dvd LENGTH('a)"
  shows "of_bytes (to_bytes (w :: 'a::len word)) = w"
proof (rule bit_word_eqI)
  fix n
  assume "n < LENGTH('a)"
  then show "bit (of_bytes (to_bytes w) :: 'a word) n = bit w n"
    using assms by (auto simp: bit_of_bytes to_bytes_def bit_simps less_mult_imp_div_less)
qed

lemma bit_mask_and_eq_zero_iff: "w AND push_bit n 1 = 0 \<longleftrightarrow> \<not> bit w n"
  for w :: "'a::len word"
  by (simp add: bit_iff_and_push_bit_not_eq_0)

lemma and_exp_eq_zero_iff [simp]: "w AND 2 ^ n = 0 \<longleftrightarrow> \<not> bit w n"
  for w :: "'a::len word"
  using bit_mask_and_eq_zero_iff [of w n] by (simp add: push_bit_of_1)

section \<open>Indexing\<close>

text \<open>Indexing a slice or an array panics out of its bounds.\<close>

definition nth_opt :: "'a list \<Rightarrow> nat \<Rightarrow> 'a option" where
  "nth_opt xs i = (if i < length xs then Some (xs ! i) else None)"

definition upd_opt :: "'a list \<Rightarrow> nat \<Rightarrow> 'a \<Rightarrow> 'a list option" where
  "upd_opt xs i v = (if i < length xs then Some (xs[i := v]) else None)"

lemma nth_opt_in [simp]: "i < length xs \<Longrightarrow> nth_opt xs i = Some (xs ! i)"
  by (simp add: nth_opt_def)

lemma upd_opt_in [simp]: "i < length xs \<Longrightarrow> upd_opt xs i v = Some (xs[i := v])"
  by (simp add: upd_opt_def)

lemma nth_opt_Some: "nth_opt xs i = Some x \<longleftrightarrow> i < length xs \<and> x = xs ! i"
  by (auto simp: nth_opt_def)

lemma upd_opt_Some: "upd_opt xs i v = Some ys \<longleftrightarrow> i < length xs \<and> ys = xs[i := v]"
  by (auto simp: upd_opt_def)

section \<open>Invariants of operations\<close>

definition keeps :: "('s \<Rightarrow> bool) \<Rightarrow> ('s, 'a, 'e) prog \<Rightarrow> bool" where
  "keeps I f \<longleftrightarrow> (\<forall>s r s'. I s \<longrightarrow> f s = Some (r, s') \<longrightarrow> I s')"

lemma keepsI: "(\<And>s r s'. I s \<Longrightarrow> f s = Some (r, s') \<Longrightarrow> I s') \<Longrightarrow> keeps I f"
  by (auto simp: keeps_def)

lemma keepsD: "keeps I f \<Longrightarrow> I s \<Longrightarrow> f s = Some (r, s') \<Longrightarrow> I s'"
  by (auto simp: keeps_def)

lemma keeps_ret [keeps_rules]: "keeps I (ret_ok a)" "keeps I (ret_err e)"
  by (auto simp: keeps_def ret_ok_def ret_err_def)

lemma keeps_bind [keeps_rules]:
  assumes "keeps I f" "\<And>a. keeps I (g a)"
  shows "keeps I (bind_q f g)"
proof (rule keepsI)
  fix s r s'
  assume s: "I s" and b: "bind_q f g s = Some (r, s')"
  obtain q t where f: "f s = Some (q, t)" using b by (cases "f s") (auto simp: bind_q_def)
  have t: "I t" by (rule keepsD [OF assms(1) s f])
  show "I s'"
  proof (cases q)
    case (Ok a)
    then have "g a t = Some (r, s')" using b f by (simp add: bind_q_def)
    then show ?thesis by (rule keepsD [OF assms(2) t])
  next
    case (Err e)
    then show ?thesis using b f t by (simp add: bind_q_def)
  qed
qed

lemma keeps_if [keeps_rules]: "(b \<Longrightarrow> keeps I f) \<Longrightarrow> (\<not> b \<Longrightarrow> keeps I g) \<Longrightarrow> keeps I (if b then f else g)"
  by simp

lemma keeps_at:
  assumes "\<And>t. keeps I (f t)"
  shows "keeps I (\<lambda>s. f (g s) s)"
  using assms unfolding keeps_def by blast

end
