(* ===== verification/BitUtils.thy ===== *)
theory BitUtils
  imports Prelude
begin

text \<open>
  The integer helpers of \<open>src/utils.rs\<close> that the rest of the emulator computes with: sign
  extension, signed views of unsigned words, shift amounts, the mask table
  \<open>BIT_ONES_ARRAY\<close> with \<open>make_mask\<close>, \<open>mask_range\<close> and \<open>extract_range\<close>, and the alignment
  table.  Each one is related to the corresponding operation of the word library, so that
  later proofs compute with \<open>mask\<close>, \<open>take_bit\<close> and \<open>signed_take_bit\<close>.
\<close>

section \<open>Definitions\<close>

definition XLEN :: nat where
  "XLEN = 64"

definition shift_amount :: "'a::len word \<Rightarrow> nat" where
  "shift_amount value =
     (let value = (ucast value :: u64) in unat ((ucast value :: u32) AND (of_nat LENGTH('a) - 1)))"

definition as_signed_i128 :: "'a::len word \<Rightarrow> int" where
  "as_signed_i128 value =
     (if value AND push_bit (LENGTH('a) - 1) 1 = 0 then uint value
      else uint value - 2 ^ LENGTH('a))"

definition from_signed_i128 :: "int \<Rightarrow> 'a::len word" where
  "from_signed_i128 value = word_of_int (value mod 2 ^ 128)"

definition sign_extend :: "u64 \<Rightarrow> nat \<Rightarrow> u64" where
  "sign_extend value from_bits =
     (let sign_bit = XLEN - from_bits in signed_drop_bit sign_bit (push_bit sign_bit value))"

definition sign_extend_u32 :: "u32 \<Rightarrow> u64" where
  "sign_extend_u32 value = sign_extend (ucast value) 32"

definition is_sign_extended :: "u64 \<Rightarrow> nat \<Rightarrow> bool" where
  "is_sign_extended value bits \<longleftrightarrow> value = sign_extend value bits"

definition wrapping_add_as_signed :: "u64 \<Rightarrow> u64 \<Rightarrow> u64" where
  "wrapping_add_as_signed lhs rhs = word_of_int (sint lhs + sint rhs)"

definition negative_of :: "u64 \<Rightarrow> u64" where
  "negative_of value = NOT value + 1"

definition concat_to_u64 :: "u32 \<Rightarrow> u32 \<Rightarrow> u64" where
  "concat_to_u64 high low = push_bit 32 (ucast high) OR ucast low"

text \<open>\<open>ALIGN_ILST\<close>, indexed by the size of the accessed type.  The index 9 and above panics.\<close>

definition ALIGN_ILST :: "u64 list" where
  "ALIGN_ILST = [0x00, 0x00, 0x01, -1, 0x03, -1, -1, -1, 0x07]"

definition check_align :: "'a::len itself \<Rightarrow> u64 \<Rightarrow> bool" where
  "check_align T addr \<longleftrightarrow> addr AND ALIGN_ILST ! size_of T = 0"

primrec gen_ones_array :: "nat \<Rightarrow> u64 list" where
  "gen_ones_array 0 = [0]"
| "gen_ones_array (Suc i) = gen_ones_array i @ [gen_ones_array i ! i OR push_bit i 1]"

definition BIT_ONES_ARRAY :: "u64 list" where
  "BIT_ONES_ARRAY = gen_ones_array XLEN"

definition make_mask :: "nat \<Rightarrow> nat \<Rightarrow> u64" where
  "make_mask left right = (let width = right - left + 1 in push_bit left (BIT_ONES_ARRAY ! width))"

definition truncate_to_bits :: "'a::len word \<Rightarrow> nat \<Rightarrow> 'a word" where
  "truncate_to_bits value bits =
     (if 64 \<le> bits then value else ucast ((ucast value :: u64) AND (push_bit bits 1 - 1)))"

definition mask_range :: "'a::len word \<Rightarrow> nat \<Rightarrow> nat \<Rightarrow> 'a word" where
  "mask_range w l r = w AND ucast (make_mask l r)"

definition extract_range :: "'a::len word \<Rightarrow> nat \<Rightarrow> nat \<Rightarrow> 'a word" where
  "extract_range w l r = drop_bit l w AND ucast (BIT_ONES_ARRAY ! (r - l + 1))"

definition set_bit_ref :: "'a::len word \<Rightarrow> nat \<Rightarrow> 'a word" where
  "set_bit_ref data idx = data OR push_bit idx 1"

definition clear_bit :: "'a::len word \<Rightarrow> nat \<Rightarrow> 'a word" where
  "clear_bit data idx = data AND NOT (push_bit idx 1)"

definition read_bit :: "'a::len word \<Rightarrow> nat \<Rightarrow> bool" where
  "read_bit data idx \<longleftrightarrow> data AND push_bit idx 1 \<noteq> 0"

section \<open>The mask table\<close>

lemma length_gen_ones_array [simp]: "length (gen_ones_array n) = Suc n"
  by (induction n) simp_all

lemma gen_ones_array_last: "gen_ones_array n ! n = mask n"
  by (induction n) (simp_all add: nth_append mask_Suc_exp push_bit_of_1 ac_simps)

lemma gen_ones_array_nth:
  assumes "i \<le> n"
  shows "gen_ones_array n ! i = mask i"
  using assms
proof (induction n)
  case 0
  then show ?case by simp
next
  case (Suc n)
  show ?case
  proof (cases "i = Suc n")
    case True
    then show ?thesis by (simp add: gen_ones_array_last del: gen_ones_array.simps)
  next
    case False
    then show ?thesis using Suc by (simp add: nth_append)
  qed
qed

lemma BIT_ONES_ARRAY_nth:
  assumes "i \<le> 64"
  shows "BIT_ONES_ARRAY ! i = mask i"
  using assms by (simp add: BIT_ONES_ARRAY_def XLEN_def gen_ones_array_nth)

lemma make_mask_eq [word_field_simps]:
  assumes "left \<le> right" "right < 64"
  shows "make_mask left right = push_bit left (mask (right - left + 1))"
proof -
  have "right - left + 1 \<le> 64" using assms by simp
  then show ?thesis by (simp add: make_mask_def BIT_ONES_ARRAY_nth del: One_nat_def)
qed

lemma bit_make_mask [bit_simps]:
  assumes "left \<le> right" "right < 64"
  shows "bit (make_mask left right) k \<longleftrightarrow> left \<le> k \<and> k \<le> right"
  using assms by (auto simp: make_mask_eq bit_simps)

lemma extract_range_eq [word_field_simps]:
  assumes "l \<le> r" "r < LENGTH('a)" "LENGTH('a) \<le> 64"
  shows "extract_range (w :: 'a::len word) l r = take_bit (r - l + 1) (drop_bit l w)"
proof -
  have "r - l + 1 \<le> 64" using assms by simp
  then show ?thesis
    by (intro bit_word_eqI) (auto simp: extract_range_def BIT_ONES_ARRAY_nth bit_simps simp del: One_nat_def)
qed

lemma mask_range_eq [word_field_simps]:
  assumes "l \<le> r" "r < LENGTH('a)" "LENGTH('a) \<le> 64"
  shows "mask_range (w :: 'a::len word) l r = w AND push_bit l (mask (r - l + 1))"
  using assms by (intro bit_word_eqI) (auto simp: mask_range_def make_mask_eq bit_simps)

lemma truncate_to_bits_eq:
  assumes "LENGTH('a) \<le> 64"
  shows "truncate_to_bits (w :: 'a::len word) bits = take_bit bits w"
proof (cases "64 \<le> bits")
  case True
  then show ?thesis using assms by (simp add: truncate_to_bits_def take_bit_word_eq_self)
next
  case False
  have "push_bit bits 1 - 1 = (mask bits :: u64)"
    by (simp add: mask_eq_exp_minus_1 push_bit_of_1)
  then show ?thesis using assms False
    by (intro bit_word_eqI) (auto simp: truncate_to_bits_def bit_simps)
qed

section \<open>Sign extension and signed views\<close>

lemma bit_sign_extend [bit_simps]:
  assumes "0 < n" "n \<le> 64"
  shows "bit (sign_extend v n) k \<longleftrightarrow> k < 64 \<and> bit v (if k < n then k else n - 1)"
proof (cases "k < n")
  case True
  then have "bit (sign_extend v n) k \<longleftrightarrow> bit (push_bit (64 - n) v) (64 - n + k)"
    using assms by (auto simp: sign_extend_def XLEN_def bit_signed_drop_bit_iff Let_def)
  also have "\<dots> \<longleftrightarrow> bit v k"
    using assms True by (auto simp: bit_push_bit_iff)
  finally show ?thesis using assms True by simp
next
  case False
  then have "bit (sign_extend v n) k \<longleftrightarrow> k < 64 \<and> bit (push_bit (64 - n) v) 63"
    using assms
    by (auto simp: sign_extend_def XLEN_def bit_signed_drop_bit_iff Let_def dest: bit_imp_le_length)
  moreover have "63 - (64 - n) = n - 1" "64 - n \<le> 63" using assms by auto
  ultimately show ?thesis using assms False by (simp add: bit_simps)
qed

lemma sign_extend_signed_take_bit:
  assumes "0 < n" "n \<le> 64"
  shows "sign_extend v n = signed_take_bit (n - 1) v"
proof (rule bit_word_eqI)
  fix k
  assume "k < LENGTH(64)"
  moreover have "min k (n - 1) = (if k < n then k else n - 1)" using assms by auto
  ultimately show "bit (sign_extend v n) k = bit (signed_take_bit (n - 1) v) k"
    using assms by (simp add: bit_sign_extend bit_signed_take_bit_iff)
qed

lemma sint_sign_extend:
  assumes "0 < n" "n \<le> 64"
  shows "sint (sign_extend v n) = signed_take_bit (n - 1) (uint v)"
proof (rule bit_eqI)
  fix k
  have "min k (n - 1) = (if k < n then k else n - 1)" "n \<noteq> 64 \<Longrightarrow> \<not> 63 < n" using assms by auto
  then show "bit (sint (sign_extend v n)) k = bit (signed_take_bit (n - 1) (uint v)) k"
    using assms by (cases "n = 64") (auto simp: bit_sint_iff bit_sign_extend bit_signed_take_bit_iff bit_uint_iff)
qed

lemma sint_sign_extend_u32: "sint (sign_extend_u32 v) = sint v"
proof -
  have "sint (sign_extend_u32 v) = signed_take_bit 31 (uint (ucast v :: u64))"
    by (simp only: sign_extend_u32_def sint_sign_extend) simp
  also have "uint (ucast v :: u64) = uint v"
    by (simp add: uint_up_ucast is_up)
  finally show ?thesis
    by (simp add: sint_uint)
qed

lemma as_signed_i128_eq: "as_signed_i128 (w :: 'a::len word) = sint w"
proof -
  have "take_bit LENGTH('a) (uint w) = uint w"
    by (simp add: take_bit_int_eq_self)
  then have "sint w = uint w - (if bit w (LENGTH('a) - 1) then 2 ^ LENGTH('a) else 0)"
    by (simp add: sint_uint signed_take_bit_eq_take_bit_minus bit_uint_iff)
  then show ?thesis
    by (simp add: as_signed_i128_def)
qed

lemma from_signed_i128_eq:
  assumes "LENGTH('a) \<le> 128"
  shows "(from_signed_i128 v :: 'a::len word) = word_of_int v"
proof -
  have "(2 :: int) ^ LENGTH('a) dvd 2 ^ 128" using assms by (rule le_imp_power_dvd)
  then have "v mod 2 ^ 128 mod 2 ^ LENGTH('a) = v mod 2 ^ LENGTH('a)" by (rule mod_mod_cancel)
  then show ?thesis
    by (simp add: from_signed_i128_def word_of_int_eq_iff take_bit_eq_mod)
qed

lemma wrapping_add_as_signed_eq [simp]: "wrapping_add_as_signed a b = a + b"
  by (simp add: wrapping_add_as_signed_def)

lemma negative_of_eq [simp]: "negative_of a = - a"
  by (simp add: negative_of_def minus_eq_not_plus_1)

lemma shift_amount_eq:
  assumes "LENGTH('a) = 2 ^ n" "n < 32"
  shows "shift_amount (w :: 'a::len word) = unat (take_bit 32 w) mod LENGTH('a)"
proof -
  have m: "(of_nat LENGTH('a) - 1 :: u32) = mask n"
    using assms by (simp add: mask_eq_exp_minus_1)
  have "shift_amount w = unat (take_bit n (ucast (ucast w :: u64) :: u32))"
    by (simp add: shift_amount_def m take_bit_eq_mask)
  then show ?thesis using assms
    by (simp add: unsigned_take_bit_eq unsigned_ucast_eq take_bit_take_bit min_def flip: take_bit_eq_mod)
qed

lemma bit_set_clear [bit_simps]:
  "bit (set_bit_ref w i) k \<longleftrightarrow> bit w k \<or> (k = i \<and> i < LENGTH('a))"
  "bit (clear_bit w i) k \<longleftrightarrow> bit w k \<and> k \<noteq> i"
  for w :: "'a::len word"
  by (auto simp: set_bit_ref_def clear_bit_def bit_simps dest: bit_imp_le_length)

lemma read_bit_iff [simp]: "read_bit w i \<longleftrightarrow> bit w i"
  by (simp add: read_bit_def)

section \<open>Alignment\<close>

lemma check_align_simps [simp]:
  "check_align TYPE(8) a"
  "check_align TYPE(16) a \<longleftrightarrow> a AND 1 = 0"
  "check_align TYPE(32) a \<longleftrightarrow> a AND 3 = 0"
  "check_align TYPE(64) a \<longleftrightarrow> a AND 7 = 0"
  by (simp_all add: check_align_def ALIGN_ILST_def)

end
