(* ===== verification/Ram.thy ===== *)
theory Ram
  imports BitUtils
begin

text \<open>
  Main memory, \<open>src/ram.rs\<close>, with the raw pointer accesses of \<open>src/utils.rs\<close> and the
  memory errors of \<open>src/device/mod.rs\<close>.

  The boxed byte slice has the fixed length \<open>SIZE\<close>; it is a function from indices to bytes,
  and an index is used only after the bounds check of \<open>contains_access\<close> or
  \<open>try_insert_section\<close>.  The alignment test of the raw accesses looks at the host address,
  so the address of the slice is the field \<open>data_ptr\<close>; \<open>aligned_base\<close> says that the
  allocator returned an address that is a multiple of 8, which is the only thing the code relies on.
\<close>

section \<open>Definitions\<close>

datatype MemError =
    LoadPageFault | LoadMisaligned | LoadFault | StorePageFault | StoreMisaligned | StoreFault

datatype RamImageError =
    AddressOverflow u64 nat
  | OutOfRange u64 nat nat

definition BASE_ADDR :: u64 where
  "BASE_ADDR = 0x80000000"

definition SIZE :: nat where
  "SIZE = 512 * 2 ^ 20"

definition RESERVATION_SET_BIT_WIDTH :: nat where
  "RESERVATION_SET_BIT_WIDTH = 3"

record Reservation =
  reservation_set_id :: u64

record Ram =
  data :: "nat \<Rightarrow> u8"
  data_ptr :: u64
  reserved :: "Reservation option"

definition Reservation_new :: "u64 \<Rightarrow> Reservation" where
  "Reservation_new addr = \<lparr>reservation_set_id = drop_bit RESERVATION_SET_BIT_WIDTH addr\<rparr>"

definition in_the_same_reservation_set :: "Reservation \<Rightarrow> u64 \<Rightarrow> bool" where
  "in_the_same_reservation_set res addr \<longleftrightarrow>
     reservation_set_id res = drop_bit RESERVATION_SET_BIT_WIDTH addr"

definition Ram_new :: "u64 \<Rightarrow> Ram" where
  "Ram_new ptr = \<lparr>data = (\<lambda>_. 0), data_ptr = ptr, reserved = None\<rparr>"

definition Ram_with_init :: "u64 \<Rightarrow> u8 \<Rightarrow> Ram" where
  "Ram_with_init ptr byte = \<lparr>data = (\<lambda>_. byte), data_ptr = ptr, reserved = None\<rparr>"

definition Ram_with_data :: "u64 \<Rightarrow> u8 list \<Rightarrow> Ram option" where
  "Ram_with_data ptr bytes =
     (if SIZE < length bytes then None
      else Some \<lparr>data = (\<lambda>i. if i < length bytes then bytes ! i else 0),
                 data_ptr = ptr, reserved = None\<rparr>)"

definition splice_bytes :: "nat \<Rightarrow> u8 list \<Rightarrow> (nat \<Rightarrow> u8) \<Rightarrow> nat \<Rightarrow> u8" where
  "splice_bytes start bytes mem i =
     (if start \<le> i \<and> i < start + length bytes then bytes ! (i - start) else mem i)"

definition try_insert_section ::
  "u8 list \<Rightarrow> u64 \<Rightarrow> Ram \<Rightarrow> (unit, RamImageError) result \<times> Ram" where
  "try_insert_section section_data start_addr ram =
     (let end_addr = unat start_addr + length section_data in
      if 2 ^ 64 \<le> end_addr then (Err (AddressOverflow start_addr (length section_data)), ram)
      else if SIZE < end_addr then (Err (OutOfRange start_addr (length section_data) SIZE), ram)
      else (Ok (), ram\<lparr>data := splice_bytes (unat start_addr) section_data (data ram)\<rparr>))"

definition insert_section :: "u8 list \<Rightarrow> u64 \<Rightarrow> Ram \<Rightarrow> Ram option" where
  "insert_section section_data start_addr ram =
     (case try_insert_section section_data start_addr ram of
        (Ok _, ram') \<Rightarrow> Some ram'
      | (Err _, _) \<Rightarrow> None)"

definition contains_access :: "'a::len itself \<Rightarrow> u64 \<Rightarrow> bool" where
  "contains_access T addr \<longleftrightarrow>
     unat addr + size_of T < 2 ^ 64 \<and> unat addr + size_of T \<le> SIZE"

definition read_raw_ptr :: "Ram \<Rightarrow> u64 \<Rightarrow> 'a::len word option" where
  "read_raw_ptr ram addr =
     (if (data_ptr ram + addr) AND ALIGN_ILST ! size_of TYPE('a) \<noteq> 0 then None
      else Some (of_bytes (map (\<lambda>i. data ram (unat addr + i)) [0..<size_of TYPE('a)])))"

definition write_raw_ptr :: "Ram \<Rightarrow> u64 \<Rightarrow> 'a::len word \<Rightarrow> Ram option" where
  "write_raw_ptr ram addr v =
     (if (data_ptr ram + addr) AND ALIGN_ILST ! size_of TYPE('a) \<noteq> 0 then None
      else Some (ram\<lparr>data := splice_bytes (unat addr) (to_bytes v) (data ram)\<rparr>))"

definition ram_read :: "Ram \<Rightarrow> u64 \<Rightarrow> ('a::len word, MemError) result" where
  "ram_read ram addr =
     (if \<not> contains_access TYPE('a) addr then Err LoadFault
      else (case read_raw_ptr ram addr of
              Some v \<Rightarrow> Ok v
            | None \<Rightarrow> Err LoadMisaligned))"

definition ram_load_reserved :: "u64 \<Rightarrow> Ram \<Rightarrow> ('a::len word, MemError) result \<times> Ram" where
  "ram_load_reserved addr ram =
     (case ram_read ram addr of
        Err e \<Rightarrow> (Err e, ram)
      | Ok v \<Rightarrow> (Ok v, ram\<lparr>reserved := Some (Reservation_new addr)\<rparr>))"

definition ram_clear_reservation :: "Ram \<Rightarrow> Ram" where
  "ram_clear_reservation ram = ram\<lparr>reserved := None\<rparr>"

definition try_invalidate_reservation :: "u64 \<Rightarrow> Ram \<Rightarrow> Ram" where
  "try_invalidate_reservation addr ram =
     (case reserved ram of
        Some res \<Rightarrow>
          if in_the_same_reservation_set res addr then ram\<lparr>reserved := None\<rparr> else ram
      | None \<Rightarrow> ram)"

definition ram_write :: "u64 \<Rightarrow> 'a::len word \<Rightarrow> Ram \<Rightarrow> (unit, MemError) result \<times> Ram" where
  "ram_write addr v ram =
     (if \<not> contains_access TYPE('a) addr then (Err StoreFault, ram)
      else
        let ram = try_invalidate_reservation addr ram in
        (case write_raw_ptr ram addr v of
           Some ram' \<Rightarrow> (Ok (), ram')
         | None \<Rightarrow> (Err StoreMisaligned, ram)))"

definition ram_store_conditional ::
  "u64 \<Rightarrow> 'a::len word \<Rightarrow> Ram \<Rightarrow> (bool, MemError) result \<times> Ram" where
  "ram_store_conditional addr v ram =
     (case reserved ram of
        Some res \<Rightarrow>
          if in_the_same_reservation_set res addr then
            (case ram_write addr v ram of
               (Ok _, ram') \<Rightarrow> (Ok True, ram')
             | (Err e, ram') \<Rightarrow> (Err e, ram'))
          else (Ok False, ram\<lparr>reserved := None\<rparr>)
      | None \<Rightarrow> (Ok False, ram\<lparr>reserved := None\<rparr>))"

section \<open>Accessed types and host alignment\<close>

definition machine_int :: "'a::len itself \<Rightarrow> bool" where
  "machine_int T \<longleftrightarrow> LENGTH('a) \<in> {8, 16, 32, 64}"

definition aligned_base :: "Ram \<Rightarrow> bool" where
  "aligned_base ram \<longleftrightarrow> data_ptr ram AND 7 = 0"

lemma machine_int_simps [simp]:
  "machine_int TYPE(8)" "machine_int TYPE(16)" "machine_int TYPE(32)" "machine_int TYPE(64)"
  by (simp_all add: machine_int_def)

lemma machine_int_dvd:
  assumes "machine_int TYPE('a::len)"
  shows "8 dvd LENGTH('a)"
  using assms by (auto simp: machine_int_def)

lemma mask_sum_eq_zero:
  fixes p a :: u64
  assumes "p AND mask n = 0"
  shows "(p + a) AND mask n = a AND mask n"
proof -
  have "take_bit n (p + a) = take_bit n (take_bit n p + take_bit n a)"
    by transfer (simp add: take_bit_add)
  then show ?thesis using assms by (simp add: take_bit_eq_mask)
qed

lemma align_mask:
  assumes "machine_int TYPE('a::len)"
  obtains n where "n \<le> 3" "ALIGN_ILST ! size_of TYPE('a) = mask n" "size_of TYPE('a) = 2 ^ n"
proof -
  have "\<exists>n\<le>3. ALIGN_ILST ! size_of TYPE('a) = mask n \<and> size_of TYPE('a) = 2 ^ n"
  proof -
    consider "LENGTH('a) = 8" | "LENGTH('a) = 16" | "LENGTH('a) = 32" | "LENGTH('a) = 64"
      using assms by (auto simp: machine_int_def)
    then show ?thesis
    proof cases
      case 1
      then show ?thesis by (intro exI [of _ 0]) (simp add: size_of_def ALIGN_ILST_def)
    next
      case 2
      then show ?thesis by (intro exI [of _ 1]) (simp add: size_of_def ALIGN_ILST_def mask_eq_exp_minus_1)
    next
      case 3
      then show ?thesis by (intro exI [of _ 2]) (simp add: size_of_def ALIGN_ILST_def mask_eq_exp_minus_1)
    next
      case 4
      then show ?thesis by (intro exI [of _ 3]) (simp add: size_of_def ALIGN_ILST_def mask_eq_exp_minus_1)
    qed
  qed
  then show thesis using that by blast
qed

lemma host_aligned_iff:
  assumes "machine_int TYPE('a::len)" "aligned_base ram"
  shows "(data_ptr ram + addr) AND ALIGN_ILST ! size_of TYPE('a) = 0 \<longleftrightarrow> check_align TYPE('a) addr"
proof -
  obtain n where n: "n \<le> 3" "ALIGN_ILST ! size_of TYPE('a) = mask n"
    using assms(1) by (rule align_mask)
  have "data_ptr ram AND mask 3 = 0"
    using assms(2) by (simp add: aligned_base_def mask_eq_exp_minus_1)
  then have "take_bit n (take_bit 3 (data_ptr ram)) = 0"
    by (simp add: take_bit_eq_mask)
  then have "data_ptr ram AND mask n = 0"
    using n(1) by (simp add: take_bit_eq_mask [symmetric] min_def)
  then show ?thesis
    by (simp add: check_align_def n(2) mask_sum_eq_zero)
qed

section \<open>Reads and writes\<close>

definition bytes_at :: "Ram \<Rightarrow> nat \<Rightarrow> nat \<Rightarrow> u8 list" where
  "bytes_at ram start n = map (\<lambda>i. data ram (start + i)) [0..<n]"

lemma length_bytes_at [simp]: "length (bytes_at ram start n) = n"
  by (simp add: bytes_at_def)

lemma bytes_at_splice_same:
  "length bs = n \<Longrightarrow> bytes_at (ram\<lparr>data := splice_bytes start bs m\<rparr>) start n = bs"
  by (auto simp: bytes_at_def splice_bytes_def intro: nth_equalityI)

lemma bytes_at_splice_disjoint:
  assumes "i + n \<le> start \<or> start + length bs \<le> i"
  shows "bytes_at (ram\<lparr>data := splice_bytes start bs (data ram)\<rparr>) i n = bytes_at ram i n"
  using assms by (auto simp: bytes_at_def splice_bytes_def)

lemma ram_read_eq:
  assumes "machine_int TYPE('a::len)" "aligned_base ram"
  shows "(ram_read ram addr :: ('a word, MemError) result) =
    (if \<not> contains_access TYPE('a) addr then Err LoadFault
     else if check_align TYPE('a) addr then Ok (of_bytes (bytes_at ram (unat addr) (size_of TYPE('a))))
     else Err LoadMisaligned)"
  using assms by (simp add: ram_read_def read_raw_ptr_def host_aligned_iff bytes_at_def)

lemma try_invalidate_reservation_simps [simp]:
  "data (try_invalidate_reservation addr ram) = data ram"
  "data_ptr (try_invalidate_reservation addr ram) = data_ptr ram"
  "aligned_base (try_invalidate_reservation addr ram) = aligned_base ram"
  "reserved (try_invalidate_reservation addr ram) =
     (case reserved ram of
        None \<Rightarrow> None
      | Some r \<Rightarrow> if in_the_same_reservation_set r addr then None else Some r)"
  by (auto simp: try_invalidate_reservation_def aligned_base_def split: option.splits)

lemma ram_write_eq:
  assumes "machine_int TYPE('a::len)" "aligned_base ram"
  shows "ram_write addr (v :: 'a word) ram =
    (if \<not> contains_access TYPE('a) addr then (Err StoreFault, ram)
     else let ram1 = try_invalidate_reservation addr ram in
       if check_align TYPE('a) addr
       then (Ok (), ram1\<lparr>data := splice_bytes (unat addr) (to_bytes v) (data ram)\<rparr>)
       else (Err StoreMisaligned, ram1))"
proof -
  have "aligned_base (try_invalidate_reservation addr ram)"
    using assms(2) by simp
  then show ?thesis
    using assms(1) by (simp add: ram_write_def write_raw_ptr_def host_aligned_iff Let_def del: try_invalidate_reservation_simps(2,3))
qed

lemma ram_write_aligned_base:
  assumes "ram_write addr (v :: 'a::len word) ram = (r, ram')"
  shows "aligned_base ram' = aligned_base ram"
  using assms
  by (auto simp: ram_write_def write_raw_ptr_def aligned_base_def Let_def split: if_splits option.splits)

lemma ram_write_data_frame:
  assumes "ram_write addr (v :: 'a::len word) ram = (r, ram')"
    and "i < unat addr \<or> unat addr + size_of TYPE('a) \<le> i"
  shows "data ram' i = data ram i"
  using assms
  by (auto simp: ram_write_def write_raw_ptr_def splice_bytes_def Let_def split: if_splits option.splits)

lemma ram_write_error_data:
  assumes "ram_write addr (v :: 'a::len word) ram = (Err e, ram')"
  shows "data ram' = data ram"
  using assms
  by (auto simp: ram_write_def Let_def split: if_splits option.splits)

lemma ram_read_write_disjoint:
  assumes w: "ram_write addr (v :: 'a::len word) ram = (r, ram')"
    and "machine_int TYPE('b::len)" "aligned_base ram"
    and "unat b + size_of TYPE('b) \<le> unat addr \<or> unat addr + size_of TYPE('a) \<le> unat b"
  shows "(ram_read ram' b :: ('b word, MemError) result) = ram_read ram b"
proof -
  have "aligned_base ram'" using assms by (simp add: ram_write_aligned_base [OF w])
  moreover have "bytes_at ram' (unat b) (size_of TYPE('b)) = bytes_at ram (unat b) (size_of TYPE('b))"
    using assms(4) by (auto simp: bytes_at_def intro!: ram_write_data_frame [OF w])
  ultimately show ?thesis using assms by (simp add: ram_read_eq)
qed

text \<open>
  C27.  A write of a machine integer to an aligned address inside the memory succeeds, a read
  of the same width at that address returns the value, and a read of any width that does not
  overlap the written bytes returns what it returned before.
\<close>

theorem ram_write_read:
  assumes "machine_int TYPE('a::len)" "machine_int TYPE('b::len)" "aligned_base ram"
    and "contains_access TYPE('a) addr" "check_align TYPE('a) addr"
  shows "\<exists>ram'. ram_write addr (v :: 'a word) ram = (Ok (), ram')
    \<and> ram_read ram' addr = Ok v
    \<and> (\<forall>b. unat b + size_of TYPE('b) \<le> unat addr \<or> unat addr + size_of TYPE('a) \<le> unat b \<longrightarrow>
          (ram_read ram' b :: ('b word, MemError) result) = ram_read ram b)"
proof -
  obtain r ram' where w: "ram_write addr v ram = (r, ram')" by fastforce
  then have r: "r = Ok ()" and d: "bytes_at ram' (unat addr) (size_of TYPE('a)) = to_bytes v"
    using assms by (auto simp: ram_write_eq Let_def bytes_at_splice_same)
  have "aligned_base ram'" using assms by (simp add: ram_write_aligned_base [OF w])
  then have "ram_read ram' addr = Ok v"
    using assms d by (simp add: ram_read_eq of_bytes_to_bytes machine_int_dvd)
  then show ?thesis
    using w r assms(2,3) ram_read_write_disjoint [OF w, where 'b = 'b] by blast
qed

theorem ram_write_read_witness:
  "\<exists>ram'. ram_write 0x10 (0x11223344 :: u32) (Ram_new 0x1000) = (Ok (), ram')
    \<and> ram_read ram' 0x10 = Ok (0x11223344 :: u32)
    \<and> (ram_read ram' 0x14 :: (u16, MemError) result) = ram_read (Ram_new 0x1000) 0x14"
proof -
  have "aligned_base (Ram_new 0x1000)" "contains_access TYPE(32) 0x10" "check_align TYPE(32) 0x10"
    by (simp_all add: aligned_base_def Ram_new_def contains_access_def SIZE_def)
  moreover have "unat (0x10 :: u64) + size_of TYPE(32) \<le> unat (0x14 :: u64)" by simp
  ultimately show ?thesis
    using ram_write_read [where 'a = 32 and 'b = 16, of "Ram_new 0x1000" "0x10" "0x11223344"]
      machine_int_simps by blast
qed

section \<open>Load-reserved and store-conditional over a history\<close>

text \<open>
  A history of memory operations of one width.  \<open>reserves\<close> and \<open>kills\<close> describe, without
  looking at the \<open>reserved\<close> field, which operations make and which destroy a reservation
  of a 64-bit reservation set; \<open>holds_reservation\<close> says that some operation reserved
  the set and none of the later ones destroyed it.
\<close>

datatype 'w ram_op = Op_LR u64 | Op_SC u64 'w | Op_Write u64 'w | Op_Clear

fun ram_step :: "'a::len word ram_op \<Rightarrow> Ram \<Rightarrow> Ram" where
  "ram_step (Op_LR a) ram = snd (ram_load_reserved a ram :: ('a word, MemError) result \<times> Ram)"
| "ram_step (Op_SC a v) ram = snd (ram_store_conditional a v ram)"
| "ram_step (Op_Write a v) ram = snd (ram_write a v ram)"
| "ram_step Op_Clear ram = ram_clear_reservation ram"

fun reserves :: "'a::len word ram_op \<Rightarrow> u64 \<Rightarrow> bool" where
  "reserves (Op_LR a :: 'a word ram_op) s \<longleftrightarrow>
     contains_access TYPE('a) a \<and> check_align TYPE('a) a \<and> drop_bit 3 a = s"
| "reserves _ s \<longleftrightarrow> False"

fun kills :: "'a::len word ram_op \<Rightarrow> u64 \<Rightarrow> bool" where
  "kills (Op_LR a :: 'a word ram_op) s \<longleftrightarrow>
     contains_access TYPE('a) a \<and> check_align TYPE('a) a \<and> drop_bit 3 a \<noteq> s"
| "kills (Op_SC a v) s \<longleftrightarrow> (drop_bit 3 a = s \<longrightarrow> contains_access TYPE('a) a)"
| "kills (Op_Write a v) s \<longleftrightarrow> contains_access TYPE('a) a \<and> drop_bit 3 a = s"
| "kills Op_Clear s \<longleftrightarrow> True"

definition holds_reservation :: "'a::len word ram_op list \<Rightarrow> u64 \<Rightarrow> bool" where
  "holds_reservation ops s \<longleftrightarrow>
     (\<exists>pre op post. ops = pre @ op # post \<and> reserves op s \<and> (\<forall>q\<in>set post. \<not> kills q s))"

definition reservation :: "Ram \<Rightarrow> u64 option" where
  "reservation ram = map_option reservation_set_id (reserved ram)"

lemma holds_reservation_Nil [simp]: "\<not> holds_reservation [] s"
  by (simp add: holds_reservation_def)

lemma holds_reservation_snoc:
  "holds_reservation (ops @ [q]) s \<longleftrightarrow> reserves q s \<or> (holds_reservation ops s \<and> \<not> kills q s)"
proof
  assume "holds_reservation (ops @ [q]) s"
  then obtain pre op post where h: "ops @ [q] = pre @ op # post" "reserves op s" "\<forall>q\<in>set post. \<not> kills q s"
    by (auto simp: holds_reservation_def)
  then show "reserves q s \<or> (holds_reservation ops s \<and> \<not> kills q s)"
    by (cases post rule: rev_cases) (auto simp: holds_reservation_def)
next
  assume "reserves q s \<or> (holds_reservation ops s \<and> \<not> kills q s)"
  then show "holds_reservation (ops @ [q]) s"
  proof
    assume "reserves q s"
    then show ?thesis unfolding holds_reservation_def by (intro exI [of _ ops] exI [of _ q] exI [of _ "[]"]) simp
  next
    assume "holds_reservation ops s \<and> \<not> kills q s"
    then obtain pre op post where "ops = pre @ op # post" "reserves op s"
        "\<forall>q\<in>set (post @ [q]). \<not> kills q s"
      by (auto simp: holds_reservation_def)
    then show ?thesis unfolding holds_reservation_def
      by (intro exI [of _ pre] exI [of _ op] exI [of _ "post @ [q]"]) simp
  qed
qed

lemma reservation_write:
  assumes "machine_int TYPE('a::len)" "aligned_base ram"
  shows "reservation (snd (ram_write a (v :: 'a word) ram)) =
    (if contains_access TYPE('a) a \<and> reservation ram = Some (drop_bit 3 a) then None else reservation ram)"
  using assms
  by (auto simp: ram_write_eq Let_def reservation_def in_the_same_reservation_set_def
      RESERVATION_SET_BIT_WIDTH_def split: option.splits)

lemma ram_step_aligned_base:
  assumes "aligned_base ram"
  shows "aligned_base (ram_step op ram)"
proof -
  have w: "aligned_base (snd (ram_write a v ram))" for a and v :: "'a word"
    using assms ram_write_aligned_base [of a v ram "fst (ram_write a v ram)" "snd (ram_write a v ram)"] by simp
  have c: "aligned_base (ram\<lparr>reserved := x\<rparr>)" for x
    using assms by (simp add: aligned_base_def)
  show ?thesis
    using assms w c
    by (cases op) (auto simp: ram_load_reserved_def ram_store_conditional_def ram_clear_reservation_def
        split: result.splits option.splits prod.splits intro: ram_write_aligned_base [THEN iffD2])
qed

lemma reservation_step:
  assumes "machine_int TYPE('a::len)" "aligned_base ram"
  shows "reservation (ram_step (op :: 'a word ram_op) ram) = Some s \<longleftrightarrow>
    reserves op s \<or> (reservation ram = Some s \<and> \<not> kills op s)"
proof (cases op)
  case (Op_LR a)
  then show ?thesis
    using assms by (auto simp: ram_load_reserved_def ram_read_eq reservation_def Reservation_new_def
        RESERVATION_SET_BIT_WIDTH_def)
next
  case (Op_SC a v)
  show ?thesis
  proof (cases "reservation ram = Some (drop_bit 3 a)")
    case True
    then have "ram_step op ram = snd (ram_write a v ram)"
      using Op_SC by (auto simp: ram_store_conditional_def reservation_def in_the_same_reservation_set_def
          RESERVATION_SET_BIT_WIDTH_def split: prod.splits result.splits)
    then show ?thesis using Op_SC True assms by (auto simp: reservation_write)
  next
    case False
    then have "ram_step op ram = ram\<lparr>reserved := None\<rparr>"
      using Op_SC by (auto simp: ram_store_conditional_def reservation_def in_the_same_reservation_set_def
          RESERVATION_SET_BIT_WIDTH_def split: option.splits)
    then show ?thesis using Op_SC False by (auto simp: reservation_def)
  qed
next
  case (Op_Write a v)
  then show ?thesis using assms by (auto simp: reservation_write)
next
  case Op_Clear
  then show ?thesis by (auto simp: ram_clear_reservation_def reservation_def)
qed

lemma reservation_history:
  assumes "machine_int TYPE('a::len)" "aligned_base ram" "reserved ram = None"
  shows "aligned_base (fold ram_step (ops :: 'a word ram_op list) ram) \<and>
    (reservation (fold ram_step ops ram) = Some s \<longleftrightarrow> holds_reservation ops s)"
  using assms
  by (induction ops rule: rev_induct)
     (auto simp: reservation_def [of ram] ram_step_aligned_base reservation_step holds_reservation_snoc)

lemma store_conditional_ok_iff:
  assumes "machine_int TYPE('a::len)" "aligned_base ram"
  shows "fst (ram_store_conditional a (v :: 'a word) ram) = Ok True \<longleftrightarrow>
    reservation ram = Some (drop_bit 3 a) \<and> contains_access TYPE('a) a \<and> check_align TYPE('a) a"
  using assms
  by (auto simp: ram_store_conditional_def reservation_def in_the_same_reservation_set_def ram_write_eq
      RESERVATION_SET_BIT_WIDTH_def Let_def split: option.splits prod.splits)



section \<open>Loading an image\<close>

text \<open>
  Inserting a section succeeds exactly when it ends inside the memory; it then places the
  bytes at the start address and leaves the rest and the reservation alone, and when it fails
  nothing changes and the error tells an address overflow from a range error.
\<close>

theorem try_insert_section_spec:
  "case try_insert_section bytes start ram of
     (Ok _, ram') \<Rightarrow>
       unat start + length bytes \<le> SIZE \<and> reserved ram' = reserved ram
       \<and> bytes_at ram' (unat start) (length bytes) = bytes
       \<and> (\<forall>i. i < unat start \<or> unat start + length bytes \<le> i \<longrightarrow> data ram' i = data ram i)
   | (Err (AddressOverflow s n), ram') \<Rightarrow>
       ram' = ram \<and> s = start \<and> n = length bytes \<and> 2 ^ 64 \<le> unat start + length bytes
   | (Err (OutOfRange s n m), ram') \<Rightarrow>
       ram' = ram \<and> s = start \<and> n = length bytes \<and> m = SIZE
       \<and> SIZE < unat start + length bytes \<and> unat start + length bytes < 2 ^ 64"
  by (auto simp: try_insert_section_def Let_def bytes_at_splice_same splice_bytes_def)

theorem try_insert_section_spec_witness:
  "fst (try_insert_section [1, 2] 0x20000000 (Ram_new 0)) = Err (OutOfRange 0x20000000 2 SIZE)
   \<and> data (snd (try_insert_section [7, 8] 4 (Ram_new 0))) 3 = 0"
  using try_insert_section_spec [where bytes = "[1, 2]" and start = "0x20000000" and ram = "Ram_new 0"]
    try_insert_section_spec [where bytes = "[7, 8]" and start = 4 and ram = "Ram_new 0"]
  by (simp add: try_insert_section_def SIZE_def Let_def Ram_new_def splice_bytes_def)

end
