(* ===== verification/Caches.thy ===== *)
theory Caches
  imports BitUtils
begin

text \<open>
  The caches of \<open>src/isa/cache.rs\<close>: \<open>DirectCache\<close>, \<open>SetCache\<close> with its FIFO sets, \<open>NullCache\<close>
  and the counting wrapper \<open>Cache\<close>.  The locale \<open>cache_policy\<close> is the contract of the trait
  \<open>CachePolicy\<close> that the clients rely on (a cache never invents an entry), \<open>exact_cache\<close>
  adds what only the direct-mapped cache promises: the last entry put is found and an
  invalidated address is not.  The clients' notion of coherence is proved once in the first locale.
\<close>

section \<open>Definitions\<close>

type_synonym 'v slot = "u64 \<times> 'v option"

definition index_of :: "nat \<Rightarrow> u64 \<Rightarrow> nat" where
  "index_of ADDR_SHIFT_BITS addr = drop_bit ADDR_SHIFT_BITS (unat addr)"

record 'v DirectCache =
  direct_slots :: "'v slot list"

definition get_id :: "nat \<Rightarrow> nat \<Rightarrow> u64 \<Rightarrow> nat" where
  "get_id shift N addr = index_of shift addr AND (N - 1)"

definition direct_new :: "nat \<Rightarrow> 'v DirectCache" where
  "direct_new N = \<lparr>direct_slots = replicate N (0, None)\<rparr>"

definition direct_get :: "nat \<Rightarrow> nat \<Rightarrow> 'v DirectCache \<Rightarrow> u64 \<Rightarrow> 'v option" where
  "direct_get shift N c addr =
     (case direct_slots c ! get_id shift N addr of (tag, d) \<Rightarrow> if tag = addr then d else None)"

definition direct_put :: "nat \<Rightarrow> nat \<Rightarrow> 'v DirectCache \<Rightarrow> u64 \<Rightarrow> 'v \<Rightarrow> 'v DirectCache" where
  "direct_put shift N c addr v =
     c\<lparr>direct_slots := (direct_slots c)[get_id shift N addr := (addr, Some v)]\<rparr>"

definition direct_invalidate :: "nat \<Rightarrow> nat \<Rightarrow> 'v DirectCache \<Rightarrow> u64 \<Rightarrow> 'v DirectCache" where
  "direct_invalidate shift N c addr =
     c\<lparr>direct_slots := (direct_slots c)[get_id shift N addr := (0, None)]\<rparr>"

definition direct_clear :: "'v DirectCache \<Rightarrow> 'v DirectCache" where
  "direct_clear c = c\<lparr>direct_slots := replicate (length (direct_slots c)) (0, None)\<rparr>"

record 'v CacheSet =
  set_idx :: nat
  set_slots :: "'v slot list"

definition CacheSet_new :: "nat \<Rightarrow> 'v CacheSet" where
  "CacheSet_new W = \<lparr>set_idx = 0, set_slots = replicate W (0, None)\<rparr>"

definition CacheSet_insert :: "nat \<Rightarrow> 'v CacheSet \<Rightarrow> u64 \<Rightarrow> 'v \<Rightarrow> 'v CacheSet" where
  "CacheSet_insert W s addr v =
     (let slots' = (set_slots s)[set_idx s := (addr, Some v)]; i = set_idx s + 1 in
      \<lparr>set_idx = (if i = W then 0 else i), set_slots = slots'\<rparr>)"

fun position :: "('a \<Rightarrow> bool) \<Rightarrow> 'a list \<Rightarrow> nat option" where
  "position P [] = None"
| "position P (x # xs) = (if P x then Some 0 else map_option Suc (position P xs))"

definition CacheSet_invalidate :: "'v CacheSet \<Rightarrow> u64 \<Rightarrow> 'v CacheSet" where
  "CacheSet_invalidate s target =
     (case position (\<lambda>(addr, _). addr = target) (set_slots s) of
        Some index \<Rightarrow> s\<lparr>set_slots := (set_slots s)[index := (0, None)]\<rparr>
      | None \<Rightarrow> s)"

record 'v SetCache =
  sets :: "'v CacheSet list"

definition set_index_of :: "nat \<Rightarrow> nat \<Rightarrow> u64 \<Rightarrow> nat" where
  "set_index_of shift S addr = index_of shift addr AND (S - 1)"

definition set_new :: "nat \<Rightarrow> nat \<Rightarrow> 'v SetCache" where
  "set_new S W = \<lparr>sets = replicate S (CacheSet_new W)\<rparr>"

definition set_get :: "nat \<Rightarrow> nat \<Rightarrow> 'v SetCache \<Rightarrow> u64 \<Rightarrow> 'v option" where
  "set_get shift S c addr =
     (let s = sets c ! set_index_of shift S addr in
      Option.bind (position (\<lambda>(a, _). a = addr) (set_slots s)) (\<lambda>index. snd (set_slots s ! index)))"

definition set_put :: "nat \<Rightarrow> nat \<Rightarrow> nat \<Rightarrow> 'v SetCache \<Rightarrow> u64 \<Rightarrow> 'v \<Rightarrow> 'v SetCache" where
  "set_put shift S W c addr v =
     (let i = set_index_of shift S addr in
      c\<lparr>sets := (sets c)[i := CacheSet_insert W (sets c ! i) addr v]\<rparr>)"

definition set_invalidate :: "nat \<Rightarrow> nat \<Rightarrow> 'v SetCache \<Rightarrow> u64 \<Rightarrow> 'v SetCache" where
  "set_invalidate shift S c addr =
     (let i = set_index_of shift S addr in
      c\<lparr>sets := (sets c)[i := CacheSet_invalidate (sets c ! i) addr]\<rparr>)"

definition set_clear :: "nat \<Rightarrow> nat \<Rightarrow> 'v SetCache \<Rightarrow> 'v SetCache" where
  "set_clear S W c = set_new S W"

datatype 'v NullCache = NullCache

definition null_get :: "'v NullCache \<Rightarrow> u64 \<Rightarrow> 'v option" where
  "null_get c addr = None"

definition null_put :: "'v NullCache \<Rightarrow> u64 \<Rightarrow> 'v \<Rightarrow> 'v NullCache" where
  "null_put c addr v = c"

definition null_invalidate :: "'v NullCache \<Rightarrow> u64 \<Rightarrow> 'v NullCache" where
  "null_invalidate c addr = c"

definition null_clear :: "'v NullCache \<Rightarrow> 'v NullCache" where
  "null_clear c = c"

text \<open>The wrapper counts accesses and hits; the counters are interior-mutable cells.\<close>

record 'c Cache =
  policy :: 'c
  hit_count :: u64
  access_count :: u64

definition Cache_new :: "'c \<Rightarrow> 'c Cache" where
  "Cache_new p = \<lparr>policy = p, hit_count = 0, access_count = 0\<rparr>"

definition Cache_get :: "('c \<Rightarrow> u64 \<Rightarrow> 'v option) \<Rightarrow> 'c Cache \<Rightarrow> u64 \<Rightarrow> 'v option \<times> 'c Cache" where
  "Cache_get g c addr =
     (let r = g (policy c) addr in
      (r, c\<lparr>access_count := access_count c + 1,
            hit_count := (case r of Some _ \<Rightarrow> hit_count c + 1 | None \<Rightarrow> hit_count c)\<rparr>))"

definition Cache_put :: "('c \<Rightarrow> u64 \<Rightarrow> 'v \<Rightarrow> 'c) \<Rightarrow> 'c Cache \<Rightarrow> u64 \<Rightarrow> 'v \<Rightarrow> 'c Cache" where
  "Cache_put p c addr v = c\<lparr>policy := p (policy c) addr v\<rparr>"

definition Cache_invalidate :: "('c \<Rightarrow> u64 \<Rightarrow> 'c) \<Rightarrow> 'c Cache \<Rightarrow> u64 \<Rightarrow> 'c Cache" where
  "Cache_invalidate i c addr = c\<lparr>policy := i (policy c) addr\<rparr>"

definition Cache_clear :: "('c \<Rightarrow> 'c) \<Rightarrow> 'c Cache \<Rightarrow> 'c Cache" where
  "Cache_clear cl c = c\<lparr>policy := cl (policy c)\<rparr>"

section \<open>The contract\<close>

locale cache_policy =
  fixes inv :: "'c \<Rightarrow> bool"
    and contents :: "'c \<Rightarrow> (u64 \<times> 'v) set"
    and get :: "'c \<Rightarrow> u64 \<Rightarrow> 'v option"
    and put :: "'c \<Rightarrow> u64 \<Rightarrow> 'v \<Rightarrow> 'c"
    and invalidate :: "'c \<Rightarrow> u64 \<Rightarrow> 'c"
    and clear :: "'c \<Rightarrow> 'c"
  assumes get_sound: "inv c \<Longrightarrow> get c k = Some v \<Longrightarrow> (k, v) \<in> contents c"
    and put_contents: "inv c \<Longrightarrow> contents (put c k v) \<subseteq> insert (k, v) (contents c)"
    and invalidate_contents: "inv c \<Longrightarrow> contents (invalidate c k) \<subseteq> contents c"
    and clear_contents: "inv c \<Longrightarrow> contents (clear c) = {}"
    and inv_put: "inv c \<Longrightarrow> inv (put c k v)"
    and inv_invalidate: "inv c \<Longrightarrow> inv (invalidate c k)"
    and inv_clear: "inv c \<Longrightarrow> inv (clear c)"
begin

definition coherent :: "(u64 \<Rightarrow> 'v \<Rightarrow> bool) \<Rightarrow> 'c \<Rightarrow> bool" where
  "coherent P c \<longleftrightarrow> inv c \<and> (\<forall>(k, v) \<in> contents c. P k v)"

lemma coherent_get: "coherent P c \<Longrightarrow> get c k = Some v \<Longrightarrow> P k v"
  using get_sound by (fastforce simp: coherent_def)

lemma coherent_put: "coherent P c \<Longrightarrow> P k v \<Longrightarrow> coherent P (put c k v)"
  using put_contents inv_put by (fastforce simp: coherent_def)

lemma coherent_invalidate: "coherent P c \<Longrightarrow> coherent P (invalidate c k)"
  using invalidate_contents inv_invalidate by (fastforce simp: coherent_def)

lemma coherent_clear: "inv c \<Longrightarrow> coherent P (clear c)"
  using clear_contents inv_clear by (simp add: coherent_def)

lemma clear_get: "inv c \<Longrightarrow> get (clear c) k = None"
  using get_sound clear_contents inv_clear by (metis emptyE not_None_eq)

lemma coherent_mono: "coherent P c \<Longrightarrow> (\<And>k v. P k v \<Longrightarrow> Q k v) \<Longrightarrow> coherent Q c"
  by (auto simp: coherent_def)

end

text \<open>Histories of cache operations and the map they build when nothing is evicted.\<close>

datatype 'v cache_op = Put u64 'v | Invalidate u64 | Clear

fun map_step :: "'v cache_op \<Rightarrow> (u64 \<rightharpoonup> 'v) \<Rightarrow> (u64 \<rightharpoonup> 'v)" where
  "map_step (Put k v) m = m(k \<mapsto> v)"
| "map_step (Invalidate k) m = m(k := None)"
| "map_step Clear m = Map.empty"

locale exact_cache = cache_policy +
  assumes get_put_same: "inv c \<Longrightarrow> get (put c k v) k = Some v"
    and get_put_other: "inv c \<Longrightarrow> k' \<noteq> k \<Longrightarrow> get (put c k v) k' \<in> {None, get c k'}"
    and get_invalidate_same: "inv c \<Longrightarrow> get (invalidate c k) k = None"
    and get_invalidate_other: "inv c \<Longrightarrow> k' \<noteq> k \<Longrightarrow> get (invalidate c k) k' \<in> {None, get c k'}"
begin

fun cache_step :: "'b cache_op \<Rightarrow> 'a \<Rightarrow> 'a" where
  "cache_step (Put k v) c = put c k v"
| "cache_step (Invalidate k) c = invalidate c k"
| "cache_step Clear c = clear c"

lemma cache_step_inv: "inv c \<Longrightarrow> inv (cache_step op c)"
  by (cases op) (simp_all add: inv_put inv_invalidate inv_clear)

lemma cache_step_sub:
  assumes "inv c" "\<And>k v. get c k = Some v \<Longrightarrow> m k = Some v" "get (cache_step op c) k = Some v"
  shows "map_step op m k = Some v"
proof (cases op)
  case (Put k' w)
  then show ?thesis
    using assms get_put_same [of c k' w] get_put_other [of c k k' w] by (cases "k = k'") (simp, fastforce dest: sym)
next
  case (Invalidate k')
  then show ?thesis
    using assms get_invalidate_same [of c k'] get_invalidate_other [of c k k'] by (cases "k = k'") (simp, fastforce dest: sym)
next
  case Clear
  then show ?thesis using assms clear_get [of c k] by simp
qed

lemma lossy_map:
  assumes "inv c" "\<And>k v. get c k = Some v \<Longrightarrow> m k = Some v"
    and "get (fold cache_step ops c) k = Some v"
  shows "fold map_step ops m k = Some v"
  using assms
proof (induction ops arbitrary: c m)
  case Nil
  then show ?case by simp
next
  case (Cons op ops)
  show ?case
    unfolding fold_simps
    by (rule Cons.IH [of "cache_step op c"]) (use Cons.prems cache_step_inv cache_step_sub in auto)
qed

end

section \<open>The direct-mapped cache\<close>

definition slot_contents :: "'v slot list \<Rightarrow> (u64 \<times> 'v) set" where
  "slot_contents xs = {(k, v). (k, Some v) \<in> set xs}"

definition direct_inv :: "nat \<Rightarrow> 'v DirectCache \<Rightarrow> bool" where
  "direct_inv N c \<longleftrightarrow> 0 < N \<and> length (direct_slots c) = N"

lemma nat_and_less:
  assumes "0 < N"
  shows "(x :: nat) AND (N - 1) < N"
proof -
  have "int (x AND (N - 1)) \<le> int (N - 1)"
    unfolding of_nat_and_eq by (rule AND_upper2) simp
  then show ?thesis using assms by simp
qed

lemma get_id_less: "direct_inv N c \<Longrightarrow> get_id shift N a < length (direct_slots c)"
  by (simp add: direct_inv_def get_id_def nat_and_less del: One_nat_def)

lemma slot_contents_update:
  "slot_contents (xs[i := (k, Some v)]) \<subseteq> insert (k, v) (slot_contents xs)"
  "slot_contents (xs[i := (k, None)]) \<subseteq> slot_contents xs"
  using set_update_subset_insert by (fastforce simp: slot_contents_def)+

lemma slot_contents_replicate [simp]: "slot_contents (replicate n (k, None)) = {}"
  by (auto simp: slot_contents_def)

definition direct_contents :: "'v DirectCache \<Rightarrow> (u64 \<times> 'v) set" where
  "direct_contents c = slot_contents (direct_slots c)"

lemma direct_get_sound:
  "direct_inv N c \<Longrightarrow> direct_get shift N c k = Some v \<Longrightarrow> (k, v) \<in> direct_contents c"
  using nth_mem [OF get_id_less [of N c shift k]]
  by (auto simp: direct_get_def direct_contents_def slot_contents_def split: prod.splits if_splits)

lemma direct_exact_cache:
  "exact_cache (direct_inv N) direct_contents (direct_get shift N) (direct_put shift N)
     (direct_invalidate shift N) (direct_clear :: 'v DirectCache \<Rightarrow> _)"
proof
  fix c :: "'v DirectCache" and k k' :: u64 and v :: 'v
  assume i: "direct_inv N c"
  note l = get_id_less [OF i, of shift]
  show "direct_get shift N c k = Some v \<Longrightarrow> (k, v) \<in> direct_contents c" using i by (rule direct_get_sound)
  show "direct_contents (direct_put shift N c k v) \<subseteq> insert (k, v) (direct_contents c)"
    by (simp add: direct_put_def direct_contents_def slot_contents_update)
  show "direct_contents (direct_invalidate shift N c k) \<subseteq> direct_contents c"
    by (simp add: direct_invalidate_def direct_contents_def slot_contents_update)
  show "direct_contents (direct_clear c) = {}" by (simp add: direct_clear_def direct_contents_def)
  show "direct_inv N (direct_put shift N c k v)" "direct_inv N (direct_invalidate shift N c k)"
    "direct_inv N (direct_clear c)"
    using i by (simp_all add: direct_inv_def direct_put_def direct_invalidate_def direct_clear_def)
  show "direct_get shift N (direct_put shift N c k v) k = Some v"
    "direct_get shift N (direct_invalidate shift N c k) k = None"
    using l by (simp_all add: direct_get_def direct_put_def direct_invalidate_def)
  show "k' \<noteq> k \<Longrightarrow> direct_get shift N (direct_put shift N c k v) k' \<in> {None, direct_get shift N c k'}"
    "k' \<noteq> k \<Longrightarrow> direct_get shift N (direct_invalidate shift N c k) k' \<in> {None, direct_get shift N c k'}"
    using l by (auto simp: direct_get_def direct_put_def direct_invalidate_def nth_list_update)
qed

text \<open>The instances of the emulator: 512 entries indexed by page, 8192 indexed by half-word.\<close>

interpretation tlb_laws: exact_cache "direct_inv 512" direct_contents "direct_get 12 512" "direct_put 12 512"
    "direct_invalidate 12 512" direct_clear
  by (rule direct_exact_cache)

interpretation icache_laws: exact_cache "direct_inv 8192" direct_contents "direct_get 1 8192" "direct_put 1 8192"
    "direct_invalidate 1 8192" direct_clear
  by (rule direct_exact_cache)

fun direct_step :: "nat \<Rightarrow> nat \<Rightarrow> 'v cache_op \<Rightarrow> 'v DirectCache \<Rightarrow> 'v DirectCache" where
  "direct_step shift N (Put k v) c = direct_put shift N c k v"
| "direct_step shift N (Invalidate k) c = direct_invalidate shift N c k"
| "direct_step shift N Clear c = direct_clear c"

lemma direct_new_get: "0 < N \<Longrightarrow> direct_get shift N (direct_new N) k = None"
  by (simp add: direct_get_def direct_new_def get_id_def nat_and_less del: One_nat_def)

lemma direct_new_inv [simp]: "0 < N \<Longrightarrow> direct_inv N (direct_new N)"
  by (simp add: direct_inv_def direct_new_def)

text \<open>
  C30.  The direct-mapped cache is a map that may forget: after any sequence of insertions,
  invalidations and clears of the translation cache, a lookup that hits returns the value that
  a map built by the same sequence holds at that address, so no stale or foreign entry is ever served.
\<close>

theorem direct_cache_lossy_map:
  assumes "direct_get 12 512 (fold (direct_step 12 512) ops (direct_new 512)) k = Some (v :: 'v)"
  shows "fold map_step ops Map.empty k = Some v"
proof -
  have "tlb_laws.cache_step op = direct_step 12 512 op" for op :: "'v cache_op"
    by (cases op) (auto simp: fun_eq_iff)
  then have "tlb_laws.cache_step = (direct_step 12 512 :: 'v cache_op \<Rightarrow> _)" by (rule ext)
  then show ?thesis
    using tlb_laws.lossy_map [of "direct_new 512" Map.empty ops k v] assms by (simp add: direct_new_get)
qed

theorem direct_cache_lossy_map_witness:
  "fold map_step [Put 0x1000 (7 :: nat), Put 0x201000 8, Put 0x1000 9] Map.empty 0x1000 = Some 9"
proof (rule direct_cache_lossy_map)
  have "get_id 12 512 0x1000 = 1" "get_id 12 512 0x201000 = 1"
    by (simp_all add: get_id_def index_of_def drop_bit_eq_div)
  then show "direct_get 12 512 (fold (direct_step 12 512) [Put 0x1000 (7 :: nat), Put 0x201000 8, Put 0x1000 9]
      (direct_new 512)) 0x1000 = Some 9"
    by (simp add: direct_put_def direct_get_def direct_new_def)
qed

section \<open>The set-associative cache and the null cache\<close>

definition set_inv :: "nat \<Rightarrow> nat \<Rightarrow> 'v SetCache \<Rightarrow> bool" where
  "set_inv S W c \<longleftrightarrow> 0 < S \<and> 0 < W \<and> length (sets c) = S
     \<and> (\<forall>s \<in> set (sets c). length (set_slots s) = W \<and> set_idx s < W)"

definition set_contents :: "'v SetCache \<Rightarrow> (u64 \<times> 'v) set" where
  "set_contents c = (\<Union>s \<in> set (sets c). slot_contents (set_slots s))"

lemma position_Some: "position P xs = Some i \<Longrightarrow> i < length xs \<and> P (xs ! i)"
  by (induction xs arbitrary: i) (auto split: if_splits)

lemma set_index_less: "set_inv S W c \<Longrightarrow> set_index_of shift S a < length (sets c)"
  by (simp add: set_inv_def set_index_of_def nat_and_less del: One_nat_def)

lemma set_contents_update:
  assumes "slot_contents (set_slots s) \<subseteq> A \<union> set_contents c" "A \<subseteq> B"
  shows "set_contents (c\<lparr>sets := (sets c)[i := s]\<rparr>) \<subseteq> B \<union> set_contents c"
proof -
  have "set ((sets c)[i := s]) \<subseteq> insert s (set (sets c))" by (rule set_update_subset_insert)
  then show ?thesis using assms by (fastforce simp: set_contents_def)
qed

lemma set_contents_member: "s \<in> set (sets c) \<Longrightarrow> slot_contents (set_slots s) \<subseteq> set_contents c"
  by (auto simp: set_contents_def)

lemma set_inv_update:
  assumes "set_inv S W c" "length (set_slots s) = W" "set_idx s < W"
  shows "set_inv S W (c\<lparr>sets := (sets c)[i := s]\<rparr>)"
  using assms set_update_subset_insert [of "sets c" i s] by (auto simp: set_inv_def)

lemma set_cache_policy:
  "cache_policy (set_inv S W) set_contents (set_get shift S) (set_put shift S W)
     (set_invalidate shift S) (set_clear S W :: 'v SetCache \<Rightarrow> _)"
proof
  fix c :: "'v SetCache" and k :: u64 and v :: 'v
  assume i: "set_inv S W c"
  let ?s = "sets c ! set_index_of shift S k"
  have m: "?s \<in> set (sets c)" using set_index_less [OF i] by (rule nth_mem)
  then have w: "length (set_slots ?s) = W" "set_idx ?s < W" using i by (auto simp: set_inv_def)
  note mc = set_contents_member [OF m]
  have ins: "length (set_slots (CacheSet_insert W ?s k v)) = W" "set_idx (CacheSet_insert W ?s k v) < W"
    using w by (auto simp: CacheSet_insert_def Let_def)
  have ivl: "length (set_slots (CacheSet_invalidate ?s k)) = W" "set_idx (CacheSet_invalidate ?s k) < W"
    using w by (auto simp: CacheSet_invalidate_def split: option.splits)
  show "(k, v) \<in> set_contents c" if g: "set_get shift S c k = Some v"
  proof -
    obtain j where j: "position (\<lambda>(a, _). a = k) (set_slots ?s) = Some j" "snd (set_slots ?s ! j) = Some v"
      using g by (auto simp: set_get_def Let_def bind_eq_Some_conv)
    then have "(k, Some v) \<in> set (set_slots ?s)"
      using position_Some [OF j(1)] by (metis (mono_tags, lifting) case_prodE nth_mem snd_conv)
    then show ?thesis using mc by (auto simp: slot_contents_def)
  qed
  show "set_contents (set_put shift S W c k v) \<subseteq> insert (k, v) (set_contents c)"
    using set_contents_update [of "CacheSet_insert W ?s k v" "{(k, v)}" c "{(k, v)}"]
      slot_contents_update(1) [of "set_slots ?s" "set_idx ?s" k v] mc
    by (fastforce simp: set_put_def Let_def CacheSet_insert_def)
  show "set_contents (set_invalidate shift S c k) \<subseteq> set_contents c"
    using set_contents_update [of "CacheSet_invalidate ?s k" "{}" c "{}"] slot_contents_update(2) [of "set_slots ?s"] mc
    by (fastforce simp: set_invalidate_def Let_def CacheSet_invalidate_def split: option.splits)
  show "set_contents (set_clear S W c) = {}"
    by (simp add: set_clear_def set_new_def set_contents_def CacheSet_new_def)
  show "set_inv S W (set_put shift S W c k v)" "set_inv S W (set_invalidate shift S c k)"
    using i ins ivl by (simp_all add: set_put_def set_invalidate_def Let_def set_inv_update)
  show "set_inv S W (set_clear S W c)"
    using i by (simp add: set_inv_def set_clear_def set_new_def CacheSet_new_def)
qed

interpretation set_laws: cache_policy "set_inv 4 2" set_contents "set_get 1 4" "set_put 1 4 2"
    "set_invalidate 1 4" "set_clear 4 2"
  by (rule set_cache_policy)

interpretation null_laws: cache_policy "\<lambda>_. True" "\<lambda>_. {}" null_get null_put null_invalidate null_clear
  by unfold_locales (simp_all add: null_get_def)

end
