(* ===== verification/PageTable.thy ===== *)
theory PageTable
  imports Ram Caches
begin

text \<open>
  Address translation, \<open>src/isa/riscv/mmu/config.rs\<close>, \<open>address.rs\<close> and \<open>page_table/riscv64.rs\<close>:
  page table entries, the Sv39/Sv48/Sv57 walk, the translation cache, the permission check and
  the policy for the accessed and dirty bits.  Page numbers are kept as page-aligned addresses,
  as the code does, and flag sets are the 8-bit words behind the \<open>bitflags\<close> type.

  The locale \<open>sv_mode\<close> is the contract of the trait \<open>SvMode\<close>; the inductive relation \<open>pt_path\<close>
  describes what the privileged architecture calls a successful walk, and the walk of the code is
  proved to find exactly these paths.
\<close>

section \<open>Configuration and addresses\<close>

definition PAGE_SIZE_XLEN :: nat where
  "PAGE_SIZE_XLEN = 12"

definition PAGE_SIZE :: u64 where
  "PAGE_SIZE = push_bit PAGE_SIZE_XLEN 1"

definition PHYSICAL_ADDR_WIDTH :: nat where
  "PHYSICAL_ADDR_WIDTH = 56"

definition SUB_VPN_XLEN :: nat where
  "SUB_VPN_XLEN = 9"

definition SUB_VPN_MASK :: u64 where
  "SUB_VPN_MASK = push_bit SUB_VPN_XLEN 1 - 1"

definition PTE_FLAG_XLEN :: nat where
  "PTE_FLAG_XLEN = 10"

definition PTE_FLAG_MASK :: u64 where
  "PTE_FLAG_MASK = push_bit PTE_FLAG_XLEN 1 - 1"

definition PTE_PPN_MASK :: u64 where
  "PTE_PPN_MASK = push_bit 10 (push_bit 44 1 - 1)"

datatype VirtualMemoryMode = Page32bit | Page39bit | Page48bit | Page57bit | NoPaging

datatype AdUpdatePolicy = AutoSet | FaultOnClear

datatype AccessEffect = NoEffect | Accessed | AccessedDirty

record SvMode =
  LEVELS :: nat
  VA_BITS :: nat
  PTE_SIZE :: nat

definition Sv39 :: SvMode where
  "Sv39 = \<lparr>LEVELS = 3, VA_BITS = 39, PTE_SIZE = 8\<rparr>"

definition Sv48 :: SvMode where
  "Sv48 = \<lparr>LEVELS = 4, VA_BITS = 48, PTE_SIZE = 8\<rparr>"

definition Sv57 :: SvMode where
  "Sv57 = \<lparr>LEVELS = 5, VA_BITS = 57, PTE_SIZE = 8\<rparr>"

definition vpn_index :: "u64 \<Rightarrow> nat \<Rightarrow> nat" where
  "vpn_index vpn level = unat (drop_bit (PAGE_SIZE_XLEN + level * SUB_VPN_XLEN) vpn AND SUB_VPN_MASK)"

definition sv_is_canonical_vaddr :: "SvMode \<Rightarrow> u64 \<Rightarrow> bool" where
  "sv_is_canonical_vaddr m vaddr \<longleftrightarrow> (if 64 \<le> VA_BITS m then True else is_sign_extended vaddr (VA_BITS m))"

definition vpn_of :: "u64 \<Rightarrow> u64" where
  "vpn_of vaddr = vaddr AND NOT (PAGE_SIZE - 1)"

definition from_ppn :: "u64 \<Rightarrow> u64" where
  "from_ppn ppn = push_bit PAGE_SIZE_XLEN ppn"

definition from_paddr :: "u64 \<Rightarrow> u64" where
  "from_paddr paddr = paddr AND NOT (PAGE_SIZE - 1)"

definition physical_addr_from :: "u64 \<Rightarrow> u64" where
  "physical_addr_from value = value AND (push_bit PHYSICAL_ADDR_WIDTH 1 - 1)"

section \<open>Page table entries\<close>

abbreviation PTE_V :: u8 where "PTE_V \<equiv> 0x01"
abbreviation PTE_R :: u8 where "PTE_R \<equiv> 0x02"
abbreviation PTE_W :: u8 where "PTE_W \<equiv> 0x04"
abbreviation PTE_X :: u8 where "PTE_X \<equiv> 0x08"
abbreviation PTE_U :: u8 where "PTE_U \<equiv> 0x10"
abbreviation PTE_G :: u8 where "PTE_G \<equiv> 0x20"
abbreviation PTE_A :: u8 where "PTE_A \<equiv> 0x40"
abbreviation PTE_D :: u8 where "PTE_D \<equiv> 0x80"

type_synonym PTEFlags = u8
type_synonym PageTableEntry = u64

definition flags_contains :: "PTEFlags \<Rightarrow> PTEFlags \<Rightarrow> bool" where
  "flags_contains fl f \<longleftrightarrow> fl AND f = f"

definition pte_ppn :: "PageTableEntry \<Rightarrow> u64" where
  "pte_ppn bits = from_ppn (drop_bit PTE_FLAG_XLEN (bits AND PTE_PPN_MASK))"

definition pte_set_ppn :: "PageTableEntry \<Rightarrow> u64 \<Rightarrow> PageTableEntry" where
  "pte_set_ppn bits ppn = (bits AND PTE_FLAG_MASK) OR drop_bit 2 ppn"

definition pte_flags :: "PageTableEntry \<Rightarrow> PTEFlags" where
  "pte_flags bits = ucast (bits AND PTE_FLAG_MASK)"

definition has_any_flag :: "PageTableEntry \<Rightarrow> PTEFlags \<Rightarrow> bool" where
  "has_any_flag bits fl \<longleftrightarrow> pte_flags bits AND fl \<noteq> 0"

definition pte_is_leaf :: "PageTableEntry \<Rightarrow> bool" where
  "pte_is_leaf bits \<longleftrightarrow> has_any_flag bits (PTE_R OR PTE_W OR PTE_X)"

definition is_invalid_encoding :: "PageTableEntry \<Rightarrow> bool" where
  "is_invalid_encoding bits \<longleftrightarrow> pte_flags bits AND (PTE_R OR PTE_W) = PTE_W"

definition pte_is_valid :: "PageTableEntry \<Rightarrow> bool" where
  "pte_is_valid bits \<longleftrightarrow> pte_flags bits AND PTE_V \<noteq> 0"

definition pte_set_flag :: "PageTableEntry \<Rightarrow> PTEFlags \<Rightarrow> PageTableEntry" where
  "pte_set_flag bits flag = bits OR ucast flag"

definition set_accessed :: "PageTableEntry \<Rightarrow> PageTableEntry" where
  "set_accessed bits = bits OR ucast PTE_A"

definition set_dirty :: "PageTableEntry \<Rightarrow> PageTableEntry" where
  "set_dirty bits = bits OR ucast PTE_D"

section \<open>The walker\<close>

datatype PageTableError = AlignFault | PageFault | PrivilegeFault

record PermissionCheck =
  any_of :: PTEFlags
  exact_mask :: PTEFlags
  exact_flags :: PTEFlags

record WalkInfo =
  leaf_level :: nat
  leaf_flags :: PTEFlags
  leaf_pte_addr :: u64
  leaf_ppn :: u64

record PageTableWalker =
  tlb :: "WalkInfo DirectCache Cache"
  root_address :: u64
  mode :: VirtualMemoryMode
  ad_update_policy :: AdUpdatePolicy

definition TLB_SIZE :: nat where
  "TLB_SIZE = 512"

definition PageTableWalker_new :: "u64 \<Rightarrow> VirtualMemoryMode \<Rightarrow> PageTableWalker" where
  "PageTableWalker_new root m =
     \<lparr>tlb = Cache_new (direct_new TLB_SIZE), root_address = root, mode = m, ad_update_policy = FaultOnClear\<rparr>"

definition pt_flush_tlb :: "PageTableWalker \<Rightarrow> PageTableWalker" where
  "pt_flush_tlb pt = pt\<lparr>tlb := Cache_clear direct_clear (tlb pt)\<rparr>"

definition pt_set_ad_update_policy :: "AdUpdatePolicy \<Rightarrow> PageTableWalker \<Rightarrow> PageTableWalker" where
  "pt_set_ad_update_policy p pt = pt\<lparr>ad_update_policy := p\<rparr>"

definition pt_set_mode :: "u8 \<Rightarrow> PageTableWalker \<Rightarrow> PageTableWalker option" where
  "pt_set_mode m pt =
     map_option (\<lambda>x. pt\<lparr>mode := x\<rparr>)
       (if m = 0 then Some NoPaging
        else if m = 1 then Some Page32bit
        else if m = 8 then Some Page39bit
        else if m = 9 then Some Page48bit
        else if m = 10 then Some Page57bit
        else None)"

definition pt_set_root_addr :: "u64 \<Rightarrow> PageTableWalker \<Rightarrow> PageTableWalker" where
  "pt_set_root_addr r pt = pt\<lparr>root_address := r\<rparr>"

definition pte_at :: "Ram \<Rightarrow> u64 \<Rightarrow> PageTableEntry option" where
  "pte_at mem pte_addr =
     (let offset = unat (pte_addr - BASE_ADDR) in
      if offset < SIZE then Some (of_bytes (bytes_at mem offset 8)) else None)"

definition pte_store :: "Ram \<Rightarrow> u64 \<Rightarrow> PageTableEntry \<Rightarrow> Ram" where
  "pte_store mem pte_addr bits =
     mem\<lparr>data := splice_bytes (unat (pte_addr - BASE_ADDR)) (to_bytes bits) (data mem)\<rparr>"

definition is_canonical_vaddr :: "PageTableWalker \<Rightarrow> u64 \<Rightarrow> bool" where
  "is_canonical_vaddr pt vaddr \<longleftrightarrow>
     (case mode pt of
        Page39bit \<Rightarrow> sv_is_canonical_vaddr Sv39 vaddr
      | Page48bit \<Rightarrow> sv_is_canonical_vaddr Sv48 vaddr
      | Page57bit \<Rightarrow> sv_is_canonical_vaddr Sv57 vaddr
      | _ \<Rightarrow> True)"

text \<open>
  The loop of \<open>walk_pte_with_mode\<close>: the third argument is the number of levels still to visit,
  so \<open>Suc i\<close> runs the body with the loop variable \<open>i\<close>, and running out of levels is the
  \<open>unreachable!\<close> after the loop.
\<close>

fun walk_levels ::
  "SvMode \<Rightarrow> Ram \<Rightarrow> u64 \<Rightarrow> nat \<Rightarrow> u64 \<Rightarrow> (WalkInfo, PageTableError) result option" where
  "walk_levels m mem vpn 0 entry = None"
| "walk_levels m mem vpn (Suc i) entry =
     (let sub_vpn = vpn_index vpn i;
          pte_addr = entry + of_nat sub_vpn * of_nat (PTE_SIZE m) in
      case (ram_read mem (pte_addr - BASE_ADDR) :: (u64, MemError) result) of
        Err _ \<Rightarrow> Some (Err PageFault)
      | Ok pte \<Rightarrow>
          if \<not> pte_is_valid pte then Some (Err PageFault)
          else if is_invalid_encoding pte then Some (Err PageFault)
          else if pte_is_leaf pte then
            (let msk = push_bit PTE_FLAG_XLEN (push_bit (i * SUB_VPN_XLEN) 1 - 1) in
             if pte AND msk \<noteq> 0 then Some (Err AlignFault)
             else Some (Ok \<lparr>leaf_level = i, leaf_flags = pte_flags pte, leaf_pte_addr = pte_addr,
                            leaf_ppn = pte_ppn pte\<rparr>))
          else if i = 0 then Some (Err PageFault)
          else walk_levels m mem vpn i (pte_ppn pte))"

definition walk_pte_with_mode ::
  "SvMode \<Rightarrow> PageTableWalker \<Rightarrow> Ram \<Rightarrow> u64 \<Rightarrow> (WalkInfo, PageTableError) result option" where
  "walk_pte_with_mode m pt mem vpn = walk_levels m mem vpn (LEVELS m) (from_paddr (root_address pt))"

definition walk_pte :: "PageTableWalker \<Rightarrow> Ram \<Rightarrow> u64 \<Rightarrow> (WalkInfo, PageTableError) result option" where
  "walk_pte pt mem vpn =
     (case mode pt of
        Page39bit \<Rightarrow> walk_pte_with_mode Sv39 pt mem vpn
      | Page48bit \<Rightarrow> walk_pte_with_mode Sv48 pt mem vpn
      | Page57bit \<Rightarrow> walk_pte_with_mode Sv57 pt mem vpn
      | _ \<Rightarrow> None)"

definition apply_ad_policy ::
  "PageTableWalker \<Rightarrow> WalkInfo \<Rightarrow> AccessEffect \<Rightarrow> Ram \<Rightarrow> ((unit, PageTableError) result \<times> Ram) option" where
  "apply_ad_policy pt info effect mem =
     (let (need_accessed, need_dirty) =
            (case effect of
               NoEffect \<Rightarrow> (False, False)
             | Accessed \<Rightarrow> (\<not> flags_contains (leaf_flags info) PTE_A, False)
             | AccessedDirty \<Rightarrow>
                 (\<not> flags_contains (leaf_flags info) PTE_A, \<not> flags_contains (leaf_flags info) PTE_D)) in
      if \<not> need_accessed \<and> \<not> need_dirty then Some (Ok (), mem)
      else (case ad_update_policy pt of
              AutoSet \<Rightarrow>
                Option.bind (pte_at mem (leaf_pte_addr info)) (\<lambda>pte.
                  let pte1 = (if need_accessed then set_accessed pte else pte);
                      pte2 = (if need_dirty then set_dirty pte1 else pte1) in
                  Some (Ok (), pte_store mem (leaf_pte_addr info) pte2))
            | FaultOnClear \<Rightarrow> Some (Err PageFault, mem)))"

definition check_permission :: "WalkInfo \<Rightarrow> PermissionCheck \<Rightarrow> bool" where
  "check_permission info check \<longleftrightarrow>
     \<not> (leaf_flags info AND exact_mask check \<noteq> exact_flags check
        \<or> (any_of check \<noteq> 0 \<and> leaf_flags info AND any_of check = 0))"

definition leaf_paddr :: "WalkInfo \<Rightarrow> u64 \<Rightarrow> u64" where
  "leaf_paddr info vaddr =
     (let page_shift = PAGE_SIZE_XLEN + leaf_level info * SUB_VPN_XLEN;
          page_offset_mask = push_bit page_shift 1 - 1 in
      physical_addr_from (leaf_ppn info OR (vaddr AND page_offset_mask)))"

definition tlb_lookup ::
  "PageTableWalker \<Rightarrow> Ram \<Rightarrow> u64 \<Rightarrow> ((WalkInfo, PageTableError) result \<times> PageTableWalker) option" where
  "tlb_lookup pt mem vaddr =
     (case Cache_get (direct_get PAGE_SIZE_XLEN TLB_SIZE) (tlb pt) (vpn_of vaddr) of
        (Some info, t) \<Rightarrow> Some (Ok info, pt\<lparr>tlb := t\<rparr>)
      | (None, t) \<Rightarrow>
          (case walk_pte pt mem (vpn_of vaddr) of
             None \<Rightarrow> None
           | Some (Err e) \<Rightarrow> Some (Err e, pt\<lparr>tlb := t\<rparr>)
           | Some (Ok info) \<Rightarrow>
               Some (Ok info, pt\<lparr>tlb := Cache_put (direct_put PAGE_SIZE_XLEN TLB_SIZE) t (vpn_of vaddr) info\<rparr>)))"

definition pt_translate_vaddr ::
  "PageTableWalker \<Rightarrow> Ram \<Rightarrow> u64 \<Rightarrow> PermissionCheck \<Rightarrow> AccessEffect
     \<Rightarrow> ((u64, PageTableError) result \<times> PageTableWalker \<times> Ram) option" where
  "pt_translate_vaddr pt mem vaddr check effect =
     (if mode pt = NoPaging then Some (Ok (physical_addr_from vaddr), pt, mem)
      else if \<not> is_canonical_vaddr pt vaddr then Some (Err PageFault, pt, mem)
      else
        (case tlb_lookup pt mem vaddr of
           None \<Rightarrow> None
         | Some (Err e, pt') \<Rightarrow> Some (Err e, pt', mem)
         | Some (Ok info, pt') \<Rightarrow>
             if \<not> check_permission info check then Some (Err PrivilegeFault, pt', mem)
             else
               (case apply_ad_policy pt' info effect mem of
                  None \<Rightarrow> None
                | Some (Err e, mem') \<Rightarrow> Some (Err e, pt', mem')
                | Some (Ok _, mem') \<Rightarrow> Some (Ok (leaf_paddr info vaddr), pt', mem'))))"

section \<open>The contract of a translation mode\<close>

lemmas mmu_consts = PAGE_SIZE_XLEN_def PAGE_SIZE_def PHYSICAL_ADDR_WIDTH_def SUB_VPN_XLEN_def
  SUB_VPN_MASK_def PTE_FLAG_XLEN_def PTE_FLAG_MASK_def PTE_PPN_MASK_def TLB_SIZE_def

lemma push_minus_mask: "push_bit n 1 - 1 = (mask n :: u64)"
  by (simp add: mask_eq_exp_minus_1 push_bit_of_1)

lemma vpn_index_eq: "vpn_index va i = unat (take_bit 9 (drop_bit (12 + i * 9) va))"
  unfolding vpn_index_def mmu_consts push_minus_mask take_bit_eq_mask ..

lemma vpn_of_eq: "vpn_of va = va AND NOT (mask 12)"
  unfolding vpn_of_def mmu_consts push_minus_mask ..

lemma from_paddr_eq: "from_paddr a = a AND NOT (mask 12)"
  unfolding from_paddr_def mmu_consts push_minus_mask ..

lemma physical_addr_from_eq: "physical_addr_from a = take_bit 56 a"
  unfolding physical_addr_from_def mmu_consts push_minus_mask take_bit_eq_mask ..

lemma pte_flags_eq: "pte_flags pte = ucast pte"
proof -
  have "pte_flags pte = ucast (pte AND mask 10)"
    unfolding pte_flags_def mmu_consts push_minus_mask ..
  then show ?thesis by (intro bit_word_eqI) (auto simp: bit_simps)
qed

lemma pte_ppn_eq: "pte_ppn pte = push_bit 12 (take_bit 44 (drop_bit 10 pte))"
proof -
  have "pte_ppn pte = push_bit 12 (drop_bit 10 (pte AND push_bit 10 (mask 44)))"
    unfolding pte_ppn_def from_ppn_def mmu_consts push_minus_mask ..
  also have "drop_bit 10 (pte AND push_bit 10 (mask 44)) = take_bit 44 (drop_bit 10 pte)"
    by (rule bit_word_eqI) (auto simp: bit_simps)
  finally show ?thesis .
qed

lemma leaf_paddr_eq:
  "leaf_paddr info va = take_bit 56 (leaf_ppn info OR take_bit (12 + leaf_level info * 9) va)"
  unfolding leaf_paddr_def Let_def physical_addr_from_eq mmu_consts push_minus_mask take_bit_eq_mask ..

locale sv_mode =
  fixes m :: SvMode
  assumes levels_pos: "0 < LEVELS m"
    and pte_size: "PTE_SIZE m = 8"
    and va_bits: "VA_BITS m = 12 + 9 * LEVELS m"
    and va_le: "VA_BITS m < 64"
begin

lemma canonical_iff:
  "sv_is_canonical_vaddr m va \<longleftrightarrow> (\<forall>k. VA_BITS m \<le> k \<longrightarrow> k < 64 \<longrightarrow> bit va k = bit va (VA_BITS m - 1))"
proof -
  have b: "0 < VA_BITS m" "VA_BITS m \<le> 64" using levels_pos va_bits va_le by auto
  have "sv_is_canonical_vaddr m va \<longleftrightarrow> va = sign_extend va (VA_BITS m)"
    using va_le by (simp add: sv_is_canonical_vaddr_def is_sign_extended_def)
  also have "\<dots> \<longleftrightarrow> (\<forall>k < 64. bit va k = bit (sign_extend va (VA_BITS m)) k)"
    by (auto intro: bit_word_eqI)
  also have "\<dots> \<longleftrightarrow> (\<forall>k. VA_BITS m \<le> k \<longrightarrow> k < 64 \<longrightarrow> bit va k = bit va (VA_BITS m - 1))"
    by (auto simp: bit_sign_extend b)
  finally show ?thesis .
qed

text \<open>The indices of the levels cover the page number: two canonical addresses with equal
  indices at every level lie in the same page.\<close>

lemma bit_vpn_index: "k < 9 \<Longrightarrow> bit (vpn_index va i) k \<longleftrightarrow> bit va (12 + 9 * i + k)"
  by (auto simp: vpn_index_eq bit_unsigned_iff bit_simps ac_simps dest: bit_imp_le_length)

lemma vpn_index_determine:
  assumes "sv_is_canonical_vaddr m a" "sv_is_canonical_vaddr m b"
    and "\<And>i. i < LEVELS m \<Longrightarrow> vpn_index a i = vpn_index b i"
  shows "vpn_of a = vpn_of b"
proof (rule bit_word_eqI)
  fix k
  assume k: "k < LENGTH(64)"
  have low: "bit a j = bit b j" if "12 \<le> j" "j < VA_BITS m" for j
  proof -
    have "(j - 12) div 9 < LEVELS m" using that va_bits by (simp add: less_mult_imp_div_less)
    then have "vpn_index a ((j - 12) div 9) = vpn_index b ((j - 12) div 9)" by (rule assms(3))
    moreover have "12 + 9 * ((j - 12) div 9) + (j - 12) mod 9 = j" using that by simp
    ultimately show ?thesis
      using bit_vpn_index [of "(j - 12) mod 9" a "(j - 12) div 9"]
        bit_vpn_index [of "(j - 12) mod 9" b "(j - 12) div 9"] by simp
  qed
  have "bit a k = bit b k" if "12 \<le> k"
  proof (cases "k < VA_BITS m")
    case True
    then show ?thesis using low that by blast
  next
    case False
    moreover have "12 \<le> VA_BITS m - 1" using levels_pos va_bits by simp
    ultimately show ?thesis
      using assms(1,2) k low [of "VA_BITS m - 1"] levels_pos va_bits by (auto simp: canonical_iff)
  qed
  then show "bit (vpn_of a) k = bit (vpn_of b) k"
    by (auto simp: vpn_of_eq bit_simps)
qed

end

interpretation sv39: sv_mode Sv39
  by unfold_locales (simp_all add: Sv39_def)

interpretation sv48: sv_mode Sv48
  by unfold_locales (simp_all add: Sv48_def)

interpretation sv57: sv_mode Sv57
  by unfold_locales (simp_all add: Sv57_def)

definition mode_sv :: "VirtualMemoryMode \<Rightarrow> SvMode option" where
  "mode_sv vm = (case vm of Page39bit \<Rightarrow> Some Sv39 | Page48bit \<Rightarrow> Some Sv48 | Page57bit \<Rightarrow> Some Sv57 | _ \<Rightarrow> None)"

lemma mode_sv_mode:
  assumes "mode_sv vm = Some m"
  shows "sv_mode m"
  using assms sv39.sv_mode_axioms sv48.sv_mode_axioms sv57.sv_mode_axioms
  by (auto simp: mode_sv_def split: VirtualMemoryMode.splits)

section \<open>The walk finds exactly the paths of the table\<close>

definition pte_slot :: "SvMode \<Rightarrow> u64 \<Rightarrow> nat \<Rightarrow> u64 \<Rightarrow> u64" where
  "pte_slot m vpn i base = base + of_nat (vpn_index vpn i) * of_nat (PTE_SIZE m)"

inductive pt_path :: "SvMode \<Rightarrow> Ram \<Rightarrow> u64 \<Rightarrow> nat \<Rightarrow> u64 \<Rightarrow> nat \<Rightarrow> u64 \<Rightarrow> PageTableEntry \<Rightarrow> bool"
  for m mem vpn where
  leaf: "\<lbrakk>a = pte_slot m vpn i base; ram_read mem (a - BASE_ADDR) = Ok pte; pte_is_valid pte;
      \<not> is_invalid_encoding pte; pte_is_leaf pte\<rbrakk> \<Longrightarrow> pt_path m mem vpn i base i a pte"
| node: "\<lbrakk>ram_read mem (pte_slot m vpn (Suc i) base - BASE_ADDR) = Ok pte; pte_is_valid pte;
      \<not> is_invalid_encoding pte; \<not> pte_is_leaf pte; pt_path m mem vpn i (pte_ppn pte) l a q\<rbrakk>
     \<Longrightarrow> pt_path m mem vpn (Suc i) base l a q"

inductive_cases pt_path_zero: "pt_path m mem vpn 0 base l a q"
inductive_cases pt_path_Suc: "pt_path m mem vpn (Suc i) base l a q"

definition superpage_aligned :: "nat \<Rightarrow> PageTableEntry \<Rightarrow> bool" where
  "superpage_aligned l pte \<longleftrightarrow> take_bit (9 * l) (drop_bit 10 pte) = 0"

definition leaf_info :: "nat \<Rightarrow> u64 \<Rightarrow> PageTableEntry \<Rightarrow> WalkInfo" where
  "leaf_info l a pte = \<lparr>leaf_level = l, leaf_flags = pte_flags pte, leaf_pte_addr = a, leaf_ppn = pte_ppn pte\<rparr>"

lemma align_mask_iff:
  "pte AND push_bit PTE_FLAG_XLEN (push_bit (i * SUB_VPN_XLEN) 1 - 1) = 0 \<longleftrightarrow> superpage_aligned i pte"
proof -
  have "pte AND push_bit PTE_FLAG_XLEN (push_bit (i * SUB_VPN_XLEN) 1 - 1) = pte AND push_bit 10 (mask (i * 9))"
    unfolding mmu_consts push_minus_mask ..
  also have "\<dots> = push_bit 10 (take_bit (9 * i) (drop_bit 10 pte))"
    by (rule bit_word_eqI) (auto simp: bit_simps ac_simps)
  also have "\<dots> = 0 \<longleftrightarrow> take_bit (9 * i) (drop_bit 10 pte) = 0"
  proof
    assume "push_bit 10 (take_bit (9 * i) (drop_bit 10 pte)) = 0"
    then have "drop_bit 10 (push_bit 10 (take_bit (9 * i) (drop_bit 10 pte))) = 0" by simp
    also have "drop_bit 10 (push_bit 10 (take_bit (9 * i) (drop_bit 10 pte))) = take_bit (9 * i) (drop_bit 10 pte)"
      by (rule bit_word_eqI) (auto simp: bit_simps dest: bit_imp_le_length)
    finally show "take_bit (9 * i) (drop_bit 10 pte) = 0" .
  qed simp
  finally show ?thesis by (simp add: superpage_aligned_def)
qed

lemma walk_levels_path:
  assumes "pt_path m mem vpn i base l a q"
  shows "walk_levels m mem vpn (Suc i) base =
    (if superpage_aligned l q then Some (Ok (leaf_info l a q)) else Some (Err AlignFault))"
  using assms
proof (induction i base l a q rule: pt_path.induct)
  case (leaf a i base pte)
  then show ?case
    by (simp add: pte_slot_def align_mask_iff [unfolded push_bit_of_1] leaf_info_def Let_def)
next
  case (node i base pte l a q)
  then show ?case by (simp add: pte_slot_def)
qed

lemma walk_levels_no_path:
  assumes "\<nexists>l a q. pt_path m mem vpn i base l a q"
  shows "walk_levels m mem vpn (Suc i) base = Some (Err PageFault)"
  using assms
proof (induction i arbitrary: base)
  case 0
  have "\<not> (ram_read mem (pte_slot m vpn 0 base - BASE_ADDR) = Ok pte \<and> pte_is_valid pte \<and>
      \<not> is_invalid_encoding pte \<and> pte_is_leaf pte)" for pte
    using 0 leaf [OF refl] by blast
  then show ?case by (auto simp: pte_slot_def Let_def split: result.splits)
next
  case (Suc i)
  have nl: "\<not> (ram_read mem (pte_slot m vpn (Suc i) base - BASE_ADDR) = Ok pte \<and> pte_is_valid pte \<and>
      \<not> is_invalid_encoding pte \<and> pte_is_leaf pte)" for pte
    using Suc.prems leaf [OF refl] by blast
  have nn: "\<nexists>l a q. pt_path m mem vpn i (pte_ppn pte) l a q"
    if "ram_read mem (pte_slot m vpn (Suc i) base - BASE_ADDR) = Ok pte" "pte_is_valid pte"
      "\<not> is_invalid_encoding pte" "\<not> pte_is_leaf pte" for pte
    using Suc.prems node [OF that] by blast
  show ?case
    using nl Suc.IH [OF nn] unfolding walk_levels.simps(2) [of m mem vpn "Suc i"]
    by (auto simp: pte_slot_def Let_def simp del: walk_levels.simps split: result.splits)
qed

lemma walk_levels_Ok_iff:
  "walk_levels m mem vpn (Suc i) base = Some (Ok info) \<longleftrightarrow>
     (\<exists>l a q. pt_path m mem vpn i base l a q \<and> superpage_aligned l q \<and> info = leaf_info l a q)"
  using walk_levels_path [of m mem vpn i base] walk_levels_no_path [of m mem vpn i base]
  by (metis option.inject result.distinct(1) result.inject(1))

lemma walk_levels_total: "walk_levels m mem vpn (Suc i) base \<noteq> None"
  using walk_levels_path [of m mem vpn i base] walk_levels_no_path [of m mem vpn i base]
  by (metis option.distinct(1))

definition table_root :: "PageTableWalker \<Rightarrow> u64" where
  "table_root pt = from_paddr (root_address pt)"

lemma walk_pte_mode:
  assumes "mode_sv (mode pt) = Some m"
  shows "walk_pte pt mem vpn = walk_levels m mem vpn (Suc (LEVELS m - 1)) (table_root pt)"
proof -
  have "0 < LEVELS m" using mode_sv_mode [OF assms] by (rule sv_mode.levels_pos)
  then show ?thesis using assms
    by (auto simp: walk_pte_def mode_sv_def walk_pte_with_mode_def table_root_def
        simp del: walk_levels.simps split: VirtualMemoryMode.splits)
qed

text \<open>A memory with one gigabyte page at the root of an Sv39 table, used by the examples below.\<close>

definition example_ram :: Ram where
  "example_ram = Ram_new 0\<lparr>data := (\<lambda>_. 0)(0 := 0xCF, 3 := 0x20)\<rparr>"

definition example_walker :: PageTableWalker where
  "example_walker = PageTableWalker_new 0x80000000 Page39bit"

lemma example_read: "ram_read example_ram 0 = Ok (0x200000CF :: u64)"
proof -
  have "map (\<lambda>i. data example_ram (unat (0 :: u64) + i)) [0..<8] = [0xCF, 0, 0, 0x20, 0, 0, 0, 0]"
    by (simp add: example_ram_def upt_conv_Cons)
  then show ?thesis
    by (simp add: ram_read_def contains_access_def SIZE_def read_raw_ptr_def example_ram_def Ram_new_def
        ALIGN_ILST_def of_bytes_def)
qed

lemma example_walk:
  "walk_pte example_walker example_ram 0x3000 = Some (Ok (leaf_info 2 0x80000000 0x200000CF))"
proof -
  have i: "vpn_index 0x3000 2 = 0"
    by (simp add: vpn_index_eq take_bit_eq_mask mask_eq_exp_minus_1)
  have f: "pte_is_valid 0x200000CF" "\<not> is_invalid_encoding 0x200000CF" "pte_is_leaf 0x200000CF"
    by (simp_all add: pte_is_valid_def is_invalid_encoding_def pte_is_leaf_def has_any_flag_def pte_flags_eq)
  have a: "superpage_aligned 2 0x200000CF"
    by (simp add: superpage_aligned_def take_bit_eq_mask mask_eq_exp_minus_1)
  have "pt_path Sv39 example_ram 0x3000 2 0x80000000 2 0x80000000 0x200000CF"
    by (rule pt_path.leaf) (simp_all add: pte_slot_def i Sv39_def BASE_ADDR_def example_read f)
  note w = walk_levels_path [OF this, unfolded if_P [OF a]]
  have "mode_sv (mode example_walker) = Some Sv39" "table_root example_walker = 0x80000000" "LEVELS Sv39 - 1 = 2"
    by (simp_all add: mode_sv_def example_walker_def PageTableWalker_new_def table_root_def from_paddr_eq Sv39_def mask_eq_exp_minus_1)
  then show ?thesis using w by (simp only: walk_pte_mode)
qed

lemma example_mode: "mode_sv (mode example_walker) = Some Sv39"
  by (simp add: mode_sv_def example_walker_def PageTableWalker_new_def)

text \<open>
  C5.  The walk of the code finds exactly the leaf entries that the tables describe: it returns
  a leaf if and only if some path of valid pointer entries leads from the root to a leaf entry
  whose page number is aligned to its level, it reports an alignment fault if the leaf is
  misaligned, and a page fault if there is no path; it never runs past the last level.
\<close>

theorem walk_pte_spec:
  assumes "mode_sv (mode pt) = Some m"
  shows "(\<forall>info. walk_pte pt mem vpn = Some (Ok info) \<longleftrightarrow>
      (\<exists>l a q. pt_path m mem vpn (LEVELS m - 1) (table_root pt) l a q \<and> superpage_aligned l q
        \<and> info = leaf_info l a q))
    \<and> (walk_pte pt mem vpn = Some (Err PageFault) \<longleftrightarrow>
        (\<nexists>l a q. pt_path m mem vpn (LEVELS m - 1) (table_root pt) l a q))
    \<and> walk_pte pt mem vpn \<in> range (Some \<circ> Ok) \<union> {Some (Err PageFault), Some (Err AlignFault)}"
proof -
  let ?path = "\<lambda>l a q. pt_path m mem vpn (LEVELS m - 1) (table_root pt) l a q"
  show ?thesis
  proof (cases "\<exists>l a q. ?path l a q")
    case True
    then obtain l a q where p: "?path l a q" by blast
    show ?thesis
      using walk_levels_path [OF p] True walk_levels_Ok_iff [of m mem vpn "LEVELS m - 1" "table_root pt"]
      by (auto simp: walk_pte_mode [OF assms] simp del: walk_levels.simps split: if_splits)
  next
    case False
    then show ?thesis
      using walk_levels_no_path [OF False]
      by (simp add: walk_pte_mode [OF assms] del: walk_levels.simps)
  qed
qed

theorem walk_pte_spec_witness:
  "\<exists>l a q. pt_path Sv39 example_ram 0x3000 (LEVELS Sv39 - 1) (table_root example_walker) l a q \<and> superpage_aligned l q"
  using walk_pte_spec [OF example_mode, of example_ram "0x3000"] example_walk by blast

section \<open>The physical address\<close>

lemma bit_leaf_paddr:
  assumes "superpage_aligned l pte" "l \<le> 4"
  shows "bit (leaf_paddr (leaf_info l a pte) va) k \<longleftrightarrow>
    (if k < 12 + 9 * l then bit va k else k < 56 \<and> bit pte (k - 2))"
proof -
  have z: "\<not> bit pte (10 + j)" if "j < 9 * l" for j
  proof -
    have "bit (take_bit (9 * l) (drop_bit 10 pte)) j = False" using assms(1) by (simp add: superpage_aligned_def)
    then show ?thesis using that by (simp add: bit_simps)
  qed
  have zz: "\<not> bit pte (k - 2)" if "12 \<le> k" "k < 12 + 9 * l"
    using z [of "k - 12"] that by simp
  show ?thesis
    using assms(2) zz
    by (auto simp: leaf_paddr_eq leaf_info_def pte_ppn_eq bit_simps dest: bit_imp_le_length)
qed

section \<open>The translation cache\<close>

definition tlb_coherent :: "PageTableWalker \<Rightarrow> Ram \<Rightarrow> bool" where
  "tlb_coherent pt mem \<longleftrightarrow>
     tlb_laws.coherent (\<lambda>vpn info. walk_pte pt mem vpn = Some (Ok info)) (policy (tlb pt))"

lemma walk_pte_cong:
  "mode pt = mode pt' \<Longrightarrow> root_address pt = root_address pt' \<Longrightarrow> walk_pte pt = walk_pte pt'"
  by (auto simp: fun_eq_iff walk_pte_def walk_pte_with_mode_def split: VirtualMemoryMode.splits)

lemma tlb_lookup_coherent:
  assumes c: "tlb_coherent pt mem" and w: "walk_pte pt mem (vpn_of va) = Some r"
  shows "\<exists>t. tlb_lookup pt mem va = Some (r, pt\<lparr>tlb := t\<rparr>) \<and> tlb_coherent (pt\<lparr>tlb := t\<rparr>) mem"
proof -
  have wc: "walk_pte (pt\<lparr>tlb := t\<rparr>) = walk_pte pt" for t by (rule walk_pte_cong) simp_all
  let ?t = "snd (Cache_get (direct_get 12 512) (tlb pt) (vpn_of va))"
  have tp: "policy ?t = policy (tlb pt)" by (simp add: Cache_get_def Let_def)
  have coh: "tlb_coherent (pt\<lparr>tlb := ?t\<rparr>) mem" using c by (simp add: tlb_coherent_def wc tp)
  show ?thesis
  proof (cases "direct_get 12 512 (policy (tlb pt)) (vpn_of va)")
    case (Some info)
    then have "r = Ok info"
      using tlb_laws.coherent_get [OF c [unfolded tlb_coherent_def] Some] w by simp
    then have "tlb_lookup pt mem va = Some (r, pt\<lparr>tlb := ?t\<rparr>)"
      using Some by (simp add: tlb_lookup_def Cache_get_def Let_def PAGE_SIZE_XLEN_def TLB_SIZE_def)
    then show ?thesis using coh by blast
  next
    case None
    show ?thesis
    proof (cases r)
      case (Err e)
      then have "tlb_lookup pt mem va = Some (r, pt\<lparr>tlb := ?t\<rparr>)"
        using None w by (simp add: tlb_lookup_def Cache_get_def Let_def PAGE_SIZE_XLEN_def TLB_SIZE_def)
      then show ?thesis using coh by blast
    next
      case (Ok info)
      let ?u = "Cache_put (direct_put 12 512) ?t (vpn_of va) info"
      have "tlb_coherent (pt\<lparr>tlb := ?u\<rparr>) mem"
        using tlb_laws.coherent_put [OF c [unfolded tlb_coherent_def], of "vpn_of va" info] w Ok
        by (simp add: tlb_coherent_def wc Cache_put_def tp)
      moreover have "tlb_lookup pt mem va = Some (r, pt\<lparr>tlb := ?u\<rparr>)"
        using None w Ok by (simp add: tlb_lookup_def Cache_get_def Let_def PAGE_SIZE_XLEN_def TLB_SIZE_def)
      ultimately show ?thesis by blast
    qed
  qed
qed

lemma pt_flush_tlb_coherent:
  assumes "direct_inv 512 (policy (tlb pt))"
  shows "tlb_coherent (pt_flush_tlb pt) mem"
  using tlb_laws.coherent_clear [OF assms] by (simp add: tlb_coherent_def pt_flush_tlb_def Cache_clear_def)

lemma tlb_new_coherent: "tlb_coherent (PageTableWalker_new r vm) mem"
proof -
  have "direct_contents (direct_new 512 :: WalkInfo DirectCache) = {}"
    by (simp add: direct_contents_def direct_new_def)
  then show ?thesis
    by (simp add: tlb_coherent_def tlb_laws.coherent_def PageTableWalker_new_def Cache_new_def TLB_SIZE_def)
qed

section \<open>Translation\<close>

definition permitted :: "PTEFlags \<Rightarrow> PermissionCheck \<Rightarrow> bool" where
  "permitted fl check \<longleftrightarrow> fl AND exact_mask check = exact_flags check
     \<and> (any_of check = 0 \<or> fl AND any_of check \<noteq> 0)"

fun ad_sufficient :: "PTEFlags \<Rightarrow> AccessEffect \<Rightarrow> bool" where
  "ad_sufficient fl NoEffect \<longleftrightarrow> True"
| "ad_sufficient fl Accessed \<longleftrightarrow> bit fl 6"
| "ad_sufficient fl AccessedDirty \<longleftrightarrow> bit fl 6 \<and> bit fl 7"

lemma check_permission_iff: "check_permission info check \<longleftrightarrow> permitted (leaf_flags info) check"
  by (auto simp: check_permission_def permitted_def)

lemma flags_contains_bit:
  "flags_contains fl PTE_A \<longleftrightarrow> bit fl 6" "flags_contains fl PTE_D \<longleftrightarrow> bit fl 7"
proof -
  have e: "(0x40 :: u8) = push_bit 6 1" "(0x80 :: u8) = push_bit 7 1" by simp_all
  have key: "fl AND push_bit n 1 = push_bit n 1 \<longleftrightarrow> bit fl n" if "n < 8" for n
  proof -
    have "fl AND push_bit n 1 = (if bit fl n then push_bit n 1 else 0)"
      by (rule bit_word_eqI) (auto simp: bit_simps)
    moreover have "push_bit n 1 \<noteq> (0 :: u8)" using that by (simp add: push_bit_eq_0_iff)
    ultimately show ?thesis by simp
  qed
  show "flags_contains fl PTE_A \<longleftrightarrow> bit fl 6" "flags_contains fl PTE_D \<longleftrightarrow> bit fl 7"
    using key [of 6] key [of 7] by (simp_all add: flags_contains_def)
qed

lemma apply_ad_policy_fault:
  assumes "ad_update_policy pt = FaultOnClear"
  shows "apply_ad_policy pt info effect mem =
    Some (if ad_sufficient (leaf_flags info) effect then Ok () else Err PageFault, mem)"
  using assms by (cases effect) (auto simp: apply_ad_policy_def flags_contains_bit)

lemma pt_path_level: "pt_path m mem vpn i base l a q \<Longrightarrow> l \<le> i"
  by (induction rule: pt_path.induct) auto

lemma canonical_mode:
  "mode_sv (mode pt) = Some m \<Longrightarrow> is_canonical_vaddr pt va = sv_is_canonical_vaddr m va"
  by (auto simp: mode_sv_def is_canonical_vaddr_def split: VirtualMemoryMode.splits)

lemma mode_sv_levels: "mode_sv vm = Some m \<Longrightarrow> LEVELS m - 1 \<le> 4 \<and> vm \<noteq> NoPaging"
  by (auto simp: mode_sv_def Sv39_def Sv48_def Sv57_def split: VirtualMemoryMode.splits)

text \<open>
  C4.  With a translation cache that agrees with the tables, translation under the default
  policy never panics, changes no memory and keeps the cache in agreement; it yields a physical
  address exactly when the virtual address is canonical, the tables hold an aligned leaf for it, the
  leaf grants the access and its accessed and dirty bits are already set, and that address takes the
  page offset of the leaf's size from the virtual address and the rest from the entry.
\<close>

theorem translate_vaddr_spec:
  assumes "mode_sv (mode pt) = Some m" "tlb_coherent pt mem" "ad_update_policy pt = FaultOnClear"
  shows "\<exists>r pt'. pt_translate_vaddr pt mem va check effect = Some (r, pt', mem) \<and> tlb_coherent pt' mem
    \<and> (\<forall>pa. r = Ok pa \<longleftrightarrow>
        (\<forall>k. VA_BITS m \<le> k \<longrightarrow> k < 64 \<longrightarrow> bit va k = bit va (VA_BITS m - 1))
        \<and> (\<exists>l a pte. pt_path m mem (vpn_of va) (LEVELS m - 1) (table_root pt) l a pte
            \<and> superpage_aligned l pte \<and> permitted (pte_flags pte) check \<and> ad_sufficient (pte_flags pte) effect
            \<and> (\<forall>k. bit pa k \<longleftrightarrow> (if k < 12 + 9 * l then bit va k else k < 56 \<and> bit pte (k - 2)))))"
proof -
  note can = canonical_mode [OF assms(1)] sv_mode.canonical_iff [OF mode_sv_mode [OF assms(1)]]
  let ?path = "\<lambda>l a q. pt_path m mem (vpn_of va) (LEVELS m - 1) (table_root pt) l a q"
  have pa: "(\<forall>k. bit pa k \<longleftrightarrow> (if k < 12 + 9 * l then bit va k else k < 56 \<and> bit q (k - 2)))
      \<longleftrightarrow> pa = leaf_paddr (leaf_info l a q) va" if "?path l a q" "superpage_aligned l q" for pa l a q
  proof -
    have "l \<le> 4" using pt_path_level [OF that(1)] mode_sv_levels [OF assms(1)] by simp
    then have b: "bit (leaf_paddr (leaf_info l a q) va) k \<longleftrightarrow>
        (if k < 12 + 9 * l then bit va k else k < 56 \<and> bit q (k - 2))" for k
      by (rule bit_leaf_paddr [OF that(2)])
    show ?thesis
    proof
      assume "\<forall>k. bit pa k \<longleftrightarrow> (if k < 12 + 9 * l then bit va k else k < 56 \<and> bit q (k - 2))"
      then show "pa = leaf_paddr (leaf_info l a q) va" using b by (intro bit_eqI) blast
    qed (use b in blast)
  qed
  show ?thesis
  proof (cases "is_canonical_vaddr pt va")
    case False
    then show ?thesis
      using assms mode_sv_levels [OF assms(1)] by (auto simp: pt_translate_vaddr_def can)
  next
    case True
    obtain r where r: "walk_pte pt mem (vpn_of va) = Some r"
      using walk_pte_mode [OF assms(1)] walk_levels_total by (metis not_None_eq)
    obtain t where t: "tlb_lookup pt mem va = Some (r, pt\<lparr>tlb := t\<rparr>)" "tlb_coherent (pt\<lparr>tlb := t\<rparr>) mem"
      using tlb_lookup_coherent [OF assms(2) r] by blast
    have iff: "r = Ok info \<longleftrightarrow> (\<exists>l a q. ?path l a q \<and> superpage_aligned l q \<and> info = leaf_info l a q)" for info
      using walk_levels_Ok_iff [of m mem "vpn_of va" "LEVELS m - 1" "table_root pt"] r walk_pte_mode [OF assms(1)]
      by auto
    have tr: "pt_translate_vaddr pt mem va check effect =
        Some (case r of
            Err e \<Rightarrow> Err e
          | Ok info \<Rightarrow> if \<not> permitted (leaf_flags info) check then Err PrivilegeFault
              else if ad_sufficient (leaf_flags info) effect then Ok (leaf_paddr info va) else Err PageFault,
          pt\<lparr>tlb := t\<rparr>, mem)"
      using True t(1) assms(3) mode_sv_levels [OF assms(1)]
      by (simp add: pt_translate_vaddr_def apply_ad_policy_fault check_permission_iff split: result.splits)
    let ?spec = "\<lambda>pa. \<exists>l a pte. ?path l a pte \<and> superpage_aligned l pte \<and> permitted (pte_flags pte) check
      \<and> ad_sufficient (pte_flags pte) effect
      \<and> (\<forall>k. bit pa k \<longleftrightarrow> (if k < 12 + 9 * l then bit va k else k < 56 \<and> bit pte (k - 2)))"
    have fl: "leaf_flags (leaf_info l' a' q') = pte_flags q'" for l' a' q' by (simp add: leaf_info_def)
    have spec: "?spec pa \<longleftrightarrow> (\<exists>info. r = Ok info \<and> permitted (leaf_flags info) check
        \<and> ad_sufficient (leaf_flags info) effect \<and> pa = leaf_paddr info va)" for pa
    proof
      assume "?spec pa"
      then obtain l a q where q: "?path l a q" "superpage_aligned l q" "permitted (pte_flags q) check"
          "ad_sufficient (pte_flags q) effect"
          "\<forall>k. bit pa k \<longleftrightarrow> (if k < 12 + 9 * l then bit va k else k < 56 \<and> bit q (k - 2))" by blast
      then have "pa = leaf_paddr (leaf_info l a q) va" using pa by blast
      moreover have "r = Ok (leaf_info l a q)" using iff q by blast
      ultimately show "\<exists>info. r = Ok info \<and> permitted (leaf_flags info) check
        \<and> ad_sufficient (leaf_flags info) effect \<and> pa = leaf_paddr info va" using q fl by simp
    next
      assume "\<exists>info. r = Ok info \<and> permitted (leaf_flags info) check
        \<and> ad_sufficient (leaf_flags info) effect \<and> pa = leaf_paddr info va"
      then obtain l a q where q: "?path l a q" "superpage_aligned l q" "permitted (pte_flags q) check"
          "ad_sufficient (pte_flags q) effect" "pa = leaf_paddr (leaf_info l a q) va"
        using iff fl by auto
      then show "?spec pa" using pa [OF q(1,2)] by blast
    qed
    have "\<forall>k. VA_BITS m \<le> k \<longrightarrow> k < 64 \<longrightarrow> bit va k = bit va (VA_BITS m - 1)"
      using True can by simp
    then show ?thesis
      unfolding tr spec using t(2) by (auto split: result.splits)
  qed
qed

theorem translate_vaddr_spec_witness:
  "\<exists>r pt'. pt_translate_vaddr example_walker example_ram 0x3000
      \<lparr>any_of = 0, exact_mask = PTE_R, exact_flags = PTE_R\<rparr> Accessed = Some (r, pt', example_ram)
    \<and> tlb_coherent pt' example_ram"
proof -
  have "tlb_coherent example_walker example_ram" "ad_update_policy example_walker = FaultOnClear"
    by (simp_all add: example_walker_def tlb_new_coherent) (simp add: PageTableWalker_new_def)
  then show ?thesis
    using translate_vaddr_spec [OF example_mode, of example_ram "0x3000"] by blast
qed

section \<open>Accessed and dirty bits\<close>

lemma bytes_at_pte_store:
  assumes "unat (b - BASE_ADDR) = off"
  shows "bytes_at (pte_store mem b pte) off 8 = to_bytes pte"
  unfolding pte_store_def assms by (rule bytes_at_splice_same) simp

text \<open>
  Under the automatic policy an access through a leaf inside the memory succeeds; it sets
  the accessed bit, and for a store the dirty bit, of the leaf entry in memory when the walk found
  them clear, and changes no other byte and no other bit of the entry.
\<close>

theorem ad_auto_set:
  assumes "ad_update_policy pt = AutoSet" "unat (leaf_pte_addr info - BASE_ADDR) = off" "off + 8 \<le> SIZE"
  shows "\<exists>mem'. apply_ad_policy pt info effect mem = Some (Ok (), mem')
    \<and> (\<forall>i. i < off \<or> off + 8 \<le> i \<longrightarrow> data mem' i = data mem i) \<and> reserved mem' = reserved mem
    \<and> (let old = of_bytes (bytes_at mem off 8) :: u64; new = of_bytes (bytes_at mem' off 8) :: u64 in
       \<forall>k < 64. bit new k \<longleftrightarrow> bit old k
         \<or> (k = 6 \<and> effect \<noteq> NoEffect \<and> \<not> bit (leaf_flags info) 6)
         \<or> (k = 7 \<and> effect = AccessedDirty \<and> \<not> bit (leaf_flags info) 7))"
proof -
  let ?old = "of_bytes (bytes_at mem off 8) :: u64"
  define na where "na \<longleftrightarrow> effect \<noteq> NoEffect \<and> \<not> bit (leaf_flags info) 6"
  define nd where "nd \<longleftrightarrow> effect = AccessedDirty \<and> \<not> bit (leaf_flags info) 7"
  let ?p1 = "if na then set_accessed ?old else ?old"
  let ?p2 = "if nd then set_dirty ?p1 else ?p1"
  have r: "apply_ad_policy pt info effect mem =
      Some (Ok (), if na \<or> nd then pte_store mem (leaf_pte_addr info) ?p2 else mem)"
    using assms by (cases effect) (auto simp: apply_ad_policy_def flags_contains_bit pte_at_def na_def nd_def Let_def)
  have e: "(ucast (0x40 :: u8) :: u64) = push_bit 6 1" "(ucast (0x80 :: u8) :: u64) = push_bit 7 1" by simp_all
  have bits: "bit ?p2 k \<longleftrightarrow> bit ?old k \<or> (k = 6 \<and> na) \<or> (k = 7 \<and> nd)" for k
  proof -
    have o: "bit (x OR push_bit n 1) k \<longleftrightarrow> bit x k \<or> k = n" if "n < 64" for x :: u64 and n
      using that by (auto simp: bit_or_iff bit_exp_iff)
    have o67: "bit (x OR push_bit 6 1) k \<longleftrightarrow> bit x k \<or> k = 6" "bit (x OR push_bit 7 1) k \<longleftrightarrow> bit x k \<or> k = 7"
      for x :: u64 by (rule o, simp)+
    show ?thesis
      unfolding set_accessed_def set_dirty_def e
      by (cases na; cases nd) (simp_all only: if_True if_False o67 simp_thms, blast+)
  qed
  have st: "of_bytes (bytes_at (pte_store mem (leaf_pte_addr info) q) off 8) = q" for q
    by (simp add: bytes_at_pte_store [OF assms(2)] of_bytes_to_bytes)
  show ?thesis
  proof (cases "na \<or> nd")
    case True
    have "bit (of_bytes (bytes_at (pte_store mem (leaf_pte_addr info) ?p2) off 8) :: u64) k
        \<longleftrightarrow> bit ?old k \<or> (k = 6 \<and> na) \<or> (k = 7 \<and> nd)" for k
      unfolding st by (rule bits)
    then show ?thesis unfolding r
      using True by (auto simp: pte_store_def splice_bytes_def assms(2) Let_def na_def nd_def)
  next
    case False
    then have "apply_ad_policy pt info effect mem = Some (Ok (), mem)" unfolding r by simp
    moreover have "effect \<noteq> NoEffect \<Longrightarrow> bit (leaf_flags info) 6" "effect = AccessedDirty \<Longrightarrow> bit (leaf_flags info) 7"
      using False by (auto simp: na_def nd_def)
    ultimately show ?thesis by (auto simp: Let_def)
  qed
qed

theorem ad_auto_set_witness:
  "\<exists>mem'. apply_ad_policy (example_walker\<lparr>ad_update_policy := AutoSet\<rparr>) (leaf_info 2 0x80000000 0x2000000F) AccessedDirty example_ram
     = Some (Ok (), mem')"
  using ad_auto_set [of "example_walker\<lparr>ad_update_policy := AutoSet\<rparr>" "leaf_info 2 0x80000000 0x2000000F" 0 AccessedDirty example_ram]
  by (auto simp: leaf_info_def BASE_ADDR_def SIZE_def)

end
