(* ===== verification/TrapCause.thy ===== *)
theory TrapCause
  imports Ram
begin

text \<open>
  Trap causes, \<open>src/isa/riscv/trap/mod.rs\<close>: interrupts and exceptions with their numbers in both
  directions, the translation of memory errors, and the value of the cause registers.  The conversion
  to a number panics on the \<open>Unknown\<close> variants; \<open>exception_code\<close> is the discriminant of the
  enumeration, which the delegation test casts to.
\<close>

section \<open>Definitions\<close>

datatype Interrupt =
    UserSoft | SupervisorSoft | MachineSoft
  | UserTimer | SupervisorTimer | MachineTimer
  | UserExternal | SupervisorExternal | MachineExternal
  | UnknownInterrupt

datatype Exception =
    Ex_InstructionMisaligned | Ex_InstructionFault | Ex_IllegalInstruction | Ex_Breakpoint
  | Ex_LoadMisaligned | Ex_LoadFault | Ex_StoreMisaligned | Ex_StoreFault
  | Ex_UserEnvCall | Ex_SupervisorEnvCall | Ex_HypervisionEnvCall | Ex_MachineEnvCall
  | Ex_InstructionPageFault | Ex_LoadPageFault | Ex_Unknown | Ex_StorePageFault

datatype Trap = TInterrupt Interrupt | TException Exception

definition Interrupt_from :: "nat \<Rightarrow> Interrupt" where
  "Interrupt_from nr =
     (if nr = 0 then UserSoft
      else if nr = 1 then SupervisorSoft
      else if nr = 3 then MachineSoft
      else if nr = 4 then UserTimer
      else if nr = 5 then SupervisorTimer
      else if nr = 7 then MachineTimer
      else if nr = 8 then UserExternal
      else if nr = 9 then SupervisorExternal
      else if nr = 11 then MachineExternal
      else UnknownInterrupt)"

fun Interrupt_into :: "Interrupt \<Rightarrow> u64 option" where
  "Interrupt_into UserSoft = Some 0"
| "Interrupt_into SupervisorSoft = Some 1"
| "Interrupt_into MachineSoft = Some 3"
| "Interrupt_into UserTimer = Some 4"
| "Interrupt_into SupervisorTimer = Some 5"
| "Interrupt_into MachineTimer = Some 7"
| "Interrupt_into UserExternal = Some 8"
| "Interrupt_into SupervisorExternal = Some 9"
| "Interrupt_into MachineExternal = Some 11"
| "Interrupt_into UnknownInterrupt = None"

definition Exception_from :: "nat \<Rightarrow> Exception" where
  "Exception_from nr =
     (if nr = 0 then Ex_InstructionMisaligned
      else if nr = 1 then Ex_InstructionFault
      else if nr = 2 then Ex_IllegalInstruction
      else if nr = 3 then Ex_Breakpoint
      else if nr = 4 then Ex_LoadMisaligned
      else if nr = 5 then Ex_LoadFault
      else if nr = 6 then Ex_StoreMisaligned
      else if nr = 7 then Ex_StoreFault
      else if nr = 8 then Ex_UserEnvCall
      else if nr = 9 then Ex_SupervisorEnvCall
      else if nr = 11 then Ex_MachineEnvCall
      else if nr = 12 then Ex_InstructionPageFault
      else if nr = 13 then Ex_LoadPageFault
      else if nr = 15 then Ex_StorePageFault
      else Ex_Unknown)"

fun from_memory_err :: "MemError \<Rightarrow> Exception" where
  "from_memory_err LoadMisaligned = Ex_LoadMisaligned"
| "from_memory_err LoadFault = Ex_LoadFault"
| "from_memory_err StoreMisaligned = Ex_StoreMisaligned"
| "from_memory_err StoreFault = Ex_StoreFault"
| "from_memory_err LoadPageFault = Ex_LoadPageFault"
| "from_memory_err StorePageFault = Ex_StorePageFault"

fun from_instr_fetch_err :: "MemError \<Rightarrow> Exception option" where
  "from_instr_fetch_err LoadMisaligned = Some Ex_InstructionMisaligned"
| "from_instr_fetch_err LoadFault = Some Ex_InstructionFault"
| "from_instr_fetch_err LoadPageFault = Some Ex_InstructionPageFault"
| "from_instr_fetch_err _ = None"

fun exception_code :: "Exception \<Rightarrow> nat" where
  "exception_code Ex_InstructionMisaligned = 0"
| "exception_code Ex_InstructionFault = 1"
| "exception_code Ex_IllegalInstruction = 2"
| "exception_code Ex_Breakpoint = 3"
| "exception_code Ex_LoadMisaligned = 4"
| "exception_code Ex_LoadFault = 5"
| "exception_code Ex_StoreMisaligned = 6"
| "exception_code Ex_StoreFault = 7"
| "exception_code Ex_UserEnvCall = 8"
| "exception_code Ex_SupervisorEnvCall = 9"
| "exception_code Ex_HypervisionEnvCall = 10"
| "exception_code Ex_MachineEnvCall = 11"
| "exception_code Ex_InstructionPageFault = 12"
| "exception_code Ex_LoadPageFault = 13"
| "exception_code Ex_Unknown = 14"
| "exception_code Ex_StorePageFault = 15"

fun Exception_into :: "Exception \<Rightarrow> u64 option" where
  "Exception_into Ex_InstructionMisaligned = Some 0"
| "Exception_into Ex_InstructionFault = Some 1"
| "Exception_into Ex_IllegalInstruction = Some 2"
| "Exception_into Ex_Breakpoint = Some 3"
| "Exception_into Ex_LoadMisaligned = Some 4"
| "Exception_into Ex_LoadFault = Some 5"
| "Exception_into Ex_StoreMisaligned = Some 6"
| "Exception_into Ex_StoreFault = Some 7"
| "Exception_into Ex_UserEnvCall = Some 8"
| "Exception_into Ex_SupervisorEnvCall = Some 9"
| "Exception_into Ex_HypervisionEnvCall = Some 10"
| "Exception_into Ex_MachineEnvCall = Some 11"
| "Exception_into Ex_InstructionPageFault = Some 12"
| "Exception_into Ex_LoadPageFault = Some 13"
| "Exception_into Ex_StorePageFault = Some 15"
| "Exception_into Ex_Unknown = None"

fun Trap_into :: "Trap \<Rightarrow> u64 option" where
  "Trap_into (TInterrupt nr) = map_option (\<lambda>n. n OR push_bit (XLEN - 1) 1) (Interrupt_into nr)"
| "Trap_into (TException nr) = Exception_into nr"

section \<open>Numbers and causes\<close>

lemma Exception_into_code:
  "e \<noteq> Ex_Unknown \<Longrightarrow> Exception_into e = Some (of_nat (exception_code e))"
  by (cases e) simp_all

lemma Interrupt_into_less: "Interrupt_into i = Some n \<Longrightarrow> n < 16"
  by (cases i) auto

lemma Interrupt_from_into:
  "i \<noteq> UnknownInterrupt \<Longrightarrow> \<exists>n. Interrupt_into i = Some n \<and> Interrupt_from (unat n) = i"
  by (cases i) (simp_all add: Interrupt_from_def)

text \<open>
  Distinct causes have distinct cause values, and bit 63 of the value tells interrupts from
  exceptions: whenever two causes are written with the same value they are the same cause.
\<close>

theorem Trap_into_inj:
  assumes "Trap_into a = Some c" "Trap_into b = Some c"
  shows "a = b \<and> (bit c 63 \<longleftrightarrow> (\<exists>i. a = TInterrupt i))"
proof -
  have i: "Trap_into (TInterrupt i) = Some c \<Longrightarrow> bit c 63 \<and> take_bit 63 c = the (Interrupt_into i)" for i
    by (cases i) (auto simp: XLEN_def)
  have e: "Trap_into (TException x) = Some c \<Longrightarrow> \<not> bit c 63 \<and> c = of_nat (exception_code x) \<and> x \<noteq> Ex_Unknown" for x
    by (cases x) auto
  have ii: "the (Interrupt_into i) = the (Interrupt_into j) \<Longrightarrow> Interrupt_into i \<noteq> None \<Longrightarrow> Interrupt_into j \<noteq> None \<Longrightarrow> i = j" for i j
    by (cases i; cases j) simp_all
  have ee: "(of_nat (exception_code x) :: u64) = of_nat (exception_code y) \<Longrightarrow> x = y" for x y
    by (cases x; cases y) simp_all
  show ?thesis
  proof (cases a)
    case (TInterrupt p)
    then obtain q where q: "b = TInterrupt q"
      using assms i [of p] e by (cases b) auto
    then show ?thesis using assms i [of p] i [of q] ii [of p q] TInterrupt by auto
  next
    case (TException p)
    then obtain q where q: "b = TException q"
      using assms i e [of p] by (cases b) auto
    then show ?thesis using assms e [of p] e [of q] ee TException by auto
  qed
qed

theorem Trap_into_inj_witness:
  "TInterrupt MachineTimer = TInterrupt MachineTimer \<and> (bit (0x8000000000000007 :: u64) 63 \<longleftrightarrow> (\<exists>i. TInterrupt MachineTimer = TInterrupt i))"
  using Trap_into_inj [of "TInterrupt MachineTimer" "0x8000000000000007" "TInterrupt MachineTimer"]
  by (simp add: XLEN_def)

end
