(* ===== verification/Mmio.thy ===== *)
theory Mmio
  imports TrapCause
begin

text \<open>
  The device arena and the memory map, \<open>src/device/device_manager.rs\<close> and \<open>src/device/mmio.rs\<close>.

  A boxed \<open>dyn DeviceTrait\<close> is a value of the type \<open>'d\<close> of device states together with the
  method table \<open>device_ops\<close>, an argument of every operation that calls a device.  A device may
  call another device it holds a pointer to, may use the shared memory and may drive interrupt lines
  of the processor while it is accessed; its methods therefore take its handle and all devices of
  the arena, take and return the memory, and return the levels put on the lines in the order of the
  calls.  The memory map collects these events in \<open>irq_out\<close> and the processor model
  applies them when the access is over.
\<close>

section \<open>Devices\<close>

type_synonym irq_event = "Interrupt \<times> bool"

type_synonym ErasedDeviceHandle = nat

record 'd device_ops =
  dev_read :: "ErasedDeviceHandle \<Rightarrow> 'd list \<Rightarrow> Ram \<Rightarrow> u64 \<Rightarrow> nat
    \<Rightarrow> ((u64, MemError) result \<times> 'd list \<times> Ram \<times> irq_event list) option"
  dev_write :: "ErasedDeviceHandle \<Rightarrow> 'd list \<Rightarrow> Ram \<Rightarrow> u64 \<Rightarrow> nat \<Rightarrow> u64
    \<Rightarrow> ((unit, MemError) result \<times> 'd list \<times> Ram \<times> irq_event list) option"
  dev_sync :: "ErasedDeviceHandle \<Rightarrow> 'd list \<Rightarrow> Ram \<Rightarrow> ('d list \<times> Ram \<times> irq_event list) option"

record 'd DeviceArena =
  arena_devices :: "'d list"

definition arena_new :: "'d DeviceArena" where
  "arena_new = \<lparr>arena_devices = []\<rparr>"

definition arena_register :: "'d \<Rightarrow> 'd DeviceArena \<Rightarrow> ErasedDeviceHandle \<times> 'd DeviceArena" where
  "arena_register d a =
     (let ds = arena_devices a @ [d] in (length ds - 1, a\<lparr>arena_devices := ds\<rparr>))"

definition erased_device_mut :: "ErasedDeviceHandle \<Rightarrow> 'd DeviceArena \<Rightarrow> 'd option" where
  "erased_device_mut h a = (if h < length (arena_devices a) then Some (arena_devices a ! h) else None)"

section \<open>The memory map\<close>

record MemoryMapItem =
  item_start :: u64
  item_size :: u64
  item_device :: ErasedDeviceHandle

record 'd MemoryMapIO =
  mmio_map :: "MemoryMapItem list"
  ram :: Ram
  devices :: "'d DeviceArena option"
  irq_out :: "irq_event list"

definition from_mmio_items :: "Ram \<Rightarrow> 'd DeviceArena \<Rightarrow> MemoryMapItem list \<Rightarrow> 'd MemoryMapIO" where
  "from_mmio_items r a items =
     \<lparr>mmio_map = sort_key item_start items, ram = r, devices = Some a, irq_out = []\<rparr>"

text \<open>\<open>slice::binary_search_by\<close> on items in strictly increasing order of their start address.\<close>

definition search_item :: "MemoryMapItem list \<Rightarrow> u64 \<Rightarrow> (nat, nat) result" where
  "search_item items p_addr =
     (let i = length (takeWhile (\<lambda>d. item_start d < p_addr) items) in
      if i < length items \<and> item_start (items ! i) = p_addr then Ok i else Err i)"

definition can_access :: "'a::len itself \<Rightarrow> 'd MemoryMapIO \<Rightarrow> nat \<Rightarrow> u64 \<Rightarrow> bool" where
  "can_access T io device_index p_addr \<longleftrightarrow>
     (let item = mmio_map io ! device_index in
      item_start item \<le> p_addr
      \<and> unat (p_addr - item_start item) + size_of T < 2 ^ 64
      \<and> unat (p_addr - item_start item) + size_of T \<le> unat (item_size item))"

definition read_from_device ::
  "'d device_ops \<Rightarrow> nat \<Rightarrow> u64 \<Rightarrow> ('d MemoryMapIO, 'a::len word, MemError) prog" where
  "read_from_device ops device_index p_addr io =
     (if \<not> check_align TYPE('a) p_addr then Some (Err LoadMisaligned, io)
      else if \<not> can_access TYPE('a) io device_index p_addr then Some (Err LoadFault, io)
      else
        let item = mmio_map io ! device_index in
        Option.bind (devices io) (\<lambda>arena.
        Option.bind (erased_device_mut (item_device item) arena) (\<lambda>_.
        Option.bind (dev_read ops (item_device item) (arena_devices arena) (ram io) (p_addr - item_start item) (size_of TYPE('a)))
          (\<lambda>(res, ds', ram', evs).
             Some (map_ok ucast res,
                   io\<lparr>ram := ram', devices := Some (arena\<lparr>arena_devices := ds'\<rparr>),
                      irq_out := irq_out io @ evs\<rparr>)))))"

definition write_to_device ::
  "'d device_ops \<Rightarrow> nat \<Rightarrow> u64 \<Rightarrow> 'a::len word \<Rightarrow> ('d MemoryMapIO, unit, MemError) prog" where
  "write_to_device ops device_index p_addr v io =
     (if \<not> check_align TYPE('a) p_addr then Some (Err StoreMisaligned, io)
      else if \<not> can_access TYPE('a) io device_index p_addr then Some (Err StoreFault, io)
      else
        let item = mmio_map io ! device_index in
        Option.bind (devices io) (\<lambda>arena.
        Option.bind (erased_device_mut (item_device item) arena) (\<lambda>_.
        Option.bind (dev_write ops (item_device item) (arena_devices arena) (ram io) (p_addr - item_start item) (size_of TYPE('a)) (ucast v))
          (\<lambda>(res, ds', ram', evs).
             Some (res,
                   io\<lparr>ram := ram', devices := Some (arena\<lparr>arena_devices := ds'\<rparr>),
                      irq_out := irq_out io @ evs\<rparr>)))))"

definition read_by_type :: "'d device_ops \<Rightarrow> u64 \<Rightarrow> ('d MemoryMapIO, 'a::len word, MemError) prog" where
  "read_by_type ops p_addr io =
     (if BASE_ADDR \<le> p_addr then Some (ram_read (ram io) (p_addr - BASE_ADDR), io)
      else (case search_item (mmio_map io) p_addr of
              Ok i \<Rightarrow> read_from_device ops i p_addr io
            | Err i \<Rightarrow> if i = 0 then Some (Err LoadFault, io)
                      else read_from_device ops (i - 1) p_addr io))"

definition write_by_type ::
  "'d device_ops \<Rightarrow> u64 \<Rightarrow> 'a::len word \<Rightarrow> ('d MemoryMapIO, unit, MemError) prog" where
  "write_by_type ops p_addr v io =
     (if BASE_ADDR \<le> p_addr then
        (case ram_write (p_addr - BASE_ADDR) v (ram io) of (r, ram') \<Rightarrow> Some (r, io\<lparr>ram := ram'\<rparr>))
      else (case search_item (mmio_map io) p_addr of
              Ok i \<Rightarrow> write_to_device ops i p_addr v io
            | Err i \<Rightarrow> if i = 0 then Some (Err StoreFault, io)
                      else write_to_device ops (i - 1) p_addr v io))"

definition in_ram :: "u64 \<Rightarrow> bool" where
  "in_ram p_addr \<longleftrightarrow> BASE_ADDR \<le> p_addr \<and> p_addr < BASE_ADDR + of_nat SIZE"

definition mmio_load_reserved :: "u64 \<Rightarrow> ('d MemoryMapIO, 'a::len word, MemError) prog" where
  "mmio_load_reserved p_addr io =
     (if in_ram p_addr then
        (case ram_load_reserved (p_addr - BASE_ADDR) (ram io) of (r, ram') \<Rightarrow> Some (r, io\<lparr>ram := ram'\<rparr>))
      else Some (Err LoadFault, io))"

definition mmio_store_conditional :: "u64 \<Rightarrow> 'a::len word \<Rightarrow> ('d MemoryMapIO, bool, MemError) prog" where
  "mmio_store_conditional p_addr v io =
     (if in_ram p_addr then
        (case ram_store_conditional (p_addr - BASE_ADDR) v (ram io) of (r, ram') \<Rightarrow> Some (r, io\<lparr>ram := ram'\<rparr>))
      else Some (Err StoreFault, io))"

definition mmio_clear_reservation :: "'d MemoryMapIO \<Rightarrow> 'd MemoryMapIO" where
  "mmio_clear_reservation io = io\<lparr>ram := ram_clear_reservation (ram io)\<rparr>"

fun sync_items :: "'d device_ops \<Rightarrow> MemoryMapItem list \<Rightarrow> 'd MemoryMapIO \<Rightarrow> 'd MemoryMapIO option" where
  "sync_items ops [] io = Some io"
| "sync_items ops (item # items) io =
     Option.bind (devices io) (\<lambda>arena.
     Option.bind (erased_device_mut (item_device item) arena) (\<lambda>_.
     Option.bind (dev_sync ops (item_device item) (arena_devices arena) (ram io)) (\<lambda>(ds', ram', evs).
       sync_items ops items
         (io\<lparr>ram := ram', devices := Some (arena\<lparr>arena_devices := ds'\<rparr>),
             irq_out := irq_out io @ evs\<rparr>))))"

definition mmio_sync :: "'d device_ops \<Rightarrow> 'd MemoryMapIO \<Rightarrow> 'd MemoryMapIO option" where
  "mmio_sync ops io = sync_items ops (mmio_map io) io"

section \<open>Dispatch\<close>

text \<open>A map whose items are in increasing order and do not overlap.\<close>

definition item_end :: "MemoryMapItem \<Rightarrow> nat" where
  "item_end d = unat (item_start d) + unat (item_size d)"

definition disjoint_map :: "MemoryMapItem list \<Rightarrow> bool" where
  "disjoint_map items \<longleftrightarrow>
     (\<forall>i j. i < j \<longrightarrow> j < length items \<longrightarrow>
        unat (item_start (items ! i)) < unat (item_start (items ! j))
        \<and> item_end (items ! i) \<le> unat (item_start (items ! j)))"

definition item_holds :: "'a::len itself \<Rightarrow> MemoryMapItem \<Rightarrow> u64 \<Rightarrow> bool" where
  "item_holds T d p \<longleftrightarrow> unat (item_start d) \<le> unat p \<and> unat p + size_of T \<le> item_end d"

lemma search_item_cases:
  assumes "disjoint_map items"
  obtains (none) "search_item items p = Err 0" "\<forall>d \<in> set items. p < item_start d"
  | (found) i where "i < length items" "item_start (items ! i) \<le> p"
      "\<forall>j. i < j \<longrightarrow> j < length items \<longrightarrow> p < item_start (items ! j)"
      "search_item items p = Ok i \<or> (search_item items p = Err (Suc i))"
proof -
  define n where "n = length (takeWhile (\<lambda>d. item_start d < p) items)"
  have below: "j < n \<Longrightarrow> item_start (items ! j) < p" for j
    unfolding n_def by (metis nth_mem set_takeWhileD takeWhile_nth)
  have stop: "n < length items \<Longrightarrow> \<not> item_start (items ! n) < p"
    unfolding n_def by (rule nth_length_takeWhile)
  have le: "n \<le> length items" by (simp add: n_def length_takeWhile_le)
  have mono: "item_start (items ! i) < item_start (items ! j)" if "i < j" "j < length items" for i j
    using assms that by (simp add: disjoint_map_def word_less_nat_alt)
  have above: "p < item_start (items ! j)" if "n < j" "j < length items" for j
    using mono [of n j] stop that by (meson leI le_less_trans less_trans not_less)
  show thesis
  proof (cases "n < length items \<and> item_start (items ! n) = p")
    case True
    then have "search_item items p = Ok n" by (simp add: search_item_def n_def Let_def)
    then show thesis using True above by (intro found [of n]) auto
  next
    case False
    then have s: "search_item items p = Err n" by (simp add: search_item_def n_def Let_def)
    have ge: "p < item_start (items ! j)" if "n \<le> j" "j < length items" for j
      using above [of j] False stop that by (cases "n = j") auto
    show thesis
    proof (cases n)
      case 0
      then show thesis using s ge by (intro none) (auto simp: in_set_conv_nth)
    next
      case (Suc k)
      then show thesis using s le below [of k] ge by (intro found [of k]) auto
    qed
  qed
qed

lemma can_access_iff:
  assumes "i < length (mmio_map io)"
  shows "can_access T io i p \<longleftrightarrow> item_holds T (mmio_map io ! i) p"
proof -
  let ?d = "mmio_map io ! i"
  have "unat (p - item_start ?d) = unat p - unat (item_start ?d)" if "item_start ?d \<le> p"
    using that by (rule unat_sub)
  moreover have "unat (item_size ?d) < 2 ^ 64" using unsigned_less [of "item_size ?d"] by simp
  ultimately show ?thesis
    by (auto simp: can_access_def item_holds_def item_end_def word_le_nat_alt Let_def)
qed

lemma item_holds_unique:
  assumes "disjoint_map items" "i < length items" "item_holds T (items ! i) p" "0 < size_of T"
    and "j < length items" "item_start (items ! j) \<le> p"
    and "\<forall>k. j < k \<longrightarrow> k < length items \<longrightarrow> p < item_start (items ! k)"
  shows "i = j"
proof (rule ccontr)
  assume "i \<noteq> j"
  then consider "j < i" | "i < j" by linarith
  then show False
  proof cases
    case 1
    then show ?thesis using assms by (auto simp: item_holds_def word_less_nat_alt)
  next
    case 2
    then have "item_end (items ! i) \<le> unat (item_start (items ! j))"
      using assms(1,5) by (simp add: disjoint_map_def)
    then show ?thesis using assms(3,4,6) by (simp add: item_holds_def word_le_nat_alt)
  qed
qed

lemma device_not_held:
  assumes "i < length (mmio_map io)" "\<not> item_holds TYPE('a::len) (mmio_map io ! i) p" "check_align TYPE('a) p"
  shows "(read_from_device ops i p :: ('d MemoryMapIO, 'a word, MemError) prog) io = Some (Err LoadFault, io)"
    and "write_to_device ops i p (v :: 'a word) io = Some (Err StoreFault, io)"
  using assms can_access_iff [OF assms(1), where T = "TYPE('a)"]
  by (simp_all add: read_from_device_def write_to_device_def)

text \<open>
  On a map without overlaps, an aligned access below the memory goes to the one item
  that contains all of its bytes, wherever it is in the map, with the offset from the start of
  that item; an access that no item contains is an access fault and changes nothing.
\<close>

theorem mmio_dispatch:
  assumes "disjoint_map (mmio_map io)" "p < BASE_ADDR" "check_align TYPE('a::len) p" "0 < size_of TYPE('a)"
  shows "(\<forall>i < length (mmio_map io). item_holds TYPE('a) (mmio_map io ! i) p \<longrightarrow>
        can_access TYPE('a) io i p
        \<and> (read_by_type ops p :: ('d MemoryMapIO, 'a word, MemError) prog) io = read_from_device ops i p io
        \<and> write_by_type ops p (v :: 'a word) io = write_to_device ops i p v io)
    \<and> ((\<forall>i < length (mmio_map io). \<not> item_holds TYPE('a) (mmio_map io ! i) p) \<longrightarrow>
        (read_by_type ops p :: ('d MemoryMapIO, 'a word, MemError) prog) io = Some (Err LoadFault, io)
        \<and> write_by_type ops p v io = Some (Err StoreFault, io))"
proof -
  have nb: "\<not> BASE_ADDR \<le> p" using assms(2) by simp
  show ?thesis
  proof (cases rule: search_item_cases [OF assms(1), of p, case_names none found])
    case none
    have "\<not> item_holds TYPE('a) (mmio_map io ! i) p" if "i < length (mmio_map io)" for i
      using none(2) that by (auto simp: item_holds_def word_less_nat_alt dest!: nth_mem [of i])
    then show ?thesis using none(1) nb by (auto simp: read_by_type_def write_by_type_def)
  next
    case (found j)
    have go: "(read_by_type ops p :: ('d MemoryMapIO, 'a word, MemError) prog) io = read_from_device ops j p io"
        "write_by_type ops p v io = write_to_device ops j p v io"
      using found(4) nb by (auto simp: read_by_type_def write_by_type_def)
    have "i = j" if "i < length (mmio_map io)" "item_holds TYPE('a) (mmio_map io ! i) p" for i
      using item_holds_unique [OF assms(1) that assms(4) found(1,2,3)] .
    then show ?thesis
      using go found(1) device_not_held [OF found(1) _ assms(3)] can_access_iff [OF found(1)] by metis
  qed
qed

theorem mmio_dispatch_witness:
  "(read_by_type \<lparr>dev_read = (\<lambda>h d r a n. Some (Ok 0, d, r, [])), dev_write = (\<lambda>h d r a n v. Some (Ok (), d, r, [])),
      dev_sync = (\<lambda>h d r. Some (d, r, []))\<rparr> 0x300 :: (unit MemoryMapIO, u32, MemError) prog)
     (from_mmio_items (Ram_new 0) arena_new [\<lparr>item_start = 0x100, item_size = 0x100, item_device = 0\<rparr>])
   = Some (Err LoadFault, from_mmio_items (Ram_new 0) arena_new [\<lparr>item_start = 0x100, item_size = 0x100, item_device = 0\<rparr>])"
proof -
  let ?io = "from_mmio_items (Ram_new 0) arena_new [\<lparr>item_start = 0x100, item_size = 0x100, item_device = 0\<rparr>] :: unit MemoryMapIO"
  have "disjoint_map (mmio_map ?io)" "(0x300 :: u64) < BASE_ADDR" "check_align TYPE(32) 0x300" "0 < size_of TYPE(32)"
    by (simp_all add: disjoint_map_def from_mmio_items_def BASE_ADDR_def)
  moreover have "\<forall>i < length (mmio_map ?io). \<not> item_holds TYPE(32) (mmio_map ?io ! i) 0x300"
    by (simp add: from_mmio_items_def item_holds_def item_end_def)
  ultimately show ?thesis using mmio_dispatch [where 'a = 32, of ?io "0x300" _ 0] by blast
qed

end
