(* ===== verification/CsrTable.thy ===== *)
theory CsrTable
  imports BitUtils
begin

text \<open>
  The declarative part of the control and status registers: write operations and validators
  (\<open>csr_reg/mod.rs\<close>, \<open>write_validator.rs\<close>, \<open>read_validator.rs\<close>) and the register table that the
  macro \<open>gen_csr_regfile!\<close> of \<open>csr_reg/csr_macro.rs\<close> is applied to, with what the macro
  generates from it.  Each entry of \<open>csr_descs\<close> is one entry of the macro call: type name, register
  name, address, default value, the base register of a shadow register, and the fields with
  their first bit (negative bits count from \<open>XLEN\<close>), length, name and validator.
\<close>

section \<open>Write operations and validators\<close>

record CsrWriteOp =
  op_mask :: u64

record CsrContext =
  extension :: u64
  xlen :: u8

record ReadValidator =
  target_index :: u64
  view_mask :: u64

type_synonym WriteValidator = "u64 \<Rightarrow> CsrContext \<Rightarrow> CsrWriteOp"

definition CsrWriteOp_new :: "u64 \<Rightarrow> CsrWriteOp" where
  "CsrWriteOp_new m = \<lparr>op_mask = m\<rparr>"

definition new_write_all :: CsrWriteOp where
  "new_write_all = \<lparr>op_mask = NOT 0\<rparr>"

definition get_new_value :: "CsrWriteOp \<Rightarrow> u64 \<Rightarrow> u64 \<Rightarrow> u64" where
  "get_new_value op old_value v = (old_value AND NOT (op_mask op)) OR (v AND op_mask op)"

definition op_merge :: "CsrWriteOp \<Rightarrow> CsrWriteOp \<Rightarrow> CsrWriteOp" where
  "op_merge a b = \<lparr>op_mask = op_mask a OR op_mask b\<rparr>"

definition op_and_mask :: "CsrWriteOp \<Rightarrow> CsrWriteOp \<Rightarrow> CsrWriteOp" where
  "op_and_mask a b = \<lparr>op_mask = op_mask a AND op_mask b\<rparr>"

definition CsrContext_new :: CsrContext where
  "CsrContext_new = \<lparr>extension = 0, xlen = 0\<rparr>"

definition validate_with_cond ::
  "nat \<Rightarrow> nat \<Rightarrow> (u64 \<Rightarrow> CsrContext \<Rightarrow> bool) \<Rightarrow> WriteValidator" where
  "validate_with_cond L R check value ctx =
     (let m = make_mask L R; extracted = extract_range value L R in
      if check extracted ctx then \<lparr>op_mask = m\<rparr> else \<lparr>op_mask = 0\<rparr>)"

definition RangeCond :: "u64 \<Rightarrow> u64 \<Rightarrow> u64 \<Rightarrow> CsrContext \<Rightarrow> bool" where
  "RangeCond lo hi value ctx \<longleftrightarrow> lo \<le> value \<and> value \<le> hi"

definition validate_range :: "nat \<Rightarrow> nat \<Rightarrow> u64 \<Rightarrow> u64 \<Rightarrow> WriteValidator" where
  "validate_range L R lo hi = validate_with_cond L R (RangeCond lo hi)"

definition validate_write_any :: "nat \<Rightarrow> nat \<Rightarrow> WriteValidator" where
  "validate_write_any L R value ctx = CsrWriteOp_new (make_mask L R)"

definition validate_mask :: "nat \<Rightarrow> nat \<Rightarrow> u64 \<Rightarrow> WriteValidator" where
  "validate_mask L R MASK value ctx = CsrWriteOp_new (make_mask L R AND MASK)"

definition validate_readonly :: WriteValidator where
  "validate_readonly value ctx = \<lparr>op_mask = 0\<rparr>"

definition combine_validators :: "WriteValidator list \<Rightarrow> WriteValidator" where
  "combine_validators vs value ctx =
     foldl (\<lambda>combined v. op_merge combined (v value ctx)) \<lparr>op_mask = 0\<rparr> vs"

section \<open>The register table\<close>

datatype field_validator = Default | Readonly | InRange nat nat u64 u64

type_synonym csr_field = "int \<times> nat \<times> string \<times> field_validator"

record csr_desc =
  type_name :: string
  name_str :: string
  desc_addr :: u64
  desc_default :: u64
  shadow_of :: "u64 option"
  desc_fields :: "csr_field list"

definition Fcsr_desc :: csr_desc where
  "Fcsr_desc = \<lparr>type_name = ''Fcsr'', name_str = ''fcsr'', desc_addr = 0x003, desc_default = 0,
     shadow_of = None,
     desc_fields = [(0, 5, ''fflags'', Default), (0, 1, ''nx'', Default), (1, 1, ''uf'', Default), (2, 1, ''of'', Default),
       (3, 1, ''dz'', Default), (4, 1, ''nv'', Default), (5, 3, ''rm'', Default)]\<rparr>"

definition Vstart_desc :: csr_desc where
  "Vstart_desc = \<lparr>type_name = ''Vstart'', name_str = ''vstart'', desc_addr = 0x008, desc_default = 0,
     shadow_of = None,
     desc_fields = [(0, XLEN, ''vstart'', Default)]\<rparr>"

definition Vcsr_desc :: csr_desc where
  "Vcsr_desc = \<lparr>type_name = ''Vcsr'', name_str = ''vcsr'', desc_addr = 0x00f, desc_default = 0,
     shadow_of = None,
     desc_fields = [(0, 1, ''vxsat'', Default), (1, 2, ''vxrm'', Default)]\<rparr>"

definition Cycle_desc :: csr_desc where
  "Cycle_desc = \<lparr>type_name = ''Cycle'', name_str = ''cycle'', desc_addr = 0xC00, desc_default = 0,
     shadow_of = Some 0xB00,
     desc_fields = [(0, XLEN, ''cycle'', Readonly)]\<rparr>"

definition Instret_desc :: csr_desc where
  "Instret_desc = \<lparr>type_name = ''Instret'', name_str = ''instret'', desc_addr = 0xC02, desc_default = 0,
     shadow_of = Some 0xB02,
     desc_fields = [(0, XLEN, ''instret'', Readonly)]\<rparr>"

definition Vl_desc :: csr_desc where
  "Vl_desc = \<lparr>type_name = ''Vl'', name_str = ''vlen'', desc_addr = 0xc20, desc_default = 0,
     shadow_of = None,
     desc_fields = [(0, XLEN, ''vl'', Default)]\<rparr>"

definition Vtype_desc :: csr_desc where
  "Vtype_desc = \<lparr>type_name = ''Vtype'', name_str = ''vtype'', desc_addr = 0xc21, desc_default = 0,
     shadow_of = None,
     desc_fields = [(0, 3, ''vlmul'', Readonly), (3, 3, ''vsew'', Readonly), (6, 1, ''vta'', Readonly),
       (7, 1, ''vma'', Readonly), (-1, 1, ''vill'', Readonly)]\<rparr>"

definition Vlenb_desc :: csr_desc where
  "Vlenb_desc = \<lparr>type_name = ''Vlenb'', name_str = ''vlenb'', desc_addr = 0xc22, desc_default = 0,
     shadow_of = None,
     desc_fields = [(0, XLEN, ''vlenb'', Default)]\<rparr>"

definition Sstatus_desc :: csr_desc where
  "Sstatus_desc = \<lparr>type_name = ''Sstatus'', name_str = ''sstatus'', desc_addr = 0x100, desc_default = 0,
     shadow_of = Some 0x300,
     desc_fields = [(1, 1, ''sie'', Default), (5, 1, ''spie'', Default), (6, 1, ''ube'', Default), (8, 1, ''spp'', Default),
       (9, 2, ''vs'', Default), (13, 2, ''fs'', Default), (15, 2, ''xs'', Default), (18, 1, ''sum'', Default),
       (19, 1, ''mxr'', Default), (23, 1, ''spelp'', Default), (24, 1, ''sdt'', Default),
       (32, 2, ''uxl'', Readonly), (-1, 1, ''sd'', Default)]\<rparr>"

definition Sie_desc :: csr_desc where
  "Sie_desc = \<lparr>type_name = ''Sie'', name_str = ''sie'', desc_addr = 0x104, desc_default = 0,
     shadow_of = Some 0x304,
     desc_fields = [(0, 1, ''usie'', Default), (1, 1, ''ssie'', Default), (4, 1, ''utie'', Default), (5, 1, ''stie'', Default),
       (8, 1, ''ueie'', Default), (9, 1, ''seie'', Default)]\<rparr>"

definition Stvec_desc :: csr_desc where
  "Stvec_desc = \<lparr>type_name = ''Stvec'', name_str = ''stvec'', desc_addr = 0x105, desc_default = 0,
     shadow_of = None,
     desc_fields = [(0, 2, ''mode'', Default), (2, XLEN - 2, ''base'', Default)]\<rparr>"

definition Sscratch_desc :: csr_desc where
  "Sscratch_desc = \<lparr>type_name = ''Sscratch'', name_str = ''sscratch'', desc_addr = 0x140, desc_default = 0,
     shadow_of = None,
     desc_fields = [(0, XLEN, ''scratch'', Default)]\<rparr>"

definition Sepc_desc :: csr_desc where
  "Sepc_desc = \<lparr>type_name = ''Sepc'', name_str = ''sepc'', desc_addr = 0x141, desc_default = 0,
     shadow_of = None,
     desc_fields = [(0, XLEN, ''sepc'', Default)]\<rparr>"

definition Scause_desc :: csr_desc where
  "Scause_desc = \<lparr>type_name = ''Scause'', name_str = ''scause'', desc_addr = 0x142, desc_default = 0,
     shadow_of = None,
     desc_fields = [(0, XLEN - 1, ''cause'', Default), (-1, 1, ''interrupt'', Default)]\<rparr>"

definition Stval_desc :: csr_desc where
  "Stval_desc = \<lparr>type_name = ''Stval'', name_str = ''stval'', desc_addr = 0x143, desc_default = 0,
     shadow_of = None,
     desc_fields = [(0, XLEN, ''stval'', Default)]\<rparr>"

definition Sip_desc :: csr_desc where
  "Sip_desc = \<lparr>type_name = ''Sip'', name_str = ''sip'', desc_addr = 0x144, desc_default = 0,
     shadow_of = Some 0x344,
     desc_fields = [(0, 1, ''usip'', Default), (1, 1, ''ssip'', Default), (4, 1, ''utip'', Default), (5, 1, ''stip'', Default),
       (8, 1, ''ueip'', Default), (9, 1, ''seip'', Default)]\<rparr>"

definition Satp_desc :: csr_desc where
  "Satp_desc = \<lparr>type_name = ''Satp'', name_str = ''satp'', desc_addr = 0x180, desc_default = 0,
     shadow_of = None,
     desc_fields = [(0, 44, ''ppn'', Default), (44, 16, ''asid'', Default), (60, 4, ''mode'', Default)]\<rparr>"

definition Mstatus_desc :: csr_desc where
  "Mstatus_desc = \<lparr>type_name = ''Mstatus'', name_str = ''mstatus'', desc_addr = 0x300, desc_default = 0,
     shadow_of = None,
     desc_fields = [(1, 1, ''sie'', Default), (3, 1, ''mie'', Default), (5, 1, ''spie'', Default), (6, 1, ''ube'', Default),
       (7, 1, ''mpie'', Default), (8, 1, ''spp'', Default), (9, 2, ''vs'', Default), (11, 2, ''mpp'', Default),
       (13, 2, ''fs'', Default), (15, 2, ''xs'', Readonly), (17, 1, ''mprv'', Default), (18, 1, ''sum'', Default),
       (19, 1, ''mxr'', Default), (20, 1, ''tvm'', Default), (21, 1, ''tw'', Default), (22, 1, ''tsr'', Default),
       (23, 1, ''spelp'', Default), (24, 1, ''sdt'', Default), (32, 2, ''uxl'', Readonly), (34, 2, ''sxl'', Readonly),
       (36, 1, ''sbe'', Default), (37, 1, ''mbe'', Default), (38, 1, ''gva'', Default), (39, 1, ''mpv'', Default),
       (40, 1, ''wpri'', Default), (41, 1, ''mpelp'', Default), (42, 1, ''mdt'', Default), (-1, 1, ''sd'', Default)]\<rparr>"

definition Misa_desc :: csr_desc where
  "Misa_desc = \<lparr>type_name = ''Misa'', name_str = ''misa'', desc_addr = 0x301, desc_default = 0,
     shadow_of = None,
     desc_fields = [(0, 25, ''extension'', Readonly), (-2, 2, ''mxl'', Readonly)]\<rparr>"

definition Medeleg_desc :: csr_desc where
  "Medeleg_desc = \<lparr>type_name = ''Medeleg'', name_str = ''medeleg'', desc_addr = 0x302, desc_default = 0,
     shadow_of = None,
     desc_fields = [(0, 1, ''instruction_misaligned'', Default), (1, 1, ''instruction_fault'', Default),
       (2, 1, ''illegal_instruction'', Default), (3, 1, ''breakpoint'', Default), (4, 1, ''load_misaligned'', Default),
       (5, 1, ''load_fault'', Default), (6, 1, ''store_misaligned'', Default), (7, 1, ''store_fault'', Default),
       (8, 1, ''user_env_call'', Default), (9, 1, ''supervisor_env_call'', Default),
       (11, 1, ''machine_env_call'', Default), (12, 1, ''instruction_page_fault'', Default),
       (13, 1, ''load_page_fault'', Default), (15, 1, ''store_page_fault'', Default)]\<rparr>"

definition Mideleg_desc :: csr_desc where
  "Mideleg_desc = \<lparr>type_name = ''Mideleg'', name_str = ''mideleg'', desc_addr = 0x303, desc_default = 0,
     shadow_of = None,
     desc_fields = [(1, 1, ''ssip'', Default), (5, 1, ''stip'', Default), (9, 1, ''seip'', Default)]\<rparr>"

definition Mie_desc :: csr_desc where
  "Mie_desc = \<lparr>type_name = ''Mie'', name_str = ''mie'', desc_addr = 0x304, desc_default = 0,
     shadow_of = None,
     desc_fields = [(0, 1, ''usie'', Default), (1, 1, ''ssie'', Default), (2, 1, ''vssie'', Default), (3, 1, ''msie'', Default),
       (4, 1, ''utie'', Default), (5, 1, ''stie'', Default), (6, 1, ''vstie'', Default), (7, 1, ''mtie'', Default),
       (8, 1, ''ueie'', Default), (9, 1, ''seie'', Default), (10, 1, ''vseie'', Default), (11, 1, ''meie'', Default),
       (12, 1, ''sgeie'', Default), (13, 1, ''hgeie'', Default)]\<rparr>"

definition Mtvec_desc :: csr_desc where
  "Mtvec_desc = \<lparr>type_name = ''Mtvec'', name_str = ''mtvec'', desc_addr = 0x305, desc_default = 0,
     shadow_of = None,
     desc_fields = [(0, 2, ''mode'', InRange 0 2 0 1), (2, XLEN - 2, ''base'', Default)]\<rparr>"

definition Mcountinhibit_desc :: csr_desc where
  "Mcountinhibit_desc = \<lparr>type_name = ''Mcountinhibit'', name_str = ''mcountinhibit'', desc_addr = 0x320, desc_default = 0,
     shadow_of = None,
     desc_fields = [(0, XLEN, ''mcountinhibit'', Readonly)]\<rparr>"

definition Mscratch_desc :: csr_desc where
  "Mscratch_desc = \<lparr>type_name = ''Mscratch'', name_str = ''mscratch'', desc_addr = 0x340, desc_default = 0,
     shadow_of = None,
     desc_fields = [(0, XLEN, ''scratch'', Default)]\<rparr>"

definition Mepc_desc :: csr_desc where
  "Mepc_desc = \<lparr>type_name = ''Mepc'', name_str = ''mepc'', desc_addr = 0x341, desc_default = 0,
     shadow_of = None,
     desc_fields = [(0, XLEN, ''mepc'', Default)]\<rparr>"

definition Mcause_desc :: csr_desc where
  "Mcause_desc = \<lparr>type_name = ''Mcause'', name_str = ''mcause'', desc_addr = 0x342, desc_default = 0,
     shadow_of = None,
     desc_fields = [(0, XLEN - 1, ''cause'', Default), (-1, 1, ''interrupt_flag'', Default)]\<rparr>"

definition Mtval_desc :: csr_desc where
  "Mtval_desc = \<lparr>type_name = ''Mtval'', name_str = ''mtval'', desc_addr = 0x343, desc_default = 0,
     shadow_of = None,
     desc_fields = [(0, XLEN, ''mtval'', Default)]\<rparr>"

definition Mip_desc :: csr_desc where
  "Mip_desc = \<lparr>type_name = ''Mip'', name_str = ''mip'', desc_addr = 0x344, desc_default = 0,
     shadow_of = None,
     desc_fields = [(0, 1, ''usip'', Default), (1, 1, ''ssip'', Default), (2, 1, ''vssip'', Default), (3, 1, ''msip'', Default),
       (4, 1, ''utip'', Default), (5, 1, ''stip'', Default), (6, 1, ''vstip'', Default), (7, 1, ''mtip'', Default),
       (8, 1, ''ueip'', Default), (9, 1, ''seip'', Default), (10, 1, ''vseip'', Default), (11, 1, ''meip'', Default),
       (12, 1, ''sgeip'', Default), (13, 1, ''hgeip'', Default)]\<rparr>"

definition Mcycle_desc :: csr_desc where
  "Mcycle_desc = \<lparr>type_name = ''Mcycle'', name_str = ''mcycle'', desc_addr = 0xB00, desc_default = 0,
     shadow_of = None,
     desc_fields = [(0, XLEN, ''mcycle'', Default)]\<rparr>"

definition Minstret_desc :: csr_desc where
  "Minstret_desc = \<lparr>type_name = ''Minstret'', name_str = ''minstret'', desc_addr = 0xB02, desc_default = 0,
     shadow_of = None,
     desc_fields = [(0, XLEN, ''minstret'', Default)]\<rparr>"

definition Mvendorid_desc :: csr_desc where
  "Mvendorid_desc = \<lparr>type_name = ''Mvendorid'', name_str = ''mvendorid'', desc_addr = 0xF11, desc_default = 0,
     shadow_of = None,
     desc_fields = [(0, XLEN, ''mvendorid'', Readonly)]\<rparr>"

definition Marchid_desc :: csr_desc where
  "Marchid_desc = \<lparr>type_name = ''Marchid'', name_str = ''marchid'', desc_addr = 0xF12, desc_default = 0,
     shadow_of = None,
     desc_fields = [(0, XLEN, ''marchid'', Readonly)]\<rparr>"

definition Mimpid_desc :: csr_desc where
  "Mimpid_desc = \<lparr>type_name = ''Mimpid'', name_str = ''mimpid'', desc_addr = 0xF13, desc_default = 0,
     shadow_of = None,
     desc_fields = [(0, XLEN, ''mimpid'', Readonly)]\<rparr>"

definition Mhartid_desc :: csr_desc where
  "Mhartid_desc = \<lparr>type_name = ''Mhartid'', name_str = ''mhartid'', desc_addr = 0xF14, desc_default = 0,
     shadow_of = None,
     desc_fields = [(0, XLEN, ''mhartid'', Readonly)]\<rparr>"

definition csr_descs :: "csr_desc list" where
  "csr_descs = [
     Fcsr_desc, Vstart_desc, Vcsr_desc, Cycle_desc, Instret_desc, Vl_desc, Vtype_desc,
     Vlenb_desc, Sstatus_desc, Sie_desc, Stvec_desc, Sscratch_desc, Sepc_desc, Scause_desc,
     Stval_desc, Sip_desc, Satp_desc, Mstatus_desc, Misa_desc, Medeleg_desc, Mideleg_desc,
     Mie_desc, Mtvec_desc, Mcountinhibit_desc, Mscratch_desc, Mepc_desc, Mcause_desc,
     Mtval_desc, Mip_desc, Mcycle_desc, Minstret_desc, Mvendorid_desc, Marchid_desc,
     Mimpid_desc, Mhartid_desc]"

section \<open>What the macro generates\<close>

definition field_start :: "int \<Rightarrow> nat" where
  "field_start b = (if 0 \<le> b then nat b else nat (int XLEN + b))"

fun choose_validator :: "csr_field \<Rightarrow> WriteValidator" where
  "choose_validator (b, len, fname, Default) =
     validate_write_any (field_start b) (field_start b + len - 1)"
| "choose_validator (b, len, fname, Readonly) = validate_readonly"
| "choose_validator (b, len, fname, InRange l r mn mx) = validate_range l r mn mx"

definition validate_desc :: "csr_desc \<Rightarrow> WriteValidator" where
  "validate_desc d = combine_validators (map choose_validator (desc_fields d))"

definition CSR_REG_TABLE :: "(u64 \<times> u64 \<times> WriteValidator) list" where
  "CSR_REG_TABLE = map (\<lambda>d. (desc_addr d, desc_default d, validate_desc d)) csr_descs"

definition combine_shadow_read_ops :: "u64 \<Rightarrow> (nat \<times> nat) list \<Rightarrow> ReadValidator" where
  "combine_shadow_read_ops target ranges =
     foldl (\<lambda>c (l, r). \<lparr>target_index = target_index c, view_mask = view_mask c OR make_mask l r\<rparr>)
       \<lparr>target_index = target, view_mask = 0\<rparr> ranges"

definition resolve_shadow_desc :: "csr_desc \<Rightarrow> ReadValidator option" where
  "resolve_shadow_desc d =
     map_option (\<lambda>base. combine_shadow_read_ops base
        (map (\<lambda>(b, len, _). (field_start b, field_start b + len - 1)) (desc_fields d)))
       (shadow_of d)"

definition resolve_shadow_addr :: "u64 \<Rightarrow> ReadValidator option" where
  "resolve_shadow_addr addr =
     (case find (\<lambda>d. desc_addr d = addr) csr_descs of
        Some d \<Rightarrow> resolve_shadow_desc d
      | None \<Rightarrow> None)"

definition CSR_ADDRESS :: "string \<Rightarrow> u64 option" where
  "CSR_ADDRESS = map_of (map (\<lambda>d. (name_str d, desc_addr d)) csr_descs)"

definition CSR_NAME :: "u64 \<Rightarrow> string option" where
  "CSR_NAME = map_of (map (\<lambda>d. (desc_addr d, name_str d)) csr_descs)"

section \<open>Bit fields\<close>

definition field_get :: "nat \<Rightarrow> nat \<Rightarrow> u64 \<Rightarrow> u64" where
  "field_get low len w = take_bit len (drop_bit low w)"

definition field_put :: "nat \<Rightarrow> nat \<Rightarrow> u64 \<Rightarrow> u64 \<Rightarrow> u64" where
  "field_put low len v w = (w AND NOT (push_bit low (mask len))) OR push_bit low (take_bit len v)"

lemma bit_field_get [bit_simps]: "bit (field_get low len w) k \<longleftrightarrow> k < len \<and> bit w (low + k)"
  by (auto simp: field_get_def bit_simps dest: bit_imp_le_length)

lemma bit_field_put [bit_simps]:
  "bit (field_put low len v w) k \<longleftrightarrow>
     (if low \<le> k \<and> k < low + len then k < 64 \<and> bit v (k - low) else bit w k)"
  by (auto simp: field_put_def bit_simps dest: bit_imp_le_length)

lemma field_get_put_same [word_field_simps]:
  "low + len \<le> 64 \<Longrightarrow> field_get low len (field_put low len v w) = take_bit len v"
  by (rule bit_word_eqI) (auto simp: bit_simps)

lemma field_get_put_other [word_field_simps]:
  "l + n \<le> low \<or> low + len \<le> l \<Longrightarrow> field_get l n (field_put low len v w) = field_get l n w"
  by (rule bit_word_eqI) (auto simp: bit_simps)

lemma field_put_put [word_field_simps]:
  "field_put low len v (field_put low len u w) = field_put low len v w"
  by (rule bit_word_eqI) (auto simp: bit_simps)

lemma field_put_get_same: "field_put low len (field_get low len w) w = w"
  by (rule bit_word_eqI) (auto simp: bit_simps)

lemma field_get_one [simp]: "field_get low (Suc 0) w = of_bool (bit w low)"
  by (rule bit_word_eqI) (auto simp: bit_simps)

lemma bit_field_put_one [simp]:
  "low < 64 \<Longrightarrow> bit (field_put low (Suc 0) v w) k \<longleftrightarrow> (if k = low then bit v 0 else bit w k)"
  by (auto simp: bit_field_put)

lemma field_get_le_mask: "field_get low len w \<le> mask len"
  by (simp add: field_get_def word_and_le1 take_bit_eq_mask)

lemma get_new_value_field:
  "get_new_value \<lparr>op_mask = push_bit low (mask len)\<rparr> old (push_bit low v) = field_put low len v old"
  by (rule bit_word_eqI) (auto simp: get_new_value_def bit_simps)

lemma get_new_value_covered:
  assumes "m AND NOT (op_mask op) = 0"
  shows "get_new_value op old (get_new_value \<lparr>op_mask = m\<rparr> old v) = get_new_value \<lparr>op_mask = m\<rparr> old v"
proof (rule bit_word_eqI)
  fix n
  assume n: "n < LENGTH(64)"
  have "bit (m AND NOT (op_mask op)) n = False" using assms by simp
  then show "bit (get_new_value op old (get_new_value \<lparr>op_mask = m\<rparr> old v)) n =
      bit (get_new_value \<lparr>op_mask = m\<rparr> old v) n"
    using n by (auto simp: get_new_value_def bit_simps)
qed

lemma get_new_value_field_covered:
  assumes "push_bit low (mask len) AND NOT (op_mask op) = 0"
  shows "get_new_value op old (field_put low len v old) = field_put low len v old"
  using get_new_value_covered [OF assms, of old "push_bit low v"] by (simp add: get_new_value_field)

section \<open>The table computed\<close>

definition desc_of :: "u64 \<Rightarrow> csr_desc option" where
  "desc_of addr = find (\<lambda>d. desc_addr d = addr) csr_descs"

lemmas desc_defs =
  Fcsr_desc_def Vstart_desc_def Vcsr_desc_def Cycle_desc_def Instret_desc_def
  Vl_desc_def Vtype_desc_def Vlenb_desc_def Sstatus_desc_def Sie_desc_def
  Stvec_desc_def Sscratch_desc_def Sepc_desc_def Scause_desc_def Stval_desc_def
  Sip_desc_def Satp_desc_def Mstatus_desc_def Misa_desc_def Medeleg_desc_def
  Mideleg_desc_def Mie_desc_def Mtvec_desc_def Mcountinhibit_desc_def Mscratch_desc_def
  Mepc_desc_def Mcause_desc_def Mtval_desc_def Mip_desc_def Mcycle_desc_def
  Minstret_desc_def Mvendorid_desc_def Marchid_desc_def Mimpid_desc_def Mhartid_desc_def

lemmas validate_unfold = validate_desc_def combine_validators_def op_merge_def
  validate_write_any_def validate_readonly_def field_start_def XLEN_def CsrWriteOp_new_def
  make_mask_eq mask_eq_exp_minus_1

lemma desc_addr_table [simp]:
  "desc_addr Fcsr_desc = 0x3"
  "desc_addr Vstart_desc = 0x8"
  "desc_addr Vcsr_desc = 0xf"
  "desc_addr Cycle_desc = 0xc00"
  "desc_addr Instret_desc = 0xc02"
  "desc_addr Vl_desc = 0xc20"
  "desc_addr Vtype_desc = 0xc21"
  "desc_addr Vlenb_desc = 0xc22"
  "desc_addr Sstatus_desc = 0x100"
  "desc_addr Sie_desc = 0x104"
  "desc_addr Stvec_desc = 0x105"
  "desc_addr Sscratch_desc = 0x140"
  "desc_addr Sepc_desc = 0x141"
  "desc_addr Scause_desc = 0x142"
  "desc_addr Stval_desc = 0x143"
  "desc_addr Sip_desc = 0x144"
  "desc_addr Satp_desc = 0x180"
  "desc_addr Mstatus_desc = 0x300"
  "desc_addr Misa_desc = 0x301"
  "desc_addr Medeleg_desc = 0x302"
  "desc_addr Mideleg_desc = 0x303"
  "desc_addr Mie_desc = 0x304"
  "desc_addr Mtvec_desc = 0x305"
  "desc_addr Mcountinhibit_desc = 0x320"
  "desc_addr Mscratch_desc = 0x340"
  "desc_addr Mepc_desc = 0x341"
  "desc_addr Mcause_desc = 0x342"
  "desc_addr Mtval_desc = 0x343"
  "desc_addr Mip_desc = 0x344"
  "desc_addr Mcycle_desc = 0xb00"
  "desc_addr Minstret_desc = 0xb02"
  "desc_addr Mvendorid_desc = 0xf11"
  "desc_addr Marchid_desc = 0xf12"
  "desc_addr Mimpid_desc = 0xf13"
  "desc_addr Mhartid_desc = 0xf14"
  by (simp_all add: desc_defs)

lemma desc_of_table [simp]:
  "desc_of 0x3 = Some Fcsr_desc"
  "desc_of 0x8 = Some Vstart_desc"
  "desc_of 0xf = Some Vcsr_desc"
  "desc_of 0xc00 = Some Cycle_desc"
  "desc_of 0xc02 = Some Instret_desc"
  "desc_of 0xc20 = Some Vl_desc"
  "desc_of 0xc21 = Some Vtype_desc"
  "desc_of 0xc22 = Some Vlenb_desc"
  "desc_of 0x100 = Some Sstatus_desc"
  "desc_of 0x104 = Some Sie_desc"
  "desc_of 0x105 = Some Stvec_desc"
  "desc_of 0x140 = Some Sscratch_desc"
  "desc_of 0x141 = Some Sepc_desc"
  "desc_of 0x142 = Some Scause_desc"
  "desc_of 0x143 = Some Stval_desc"
  "desc_of 0x144 = Some Sip_desc"
  "desc_of 0x180 = Some Satp_desc"
  "desc_of 0x300 = Some Mstatus_desc"
  "desc_of 0x301 = Some Misa_desc"
  "desc_of 0x302 = Some Medeleg_desc"
  "desc_of 0x303 = Some Mideleg_desc"
  "desc_of 0x304 = Some Mie_desc"
  "desc_of 0x305 = Some Mtvec_desc"
  "desc_of 0x320 = Some Mcountinhibit_desc"
  "desc_of 0x340 = Some Mscratch_desc"
  "desc_of 0x341 = Some Mepc_desc"
  "desc_of 0x342 = Some Mcause_desc"
  "desc_of 0x343 = Some Mtval_desc"
  "desc_of 0x344 = Some Mip_desc"
  "desc_of 0xb00 = Some Mcycle_desc"
  "desc_of 0xb02 = Some Minstret_desc"
  "desc_of 0xf11 = Some Mvendorid_desc"
  "desc_of 0xf12 = Some Marchid_desc"
  "desc_of 0xf13 = Some Mimpid_desc"
  "desc_of 0xf14 = Some Mhartid_desc"
  by (simp_all add: desc_of_def csr_descs_def)

text \<open>The bits that a validated write can change, for every register but \<open>mtvec\<close>.\<close>

definition write_mask :: "u64 \<Rightarrow> u64 \<Rightarrow> CsrContext \<Rightarrow> u64 option" where
  "write_mask addr v ctx = map_option (\<lambda>d. op_mask (validate_desc d v ctx)) (desc_of addr)"

lemma write_mask_table [simp]:
  "write_mask 0x3 v ctx = Some 0xff"
  "write_mask 0x8 v ctx = Some 0xffffffffffffffff"
  "write_mask 0xf v ctx = Some 0x7"
  "write_mask 0xc00 v ctx = Some 0x0"
  "write_mask 0xc02 v ctx = Some 0x0"
  "write_mask 0xc20 v ctx = Some 0xffffffffffffffff"
  "write_mask 0xc21 v ctx = Some 0x0"
  "write_mask 0xc22 v ctx = Some 0xffffffffffffffff"
  "write_mask 0x100 v ctx = Some 0x80000000018de762"
  "write_mask 0x104 v ctx = Some 0x333"
  "write_mask 0x105 v ctx = Some 0xffffffffffffffff"
  "write_mask 0x140 v ctx = Some 0xffffffffffffffff"
  "write_mask 0x141 v ctx = Some 0xffffffffffffffff"
  "write_mask 0x142 v ctx = Some 0xffffffffffffffff"
  "write_mask 0x143 v ctx = Some 0xffffffffffffffff"
  "write_mask 0x144 v ctx = Some 0x333"
  "write_mask 0x180 v ctx = Some 0xffffffffffffffff"
  "write_mask 0x300 v ctx = Some 0x800007f001fe7fea"
  "write_mask 0x301 v ctx = Some 0x0"
  "write_mask 0x302 v ctx = Some 0xbbff"
  "write_mask 0x303 v ctx = Some 0x222"
  "write_mask 0x304 v ctx = Some 0x3fff"
  "write_mask 0x320 v ctx = Some 0x0"
  "write_mask 0x340 v ctx = Some 0xffffffffffffffff"
  "write_mask 0x341 v ctx = Some 0xffffffffffffffff"
  "write_mask 0x342 v ctx = Some 0xffffffffffffffff"
  "write_mask 0x343 v ctx = Some 0xffffffffffffffff"
  "write_mask 0x344 v ctx = Some 0x3fff"
  "write_mask 0xb00 v ctx = Some 0xffffffffffffffff"
  "write_mask 0xb02 v ctx = Some 0xffffffffffffffff"
  "write_mask 0xf11 v ctx = Some 0x0"
  "write_mask 0xf12 v ctx = Some 0x0"
  "write_mask 0xf13 v ctx = Some 0x0"
  "write_mask 0xf14 v ctx = Some 0x0"
  by (simp_all add: write_mask_def desc_defs validate_unfold)

lemma resolve_shadow_desc_of: "resolve_shadow_addr addr = Option.bind (desc_of addr) resolve_shadow_desc"
  by (simp add: resolve_shadow_addr_def desc_of_def split: option.splits)

lemma resolve_shadow_table [simp]:
  "resolve_shadow_addr 0xc00 = Some \<lparr>target_index = 0xb00, view_mask = 0xffffffffffffffff\<rparr>"
  "resolve_shadow_addr 0xc02 = Some \<lparr>target_index = 0xb02, view_mask = 0xffffffffffffffff\<rparr>"
  "resolve_shadow_addr 0x100 = Some \<lparr>target_index = 0x300, view_mask = 0x80000003018de762\<rparr>"
  "resolve_shadow_addr 0x104 = Some \<lparr>target_index = 0x304, view_mask = 0x333\<rparr>"
  "resolve_shadow_addr 0x144 = Some \<lparr>target_index = 0x344, view_mask = 0x333\<rparr>"
  by (simp_all add: resolve_shadow_desc_of desc_defs resolve_shadow_desc_def
      combine_shadow_read_ops_def field_start_def XLEN_def make_mask_eq mask_eq_exp_minus_1)

lemma resolve_shadow_none [simp]:
  "resolve_shadow_addr 0x3 = None"
  "resolve_shadow_addr 0x8 = None"
  "resolve_shadow_addr 0xf = None"
  "resolve_shadow_addr 0xc20 = None"
  "resolve_shadow_addr 0xc21 = None"
  "resolve_shadow_addr 0xc22 = None"
  "resolve_shadow_addr 0x105 = None"
  "resolve_shadow_addr 0x140 = None"
  "resolve_shadow_addr 0x141 = None"
  "resolve_shadow_addr 0x142 = None"
  "resolve_shadow_addr 0x143 = None"
  "resolve_shadow_addr 0x180 = None"
  "resolve_shadow_addr 0x300 = None"
  "resolve_shadow_addr 0x301 = None"
  "resolve_shadow_addr 0x302 = None"
  "resolve_shadow_addr 0x303 = None"
  "resolve_shadow_addr 0x304 = None"
  "resolve_shadow_addr 0x305 = None"
  "resolve_shadow_addr 0x320 = None"
  "resolve_shadow_addr 0x340 = None"
  "resolve_shadow_addr 0x341 = None"
  "resolve_shadow_addr 0x342 = None"
  "resolve_shadow_addr 0x343 = None"
  "resolve_shadow_addr 0x344 = None"
  "resolve_shadow_addr 0xb00 = None"
  "resolve_shadow_addr 0xb02 = None"
  "resolve_shadow_addr 0xf11 = None"
  "resolve_shadow_addr 0xf12 = None"
  "resolve_shadow_addr 0xf13 = None"
  "resolve_shadow_addr 0xf14 = None"
  by (simp_all add: resolve_shadow_desc_of desc_defs resolve_shadow_desc_def)

lemma distinct_desc_addr: "distinct (map desc_addr csr_descs)"
  by (simp add: csr_descs_def)

end
