(* ===== verification/Csr.thy ===== *)
theory Csr
  imports CsrTable
begin

text \<open>
  The register file of \<open>csr_reg/mod.rs\<close>: privilege levels and the privilege table, the
  checked, unchecked and direct reads and writes by address, and the typed field accessors that
  \<open>gen_csr_reg!\<close> of \<open>csr_macro.rs\<close> generates.  A field accessor is the triple of the index of
  its register type, its first bit and its length.

  \<open>csr_wf\<close> is the invariant that the set of registers, their validators and their shadow targets
  are those of the table; under it every access by address or field is a total operation on
  the register values \<open>csr_val\<close>, which is how the other components use this theory.
\<close>

section \<open>Privilege levels\<close>

datatype PrivilegeLevel = PrivU | PrivS | PrivV | PrivM

fun priv_code :: "PrivilegeLevel \<Rightarrow> nat" where
  "priv_code PrivU = 0"
| "priv_code PrivS = 1"
| "priv_code PrivV = 2"
| "priv_code PrivM = 3"

lemma priv_code_inject [simp]: "priv_code a = priv_code b \<longleftrightarrow> a = b"
  by (cases a; cases b) simp_all

instantiation PrivilegeLevel :: linorder
begin

definition less_eq_PrivilegeLevel :: "PrivilegeLevel \<Rightarrow> PrivilegeLevel \<Rightarrow> bool" where
  "less_eq_PrivilegeLevel a b \<longleftrightarrow> priv_code a \<le> priv_code b"

definition less_PrivilegeLevel :: "PrivilegeLevel \<Rightarrow> PrivilegeLevel \<Rightarrow> bool" where
  "less_PrivilegeLevel a b \<longleftrightarrow> priv_code a < priv_code b"

instance
  by standard (auto simp: less_eq_PrivilegeLevel_def less_PrivilegeLevel_def)

end

definition PrivilegeLevel_try_from :: "u8 \<Rightarrow> (PrivilegeLevel, string) result" where
  "PrivilegeLevel_try_from value =
     (if value = 0 then Ok PrivU
      else if value = 1 then Ok PrivS
      else if value = 2 then Ok PrivV
      else if value = 3 then Ok PrivM
      else Err ''Invalid privilege level'')"

definition CSR_PRIVILEGE_TABLE :: "(u64 \<times> PrivilegeLevel) list" where
  "CSR_PRIVILEGE_TABLE = [
     (0x000, PrivU), (0x100, PrivS), (0x200, PrivV), (0x300, PrivM),
     (0x400, PrivU), (0x500, PrivS), (0x580, PrivS), (0x5C0, PrivS),
     (0x600, PrivV), (0x680, PrivV), (0x6C0, PrivV), (0x700, PrivM),
     (0x780, PrivM), (0x7A0, PrivM), (0x7B0, PrivM), (0x7C0, PrivM),
     (0x800, PrivU), (0x900, PrivS), (0x980, PrivS), (0x9C0, PrivS),
     (0xA00, PrivV), (0xA80, PrivV), (0xAC0, PrivV), (0xB00, PrivM),
     (0xB80, PrivM), (0xBC0, PrivM),
     (0xC00, PrivU), (0xC80, PrivU), (0xCC0, PrivU), (0xD00, PrivS),
     (0xD80, PrivS), (0xDC0, PrivS), (0xE00, PrivV), (0xE80, PrivV),
     (0xEC0, PrivV), (0xF00, PrivM), (0xF80, PrivM), (0xFC0, PrivM)]"

section \<open>Registers\<close>

record CsrReg =
  csr_value :: u64
  write_validator :: "WriteValidator option"
  read_validator :: "ReadValidator option"

definition CsrReg_new :: "u64 \<Rightarrow> WriteValidator option \<Rightarrow> ReadValidator option \<Rightarrow> CsrReg" where
  "CsrReg_new v validator shadow_view =
     \<lparr>csr_value = v, write_validator = validator, read_validator = shadow_view\<rparr>"

definition CsrReg_validate :: "CsrReg \<Rightarrow> u64 \<Rightarrow> CsrContext \<Rightarrow> CsrWriteOp" where
  "CsrReg_validate r new_value ctx =
     (case write_validator r of
        Some validator \<Rightarrow> validator new_value ctx
      | None \<Rightarrow> new_write_all)"

definition CsrReg_write :: "CsrReg \<Rightarrow> u64 \<Rightarrow> CsrContext \<Rightarrow> CsrReg" where
  "CsrReg_write r new_value ctx =
     (case write_validator r of
        Some validator \<Rightarrow>
          r\<lparr>csr_value := get_new_value (validator new_value ctx) (csr_value r) new_value\<rparr>
      | None \<Rightarrow> r\<lparr>csr_value := new_value\<rparr>)"

definition CsrReg_write_with_mask :: "CsrReg \<Rightarrow> u64 \<Rightarrow> CsrContext \<Rightarrow> CsrWriteOp \<Rightarrow> CsrReg" where
  "CsrReg_write_with_mask r new_value ctx op =
     (case write_validator r of
        Some validator \<Rightarrow>
          r\<lparr>csr_value := get_new_value (op_and_mask (validator new_value ctx) op) (csr_value r) new_value\<rparr>
      | None \<Rightarrow> r\<lparr>csr_value := new_value\<rparr>)"

definition CsrReg_write_directly :: "CsrReg \<Rightarrow> u64 \<Rightarrow> CsrReg" where
  "CsrReg_write_directly r new_value = r\<lparr>csr_value := new_value\<rparr>"

definition CSR_SIZE :: nat where
  "CSR_SIZE = 2 ^ 12"

record CsrRegFile =
  csr_table :: "u64 \<Rightarrow> CsrReg option"
  cpl :: PrivilegeLevel
  ctx :: CsrContext

definition CsrRegFile_from :: "(u64 \<times> u64 \<times> WriteValidator) list \<Rightarrow> CsrRegFile" where
  "CsrRegFile_from entries =
     \<lparr>csr_table =
        foldl (\<lambda>t (addr, default_value, validator).
                 t(addr \<mapsto> CsrReg_new default_value (Some validator) (resolve_shadow_addr addr)))
          (\<lambda>_. None) entries,
      cpl = PrivM, ctx = CsrContext_new\<rparr>"

definition CsrRegFile_new :: CsrRegFile where
  "CsrRegFile_new = CsrRegFile_from CSR_REG_TABLE"

definition csr_store :: "u64 \<Rightarrow> CsrReg \<Rightarrow> CsrRegFile \<Rightarrow> CsrRegFile" where
  "csr_store addr r csr = csr\<lparr>csr_table := (csr_table csr)(addr \<mapsto> r)\<rparr>"

section \<open>Typed access\<close>

text \<open>
  \<open>type_addr\<close> is the register a typed handle points to; \<open>get_by_type\<close> is that register.  The
  accessors dereference the handle, so a missing register is undefined behaviour in the code and
  \<open>None\<close> here; the \<open>assert!\<close> of a setter on the range of its argument is \<open>None\<close> too.
\<close>

definition type_addr :: "u64 \<Rightarrow> u64" where
  "type_addr idx = (case resolve_shadow_addr idx of Some base \<Rightarrow> target_index base | None \<Rightarrow> idx)"

definition get_by_type :: "u64 \<Rightarrow> CsrRegFile \<Rightarrow> CsrReg option" where
  "get_by_type idx csr = csr_table csr (type_addr idx)"

definition csr_data :: "u64 \<Rightarrow> CsrRegFile \<Rightarrow> u64 option" where
  "csr_data idx csr = map_option csr_value (get_by_type idx csr)"

definition csr_set_data :: "u64 \<Rightarrow> u64 \<Rightarrow> CsrRegFile \<Rightarrow> CsrRegFile option" where
  "csr_set_data idx v csr =
     map_option (\<lambda>r. csr_store (type_addr idx) (CsrReg_write r v (ctx csr)) csr) (get_by_type idx csr)"

definition csr_set_data_directly :: "u64 \<Rightarrow> u64 \<Rightarrow> CsrRegFile \<Rightarrow> CsrRegFile option" where
  "csr_set_data_directly idx v csr =
     map_option (\<lambda>r. csr_store (type_addr idx) (CsrReg_write_directly r v) csr) (get_by_type idx csr)"

type_synonym csr_fld = "u64 \<times> nat \<times> nat"

fun csr_get :: "csr_fld \<Rightarrow> CsrRegFile \<Rightarrow> u64 option" where
  "csr_get (idx, low_bit, len) csr =
     map_option (\<lambda>r. drop_bit low_bit (csr_value r AND push_bit low_bit (BIT_ONES_ARRAY ! len)))
       (get_by_type idx csr)"

fun csr_set :: "csr_fld \<Rightarrow> u64 \<Rightarrow> CsrRegFile \<Rightarrow> CsrRegFile option" where
  "csr_set (idx, low_bit, len) v csr =
     (if \<not> v \<le> BIT_ONES_ARRAY ! len then None
      else map_option (\<lambda>r.
        let write_op = \<lparr>op_mask = push_bit low_bit (BIT_ONES_ARRAY ! len)\<rparr> in
        csr_store (type_addr idx)
          (CsrReg_write r (get_new_value write_op (csr_value r) (push_bit low_bit v)) (ctx csr)) csr)
        (get_by_type idx csr))"

fun csr_set_directly :: "csr_fld \<Rightarrow> u64 \<Rightarrow> CsrRegFile \<Rightarrow> CsrRegFile option" where
  "csr_set_directly (idx, low_bit, len) v csr =
     (if \<not> v \<le> BIT_ONES_ARRAY ! len then None
      else map_option (\<lambda>r.
        let write_op = \<lparr>op_mask = push_bit low_bit (BIT_ONES_ARRAY ! len)\<rparr> in
        csr_store (type_addr idx)
          (CsrReg_write_directly r (get_new_value write_op (csr_value r) (push_bit low_bit v))) csr)
        (get_by_type idx csr))"

lemmas csr_field_unfold = csr_get.simps csr_set.simps csr_set_directly.simps

declare csr_field_unfold [simp del]

section \<open>Access by address\<close>

text \<open>\<open>slice::binary_search_by\<close> on keys in strictly increasing order.\<close>

definition binary_search :: "u64 list \<Rightarrow> u64 \<Rightarrow> (nat, nat) result" where
  "binary_search ks x =
     (let i = length (takeWhile (\<lambda>k. k < x) ks) in
      if i < length ks \<and> ks ! i = x then Ok i else Err i)"

definition priv_table_legal :: "u64 \<Rightarrow> PrivilegeLevel \<Rightarrow> bool option" where
  "priv_table_legal csr_addr level =
     (case binary_search (map fst CSR_PRIVILEGE_TABLE) csr_addr of
        Ok i \<Rightarrow> Some (snd (CSR_PRIVILEGE_TABLE ! i) \<le> level)
      | Err i \<Rightarrow> if i = 0 then None else Some (snd (CSR_PRIVILEGE_TABLE ! (i - 1)) \<le> level))"

definition is_read_priv_legal :: "u64 \<Rightarrow> CsrRegFile \<Rightarrow> bool option" where
  "is_read_priv_legal csr_addr csr =
     (if csr_addr = 0x180 \<and> cpl csr = PrivS then
        Option.bind (csr_get (0x300, 20, 1) csr) (\<lambda>tvm.
          if tvm = 1 then Some False else priv_table_legal csr_addr (cpl csr))
      else priv_table_legal csr_addr (cpl csr))"

definition is_write_priv_legal :: "u64 \<Rightarrow> CsrRegFile \<Rightarrow> bool option" where
  "is_write_priv_legal csr_addr csr =
     (if 0xC00 \<le> csr_addr then Some False else is_read_priv_legal csr_addr csr)"

definition csr_slot :: "u64 \<Rightarrow> CsrRegFile \<Rightarrow> CsrReg option option" where
  "csr_slot addr csr = (if unat addr < CSR_SIZE then Some (csr_table csr addr) else None)"

definition csr_subfield_write :: "u64 \<Rightarrow> (u64 \<Rightarrow> u64) \<Rightarrow> CsrRegFile \<Rightarrow> CsrRegFile option" where
  "csr_subfield_write base f csr =
     map_option (\<lambda>r. csr_store base (r\<lparr>csr_value := f (csr_value r)\<rparr>) csr) (csr_table csr base)"

definition write_uncheck_privilege :: "u64 \<Rightarrow> u64 \<Rightarrow> CsrRegFile \<Rightarrow> CsrRegFile option" where
  "write_uncheck_privilege addr v csr =
     (if addr = 0x001 then csr_subfield_write 0x003 (\<lambda>x. (x AND NOT 0x1F) OR (v AND 0x1F)) csr
      else if addr = 0x002 then
        csr_subfield_write 0x003 (\<lambda>x. (x AND NOT 0xE0) OR push_bit 5 (v AND 0x7)) csr
      else if addr = 0x003 then csr_subfield_write 0x003 (\<lambda>x. v AND 0xFF) csr
      else if addr = 0x009 then csr_subfield_write 0x00f (\<lambda>x. (x AND NOT 0x1) OR (v AND 0x1)) csr
      else if addr = 0x00a then
        csr_subfield_write 0x00f (\<lambda>x. (x AND NOT 0x6) OR push_bit 1 (v AND 0x3)) csr
      else Option.bind (csr_slot addr csr) (\<lambda>entry.
        case entry of
          Some r \<Rightarrow>
            (case read_validator r of
               Some base_addr \<Rightarrow>
                 let op = CsrReg_validate r v (ctx csr) in
                 Option.bind (csr_slot (target_index base_addr) csr) (\<lambda>base_entry.
                   case base_entry of
                     Some base_csr \<Rightarrow>
                       Some (csr_store (target_index base_addr)
                               (CsrReg_write_with_mask base_csr v (ctx csr) op) csr)
                   | None \<Rightarrow> Some csr)
             | None \<Rightarrow> Some (csr_store addr (CsrReg_write r v (ctx csr)) csr))
        | None \<Rightarrow> Some csr))"

definition read_uncheck_privilege :: "u64 \<Rightarrow> CsrRegFile \<Rightarrow> u64 option option" where
  "read_uncheck_privilege addr csr =
     (if addr = 0x001 then map_option (\<lambda>r. Some (csr_value r AND 0x1F)) (csr_table csr 0x003)
      else if addr = 0x002 then
        map_option (\<lambda>r. Some (drop_bit 5 (csr_value r) AND 0x7)) (csr_table csr 0x003)
      else if addr = 0x009 then map_option (\<lambda>r. Some (csr_value r AND 0x1)) (csr_table csr 0x00f)
      else if addr = 0x00a then
        map_option (\<lambda>r. Some (drop_bit 1 (csr_value r) AND 0x3)) (csr_table csr 0x00f)
      else (case resolve_shadow_addr addr of
              Some base_addr \<Rightarrow>
                map_option (\<lambda>r. Some (csr_value r AND view_mask base_addr))
                  (csr_table csr (target_index base_addr))
            | None \<Rightarrow> map_option (map_option csr_value) (csr_slot addr csr)))"

definition read_checked :: "u64 \<Rightarrow> CsrRegFile \<Rightarrow> u64 option option" where
  "read_checked addr csr =
     Option.bind (is_read_priv_legal addr csr) (\<lambda>legal.
       if \<not> legal then Some None else read_uncheck_privilege addr csr)"

definition write_checked :: "u64 \<Rightarrow> u64 \<Rightarrow> CsrRegFile \<Rightarrow> (bool \<times> CsrRegFile) option" where
  "write_checked addr v csr =
     Option.bind (is_write_priv_legal addr csr) (\<lambda>legal.
       if \<not> legal then Some (False, csr)
       else map_option (Pair True) (write_uncheck_privilege addr v csr))"

definition csr_debug :: "u64 \<Rightarrow> u64 option \<Rightarrow> CsrRegFile \<Rightarrow> (u64 option \<times> CsrRegFile) option" where
  "csr_debug addr new_value csr =
     Option.bind (read_uncheck_privilege addr csr) (\<lambda>value.
       case new_value of
         Some v \<Rightarrow> map_option (Pair value) (write_uncheck_privilege addr v csr)
       | None \<Rightarrow> Some (value, csr))"

definition csr_write_directly :: "u64 \<Rightarrow> u64 \<Rightarrow> CsrRegFile \<Rightarrow> bool \<times> CsrRegFile" where
  "csr_write_directly addr v csr =
     (if CSR_SIZE \<le> unat addr then (False, csr)
      else (case csr_table csr addr of
              Some r \<Rightarrow> (True, csr_store addr (CsrReg_write_directly r v) csr)
            | None \<Rightarrow> (False, csr)))"

definition set_current_privileged :: "PrivilegeLevel \<Rightarrow> CsrRegFile \<Rightarrow> CsrRegFile" where
  "set_current_privileged new_level csr = csr\<lparr>cpl := new_level\<rparr>"

section \<open>Well-formed register files\<close>

definition csr_static :: "u64 \<Rightarrow> (WriteValidator option \<times> ReadValidator option) option" where
  "csr_static addr = map_option (\<lambda>d. (Some (validate_desc d), resolve_shadow_addr addr)) (desc_of addr)"

definition csr_wf :: "CsrRegFile \<Rightarrow> bool" where
  "csr_wf csr \<longleftrightarrow>
     (\<forall>a. map_option (\<lambda>r. (write_validator r, read_validator r)) (csr_table csr a) = csr_static a)"

definition csr_val :: "CsrRegFile \<Rightarrow> u64 \<Rightarrow> u64" where
  "csr_val csr a = csr_value (the (csr_table csr a))"

definition csr_put :: "u64 \<Rightarrow> u64 \<Rightarrow> CsrRegFile \<Rightarrow> CsrRegFile" where
  "csr_put a v csr = csr_store a ((the (csr_table csr a))\<lparr>csr_value := v\<rparr>) csr"

lemma csr_wf_reg:
  assumes "csr_wf csr" "desc_of a = Some d"
  shows "\<exists>r. csr_table csr a = Some r \<and> csr_value r = csr_val csr a
    \<and> write_validator r = Some (validate_desc d) \<and> read_validator r = resolve_shadow_addr a"
proof -
  have "map_option (\<lambda>r. (write_validator r, read_validator r)) (csr_table csr a) =
      Some (Some (validate_desc d), resolve_shadow_addr a)"
    using assms by (simp add: csr_wf_def csr_static_def)
  then show ?thesis by (auto simp: csr_val_def)
qed

lemma csr_wf_absent:
  assumes "csr_wf csr" "desc_of a = None"
  shows "csr_table csr a = None"
proof -
  have "map_option (\<lambda>r. (write_validator r, read_validator r)) (csr_table csr a) = None"
    using assms by (simp add: csr_wf_def csr_static_def)
  then show ?thesis by simp
qed

lemma csr_wf_put [simp]:
  assumes "desc_of a = Some d" "csr_wf csr"
  shows "csr_wf (csr_put a v csr)"
proof -
  obtain r where r: "csr_table csr a = Some r" using csr_wf_reg assms by blast
  have "map_option (\<lambda>r. (write_validator r, read_validator r)) (csr_table (csr_put a v csr) b) =
      map_option (\<lambda>r. (write_validator r, read_validator r)) (csr_table csr b)" for b
    using r by (simp add: csr_put_def csr_store_def)
  then show ?thesis using assms(2) by (simp add: csr_wf_def)
qed

lemma csr_put_simps [simp]:
  "csr_val (csr_put a v csr) b = (if b = a then v else csr_val csr b)"
  "cpl (csr_put a v csr) = cpl csr"
  "ctx (csr_put a v csr) = ctx csr"
  by (simp_all add: csr_put_def csr_store_def csr_val_def)

lemma csr_put_put [simp]: "csr_put a v (csr_put a u csr) = csr_put a v csr"
  by (simp add: csr_put_def csr_store_def)

lemma csr_put_same:
  assumes "csr_wf csr" "desc_of a = Some d"
  shows "csr_put a (csr_val csr a) csr = csr"
  using csr_wf_reg [OF assms] by (auto simp: csr_put_def csr_store_def csr_val_def fun_upd_idem)

lemma set_current_privileged_simps [simp]:
  "csr_wf (set_current_privileged p csr) = csr_wf csr"
  "csr_val (set_current_privileged p csr) a = csr_val csr a"
  "cpl (set_current_privileged p csr) = p"
  "ctx (set_current_privileged p csr) = ctx csr"
  by (simp_all add: set_current_privileged_def csr_wf_def csr_val_def)

lemma csr_eqI:
  assumes "csr_wf a" "csr_wf b" "\<And>x. desc_of x \<noteq> None \<Longrightarrow> csr_val a x = csr_val b x"
    and "cpl a = cpl b" "ctx a = ctx b"
  shows "a = b"
proof -
  have "csr_table a x = csr_table b x" for x
  proof (cases "desc_of x")
    case None
    then show ?thesis using assms csr_wf_absent by metis
  next
    case (Some d)
    then obtain r q where "csr_table a x = Some r" "csr_table b x = Some q"
        "csr_value r = csr_val a x" "csr_value q = csr_val b x"
        "write_validator r = write_validator q" "read_validator r = read_validator q"
      using csr_wf_reg [OF assms(1)] csr_wf_reg [OF assms(2)] by metis
    then show ?thesis using assms(3) [of x] Some by simp
  qed
  then have "csr_table a = csr_table b" by (rule ext)
  then show ?thesis using assms(4,5) by simp
qed

lemma foldl_map_upd_distinct:
  assumes "distinct (map f xs)"
  shows "foldl (\<lambda>t x. t(f x \<mapsto> g x)) (\<lambda>_. None) xs a = map_option g (find (\<lambda>x. f x = a) xs)"
  using assms
proof (induction xs rule: rev_induct)
  case Nil
  then show ?case by simp
next
  case (snoc x xs)
  then have "f x = a \<Longrightarrow> find (\<lambda>x. f x = a) xs = None"
    by (auto simp: find_None_iff) (metis imageI)
  moreover have "find P (xs @ [x]) = (case find P xs of None \<Rightarrow> if P x then Some x else None | Some y \<Rightarrow> Some y)" for P
    by (induction xs) auto
  ultimately show ?case using snoc by (auto split: option.splits)
qed

lemma csr_table_new:
  "csr_table CsrRegFile_new a =
     map_option (\<lambda>d. CsrReg_new (desc_default d) (Some (validate_desc d)) (resolve_shadow_addr (desc_addr d))) (desc_of a)"
  using foldl_map_upd_distinct [OF distinct_desc_addr]
  by (simp add: CsrRegFile_new_def CsrRegFile_from_def CSR_REG_TABLE_def foldl_map desc_of_def split_def)

lemma desc_of_addr: "desc_of a = Some d \<Longrightarrow> desc_addr d = a"
  by (auto simp: desc_of_def find_Some_iff)

lemma csr_wf_new: "csr_wf CsrRegFile_new"
  unfolding csr_wf_def csr_table_new csr_static_def
  by (auto simp: CsrReg_new_def desc_of_addr option.map_comp comp_def intro!: option.map_cong0 split: option.splits)

lemma cpl_new [simp]: "cpl CsrRegFile_new = PrivM"
  by (simp add: CsrRegFile_new_def CsrRegFile_from_def)

lemma csr_val_new: "desc_of a = Some d \<Longrightarrow> csr_val CsrRegFile_new a = desc_default d"
  by (simp add: csr_val_def csr_table_new CsrReg_new_def)

section \<open>Typed access to a well-formed file\<close>

lemma type_addr_simps [simp]:
  "resolve_shadow_addr idx = None \<Longrightarrow> type_addr idx = idx"
  "resolve_shadow_addr idx = Some b \<Longrightarrow> type_addr idx = target_index b"
  by (simp_all add: type_addr_def)

lemma csr_data_wf [csr_simps]:
  assumes "csr_wf csr" "desc_of (type_addr idx) = Some d"
  shows "csr_data idx csr = Some (csr_val csr (type_addr idx))"
  using csr_wf_reg [OF assms] by (auto simp: csr_data_def get_by_type_def)

lemma csr_set_data_directly_wf [csr_simps]:
  assumes "csr_wf csr" "desc_of (type_addr idx) = Some d"
  shows "csr_set_data_directly idx v csr = Some (csr_put (type_addr idx) v csr)"
  using csr_wf_reg [OF assms]
  by (auto simp: csr_set_data_directly_def get_by_type_def CsrReg_write_directly_def csr_put_def)

lemma csr_set_data_wf [csr_simps]:
  assumes "csr_wf csr" "desc_of (type_addr idx) = Some d" "write_mask (type_addr idx) v (ctx csr) = Some m"
  shows "csr_set_data idx v csr =
    Some (csr_put (type_addr idx) (get_new_value \<lparr>op_mask = m\<rparr> (csr_val csr (type_addr idx)) v) csr)"
proof -
  have "validate_desc d v (ctx csr) = \<lparr>op_mask = m\<rparr>"
    using assms by (simp add: write_mask_def)
  then show ?thesis
    using csr_wf_reg [OF assms(1,2)]
    by (auto simp: csr_set_data_def get_by_type_def CsrReg_write_def csr_put_def)
qed

lemma drop_bit_and_field:
  "drop_bit low w AND drop_bit low (push_bit low (mask len)) = field_get low len w"
  by (rule bit_word_eqI) (auto simp: bit_simps dest: bit_imp_le_length)

lemma csr_get_wf [csr_simps]:
  assumes "csr_wf csr" "desc_of (type_addr idx) = Some d" "len \<le> 64"
  shows "csr_get (idx, low, len) csr = Some (field_get low len (csr_val csr (type_addr idx)))"
  using csr_wf_reg [OF assms(1,2)] assms(3)
  by (auto simp: csr_field_unfold get_by_type_def BIT_ONES_ARRAY_nth drop_bit_and_field)

lemma csr_set_wf [csr_simps]:
  assumes "csr_wf csr" "desc_of (type_addr idx) = Some d" "len \<le> 64" "v \<le> mask len"
    and "\<And>x. write_mask (type_addr idx) x (ctx csr) = Some m" "push_bit low (mask len) AND NOT m = 0"
  shows "csr_set (idx, low, len) v csr =
    Some (csr_put (type_addr idx) (field_put low len v (csr_val csr (type_addr idx))) csr)"
proof -
  obtain r where r: "csr_table csr (type_addr idx) = Some r" "csr_value r = csr_val csr (type_addr idx)"
      "write_validator r = Some (validate_desc d)"
    using csr_wf_reg [OF assms(1,2)] by blast
  have m: "op_mask (validate_desc d x (ctx csr)) = m" for x
    using assms(2,5) by (simp add: write_mask_def)
  show ?thesis
    using r assms(3,4,6)
    by (simp add: csr_field_unfold get_by_type_def BIT_ONES_ARRAY_nth Let_def CsrReg_write_def
        get_new_value_field get_new_value_field_covered m csr_put_def)
qed

lemma csr_set_directly_wf [csr_simps]:
  assumes "csr_wf csr" "desc_of (type_addr idx) = Some d" "len \<le> 64" "v \<le> mask len"
  shows "csr_set_directly (idx, low, len) v csr =
    Some (csr_put (type_addr idx) (field_put low len v (csr_val csr (type_addr idx))) csr)"
  using csr_wf_reg [OF assms(1,2)] assms(3,4)
  by (auto simp: csr_field_unfold get_by_type_def BIT_ONES_ARRAY_nth Let_def CsrReg_write_directly_def get_new_value_field csr_put_def)

lemma csr_set_wf_all:
  assumes "csr_set f v csr = Some csr'" "csr_wf csr"
  shows "csr_wf csr' \<and> cpl csr' = cpl csr"
proof (cases f)
  case (fields idx low len)
  then obtain r where r: "csr_table csr (type_addr idx) = Some r"
      "csr' = csr_store (type_addr idx) (CsrReg_write r (get_new_value \<lparr>op_mask = push_bit low (BIT_ONES_ARRAY ! len)\<rparr> (csr_value r) (push_bit low v)) (ctx csr)) csr"
    using assms(1) by (auto simp: csr_field_unfold get_by_type_def Let_def split: if_splits)
  have "write_validator (CsrReg_write r x c) = write_validator r"
       "read_validator (CsrReg_write r x c) = read_validator r" for x c
    by (auto simp: CsrReg_write_def split: option.splits)
  then have "map_option (\<lambda>r. (write_validator r, read_validator r)) (csr_table csr' a) =
      map_option (\<lambda>r. (write_validator r, read_validator r)) (csr_table csr a)" for a
    using r by (simp add: csr_store_def)
  then show ?thesis using assms(2) r(2) by (simp add: csr_wf_def csr_store_def)
qed

section \<open>Access by address to a well-formed file\<close>

lemma desc_of_in_range: "desc_of a = Some d \<Longrightarrow> unat a < CSR_SIZE"
proof -
  assume "desc_of a = Some d"
  then have "d \<in> set csr_descs" "desc_addr d = a"
    by (auto simp: desc_of_def find_Some_iff)
  moreover have "\<forall>d \<in> set csr_descs. unat (desc_addr d) < CSR_SIZE"
    by (simp add: csr_descs_def CSR_SIZE_def)
  ultimately show ?thesis by blast
qed

definition is_alias :: "u64 \<Rightarrow> bool" where
  "is_alias a \<longleftrightarrow> a \<in> {0x001, 0x002, 0x003, 0x009, 0x00a}"

lemma read_plain:
  assumes "csr_wf csr" "desc_of a = Some d" "resolve_shadow_addr a = None" "\<not> is_alias a"
  shows "read_uncheck_privilege a csr = Some (Some (csr_val csr a))"
  using csr_wf_reg [OF assms(1,2)] assms(3,4) desc_of_in_range [OF assms(2)]
  by (auto simp: read_uncheck_privilege_def is_alias_def csr_slot_def)

lemma read_shadow:
  assumes "csr_wf csr" "resolve_shadow_addr a = Some b" "desc_of (target_index b) = Some d" "\<not> is_alias a"
  shows "read_uncheck_privilege a csr = Some (Some (csr_val csr (target_index b) AND view_mask b))"
  using csr_wf_reg [OF assms(1,3)] assms(2,4)
  by (auto simp: read_uncheck_privilege_def is_alias_def)

lemma write_plain:
  assumes "csr_wf csr" "desc_of a = Some d" "resolve_shadow_addr a = None" "\<not> is_alias a"
    and "write_mask a v (ctx csr) = Some m"
  shows "write_uncheck_privilege a v csr =
    Some (csr_put a (get_new_value \<lparr>op_mask = m\<rparr> (csr_val csr a) v) csr)"
proof -
  have "validate_desc d v (ctx csr) = \<lparr>op_mask = m\<rparr>"
    using assms by (simp add: write_mask_def)
  then show ?thesis
    using csr_wf_reg [OF assms(1,2)] assms(3,4) desc_of_in_range [OF assms(2)]
    by (auto simp: write_uncheck_privilege_def is_alias_def csr_slot_def csr_put_def CsrReg_write_def)
qed

lemma write_shadow:
  assumes "csr_wf csr" "desc_of a = Some d" "resolve_shadow_addr a = Some b"
    and "desc_of (target_index b) = Some e" "\<not> is_alias a"
    and "write_mask a v (ctx csr) = Some m" "write_mask (target_index b) v (ctx csr) = Some n"
  shows "write_uncheck_privilege a v csr =
    Some (csr_put (target_index b)
      (get_new_value \<lparr>op_mask = n AND m\<rparr> (csr_val csr (target_index b)) v) csr)"
proof -
  have "validate_desc d v (ctx csr) = \<lparr>op_mask = m\<rparr>" "validate_desc e v (ctx csr) = \<lparr>op_mask = n\<rparr>"
    using assms by (simp_all add: write_mask_def)
  then show ?thesis
    using csr_wf_reg [OF assms(1,2)] csr_wf_reg [OF assms(1,4)] assms(3,5)
      desc_of_in_range [OF assms(2)] desc_of_in_range [OF assms(4)]
    by (auto simp: write_uncheck_privilege_def is_alias_def csr_slot_def csr_put_def
        CsrReg_validate_def CsrReg_write_with_mask_def op_and_mask_def Let_def)
qed

lemma csr_subfield_write_wf [simp]:
  assumes "csr_wf csr" "desc_of a = Some d"
  shows "csr_subfield_write a f csr = Some (csr_put a (f (csr_val csr a)) csr)"
  using csr_wf_reg [OF assms] by (auto simp: csr_subfield_write_def csr_put_def)

section \<open>Access rights\<close>

lemma takeWhile_below:
  assumes "sorted ks" "k \<in> set ks" "k \<le> (x :: 'k::linorder)"
  shows "\<exists>i < length ks. ks ! i \<le> x \<and> k \<le> ks ! i \<and>
    (let n = length (takeWhile (\<lambda>k. k < x) ks) in if n < length ks \<and> ks ! n = x then i = n else n = Suc i)"
proof -
  define n where "n = length (takeWhile (\<lambda>k. k < x) ks)"
  have below: "ks ! j < x" if "j < n" for j
    using that nth_mem [of j "takeWhile (\<lambda>k. k < x) ks"] set_takeWhileD
    by (metis n_def takeWhile_nth)
  have n_le: "n \<le> length ks" by (simp add: n_def length_takeWhile_le)
  have stop: "n < length ks \<Longrightarrow> \<not> ks ! n < x"
    unfolding n_def by (rule nth_length_takeWhile)
  obtain j where j: "j < length ks" "ks ! j = k" using assms(2) by (auto simp: in_set_conv_nth)
  show ?thesis
  proof (cases "n < length ks \<and> ks ! n = x")
    case True
    then show ?thesis using assms(3) by (auto simp: n_def [symmetric])
  next
    case False
    have "j < n"
    proof (rule ccontr)
      assume "\<not> j < n"
      then have "ks ! n \<le> ks ! j" "n < length ks"
        using j assms(1) by (auto intro: sorted_nth_mono)
      then show False using False stop j assms(3) by auto
    qed
    then have "ks ! (n - 1) < x" "k \<le> ks ! (n - 1)" "n - 1 < length ks" "n = Suc (n - 1)"
      using below [of "n - 1"] j n_le assms(1) by (auto intro: sorted_nth_mono)
    then show ?thesis using False
      by (intro exI [of _ "n - 1"]) (auto simp: n_def [symmetric])
  qed
qed

lemma priv_table_facts:
  "sorted (map fst CSR_PRIVILEGE_TABLE)"
  "\<forall>(k, l) \<in> set CSR_PRIVILEGE_TABLE. priv_code l = unat (take_bit 2 (drop_bit 8 k))"
  by (simp_all add: CSR_PRIVILEGE_TABLE_def take_bit_eq_mask mask_eq_exp_minus_1)

lemma priv_table_blocks:
  assumes "(b :: nat) < 16"
  shows "of_nat (256 * b) \<in> set (map fst CSR_PRIVILEGE_TABLE)"
proof -
  have "\<forall>b \<in> {0, 1, 2, 3, 4, 5, 6, 7, 8, 9, 10, 11, 12, 13, 14, 15 :: nat}.
      of_nat (256 * b) \<in> set (map fst CSR_PRIVILEGE_TABLE)"
    by (simp add: CSR_PRIVILEGE_TABLE_def)
  moreover have "b \<in> {0, 1, 2, 3, 4, 5, 6, 7, 8, 9, 10, 11, 12, 13, 14, 15}"
    using assms by (simp; presburger)
  ultimately show ?thesis by blast
qed

lemma priv_table_legal_iff:
  assumes "unat a < 4096"
  shows "priv_table_legal a level = Some (unat (take_bit 2 (drop_bit 8 a)) \<le> priv_code level)"
proof -
  let ?ks = "map fst CSR_PRIVILEGE_TABLE"
  define b where "b = unat a div 256"
  have b: "of_nat (256 * b) \<in> set ?ks" by (rule priv_table_blocks) (use assms in \<open>simp add: b_def\<close>)
  have ub: "unat (of_nat (256 * b) :: u64) = 256 * b"
    using assms by (simp only: unsigned_of_nat) (simp add: b_def take_bit_nat_eq_self)
  then have "of_nat (256 * b) \<le> a"
    unfolding word_le_nat_alt by (simp add: b_def)
  then obtain i where i: "i < length ?ks" "?ks ! i \<le> a" "of_nat (256 * b) \<le> ?ks ! i"
      "let n = length (takeWhile (\<lambda>k. k < a) ?ks) in if n < length ?ks \<and> ?ks ! n = a then i = n else n = Suc i"
    using takeWhile_below [OF priv_table_facts(1) b] by blast
  have "256 * b \<le> unat (?ks ! i)" "unat (?ks ! i) \<le> unat a"
    using i(2,3) ub by (simp_all add: word_le_nat_alt)
  then have blk: "unat (?ks ! i) div 256 = unat a div 256"
    by (auto simp: b_def)
  have lt: "unat w < 18446744073709551616" for w :: u64
    using unsigned_less [of w] by simp
  have code: "unat (take_bit 2 (drop_bit 8 w)) = unat w div 256 mod 4" for w :: u64
    using lt [of w] by (simp only: unsigned_take_bit_eq unsigned_drop_bit_eq) (simp add: take_bit_eq_mod drop_bit_eq_div)
  have "CSR_PRIVILEGE_TABLE ! i \<in> set CSR_PRIVILEGE_TABLE" using i(1) by simp
  then have "priv_code (snd (CSR_PRIVILEGE_TABLE ! i)) = unat (take_bit 2 (drop_bit 8 (?ks ! i)))"
    using priv_table_facts(2) i(1) by (auto simp: split_def)
  then have "priv_code (snd (CSR_PRIVILEGE_TABLE ! i)) = unat (take_bit 2 (drop_bit 8 a))"
    using blk by (simp add: code)
  moreover have "priv_table_legal a level = Some (snd (CSR_PRIVILEGE_TABLE ! i) \<le> level)"
    using i(4) by (auto simp: priv_table_legal_def binary_search_def Let_def split: if_splits)
  ultimately show ?thesis by (simp add: less_eq_PrivilegeLevel_def)
qed

text \<open>
  C29.  For every 12-bit register number the table search grants a read exactly when the current
  privilege is at least the level in bits 9 and 8 of the number, except that \<open>satp\<close> is
  closed to S-mode while \<open>mstatus.TVM\<close> is set; a write is granted under the same condition and only
  when the number is below \<open>0xC00\<close>, the read-only quarter.
\<close>

theorem csr_access_rights:
  assumes "csr_wf csr" "unat a < 4096"
  shows "is_read_priv_legal a csr =
      Some (unat (take_bit 2 (drop_bit 8 a)) \<le> priv_code (cpl csr)
        \<and> \<not> (a = 0x180 \<and> cpl csr = PrivS \<and> bit (csr_val csr 0x300) 20))
    \<and> is_write_priv_legal a csr =
      Some (unat (take_bit 2 (drop_bit 8 a)) \<le> priv_code (cpl csr) \<and> a < 0xC00
        \<and> \<not> (a = 0x180 \<and> cpl csr = PrivS \<and> bit (csr_val csr 0x300) 20))"
proof -
  have "csr_get (0x300, 20, 1) csr = Some (of_bool (bit (csr_val csr 0x300) 20))"
    using assms(1) by (simp add: csr_simps)
  then show ?thesis using priv_table_legal_iff [OF assms(2)]
    by (auto simp: is_read_priv_legal_def is_write_priv_legal_def)
qed

theorem csr_access_rights_witness:
  "is_read_priv_legal 0x300 CsrRegFile_new = Some True \<and> is_write_priv_legal 0xF14 CsrRegFile_new = Some False"
proof -
  have "unat (take_bit 2 (drop_bit 8 (0x300 :: u64))) = 3" "\<not> (0xF14 :: u64) < 0xC00"
    by (simp_all add: take_bit_eq_mask mask_eq_exp_minus_1)
  moreover have "cpl CsrRegFile_new = PrivM"
    by (simp add: CsrRegFile_new_def CsrRegFile_from_def)
  ultimately show ?thesis
    using csr_access_rights [OF csr_wf_new, of "0x300"] csr_access_rights [OF csr_wf_new, of "0xF14"] by simp
qed

section \<open>What a write can change\<close>

lemma shadow_targets:
  assumes "resolve_shadow_addr a = Some b"
  shows "a \<in> {0xC00, 0xC02, 0x100, 0x104, 0x144}"
proof (rule ccontr)
  assume no: "a \<notin> {0xC00, 0xC02, 0x100, 0x104, 0x144}"
  obtain d where d: "desc_of a = Some d" "resolve_shadow_desc d \<noteq> None"
    using assms by (auto simp: resolve_shadow_desc_of bind_eq_Some_conv)
  then have "d \<in> set csr_descs" "desc_addr d = a" by (auto simp: desc_of_def find_Some_iff)
  then have "d \<in> set (filter (\<lambda>d. desc_addr d \<notin> {0xC00, 0xC02, 0x100, 0x104, 0x144}) csr_descs)"
    using no by simp
  then have "shadow_of d = None"
    by (auto simp: csr_descs_def desc_defs)
  then show False using d(2) by (simp add: resolve_shadow_desc_def)
qed

lemma get_new_value_outside:
  "m AND n = m \<Longrightarrow> get_new_value \<lparr>op_mask = m\<rparr> old v AND NOT n = old AND NOT n"
proof -
  assume "m AND n = m"
  then have "bit m k \<Longrightarrow> bit n k" for k by (metis bit_and_iff)
  then show ?thesis by (intro bit_word_eqI) (auto simp: get_new_value_def bit_simps)
qed

definition frozen_bits :: "CsrRegFile \<Rightarrow> CsrRegFile \<Rightarrow> u64 \<Rightarrow> u64 \<Rightarrow> bool" where
  "frozen_bits csr csr' v b \<longleftrightarrow>
     (\<forall>m. write_mask b v (ctx csr) = Some m \<longrightarrow> csr_val csr' b AND NOT m = csr_val csr b AND NOT m)"

lemma frozen_put:
  assumes "\<And>m. write_mask a v (ctx csr) = Some m \<Longrightarrow> x AND NOT m = csr_val csr a AND NOT m"
  shows "frozen_bits csr (csr_put a x csr) v b"
  using assms by (simp add: frozen_bits_def)

text \<open>The bits of \<open>fcsr\<close> that belong to no field: cleared by a write to \<open>fcsr\<close> itself and kept by every other write.\<close>

definition fcsr_upper :: "u64 \<Rightarrow> CsrRegFile \<Rightarrow> CsrRegFile \<Rightarrow> bool" where
  "fcsr_upper a csr csr' \<longleftrightarrow>
     csr_val csr' 0x003 AND NOT 0xFF = (if a = 0x003 then 0 else csr_val csr 0x003 AND NOT 0xFF)"

lemma fcsr_upper_put:
  "a \<noteq> 0x003 \<Longrightarrow> b \<noteq> 0x003 \<Longrightarrow> fcsr_upper a csr (csr_put b x csr)"
  "fcsr_upper 0x001 csr (csr_put 0x003 (csr_val csr 0x003 AND NOT 0x1F OR v AND 0x1F) csr)"
  "fcsr_upper 0x002 csr (csr_put 0x003 (csr_val csr 0x003 AND NOT 0xE0 OR push_bit 5 (v AND 7)) csr)"
  "fcsr_upper 0x003 csr (csr_put 0x003 (v AND 0xFF) csr)"
proof -
  show "fcsr_upper 0x001 csr (csr_put 0x003 (csr_val csr 0x003 AND NOT 0x1F OR v AND 0x1F) csr)"
    using get_new_value_outside [of "0x1F" "0xFF" "csr_val csr 0x003" v] by (simp add: fcsr_upper_def get_new_value_def)
  show "fcsr_upper 0x002 csr (csr_put 0x003 (csr_val csr 0x003 AND NOT 0xE0 OR push_bit 5 (v AND 7)) csr)"
    using get_new_value_outside [of "0xE0" "0xFF" "csr_val csr 0x003" "push_bit 5 v"]
    by (simp add: fcsr_upper_def get_new_value_def push_bit_and)
qed (simp_all add: fcsr_upper_def ac_simps)

lemma write_uncheck_effect:
  assumes wf: "csr_wf csr" and a: "unat a < 4096"
  shows "\<exists>csr'. write_uncheck_privilege a v csr = Some csr' \<and> csr_wf csr' \<and> cpl csr' = cpl csr
    \<and> ctx csr' = ctx csr \<and> (\<forall>b. b \<noteq> 0x003 \<longrightarrow> frozen_bits csr csr' v b) \<and> fcsr_upper a csr csr'"
proof (cases "is_alias a")
  case True
  have "frozen_bits csr (csr_put 0x003 x csr) v b" if "b \<noteq> 0x003" for b x
    using that by (simp add: frozen_bits_def)
  moreover have "frozen_bits csr (csr_put 0x00f (csr_val csr 0x00f AND NOT 1 OR v AND 1) csr) v b" for b
    by (rule frozen_put) (use get_new_value_outside [of 1 7 "csr_val csr 0x00f" v] in \<open>simp add: get_new_value_def\<close>)
  moreover have "frozen_bits csr (csr_put 0x00f (csr_val csr 0x00f AND NOT 6 OR push_bit 1 (v AND 3)) csr) v b" for b
    by (rule frozen_put)
      (use get_new_value_outside [of 6 7 "csr_val csr 0x00f" "push_bit 1 v"] in \<open>simp add: get_new_value_def push_bit_and\<close>)
  ultimately show ?thesis using wf True fcsr_upper_put
    by (auto simp: is_alias_def write_uncheck_privilege_def)
next
  case na: False
  then have a3: "a \<noteq> 0x003" by (auto simp: is_alias_def)
  show ?thesis
  proof (cases "desc_of a")
    case None
    then have "write_uncheck_privilege a v csr = Some csr"
      using na a csr_wf_absent [OF wf None]
      by (auto simp: write_uncheck_privilege_def is_alias_def csr_slot_def CSR_SIZE_def)
    then show ?thesis using wf a3 by (simp add: frozen_bits_def fcsr_upper_def)
  next
    case (Some d)
    then obtain m where m: "write_mask a v (ctx csr) = Some m" by (simp add: write_mask_def)
    show ?thesis
    proof (cases "resolve_shadow_addr a")
      case None
      have "frozen_bits csr (csr_put a (get_new_value \<lparr>op_mask = m\<rparr> (csr_val csr a) v) csr) v b" for b
        by (rule frozen_put) (use m in \<open>simp add: get_new_value_outside\<close>)
      then show ?thesis
        using write_plain [OF wf Some None na m] wf Some a3 fcsr_upper_put(1) by auto
    next
      case (Some sh)
      obtain e n where e: "desc_of (target_index sh) = Some e" "write_mask (target_index sh) v (ctx csr) = Some n"
        using shadow_targets [OF Some] Some by (auto simp: write_mask_def)
      have nm: "(n AND m) AND n = n AND m" by (simp add: ac_simps)
      have "frozen_bits csr (csr_put (target_index sh) (get_new_value \<lparr>op_mask = n AND m\<rparr>
          (csr_val csr (target_index sh)) v) csr) v b" for b
        by (intro frozen_put) (use e get_new_value_outside [OF nm] in auto)
      moreover have "target_index sh \<noteq> 0x003" using shadow_targets [OF Some] Some by auto
      ultimately show ?thesis
        using write_shadow [OF wf \<open>desc_of a = Some d\<close> Some e(1) na m e(2)] wf e a3 fcsr_upper_put(1) by auto
    qed
  qed
qed

text \<open>
  C28.  A write to any 12-bit register number of a well-formed register file returns, keeps the
  file well formed and the privilege level, and changes no bit that the validator of the
  register declares read-only, in every register but \<open>fcsr\<close>: \<open>misa\<close>, \<open>vtype\<close> and the machine
  identification registers keep their values, and so do the fields XS, UXL and SXL of \<open>mstatus\<close>.
  The bits of \<open>fcsr\<close> outside its eight are the exception: a write to \<open>fcsr\<close> clears them, and every
  other write keeps them.
\<close>

theorem write_keeps_readonly:
  assumes "csr_wf csr" "unat a < 4096"
  shows "\<exists>csr'. write_uncheck_privilege a v csr = Some csr' \<and> csr_wf csr' \<and> cpl csr' = cpl csr
    \<and> (\<forall>b m. b \<noteq> 0x003 \<longrightarrow> write_mask b v (ctx csr) = Some m \<longrightarrow>
          csr_val csr' b AND NOT m = csr_val csr b AND NOT m)
    \<and> csr_val csr' 0x003 AND NOT 0xFF = (if a = 0x003 then 0 else csr_val csr 0x003 AND NOT 0xFF)
    \<and> (\<forall>b \<in> {0x301, 0x320, 0xc21, 0xF11, 0xF12, 0xF13, 0xF14}. csr_val csr' b = csr_val csr b)
    \<and> field_get 15 2 (csr_val csr' 0x300) = field_get 15 2 (csr_val csr 0x300)
    \<and> field_get 32 4 (csr_val csr' 0x300) = field_get 32 4 (csr_val csr 0x300)"
proof -
  obtain csr' where w: "write_uncheck_privilege a v csr = Some csr'" "csr_wf csr'" "cpl csr' = cpl csr"
      "csr_val csr' 0x003 AND NOT 0xFF = (if a = 0x003 then 0 else csr_val csr 0x003 AND NOT 0xFF)"
      and fr: "\<And>b. b \<noteq> 0x003 \<Longrightarrow> frozen_bits csr csr' v b"
    using write_uncheck_effect [OF assms] unfolding fcsr_upper_def by blast
  have out: "csr_val csr' b AND NOT m = csr_val csr b AND NOT m"
    if "b \<noteq> 0x003" "write_mask b v (ctx csr) = Some m" for b m
    using fr [OF that(1)] that(2) by (simp add: frozen_bits_def)
  have ro: "csr_val csr' b = csr_val csr b" if "write_mask b v (ctx csr) = Some 0" "b \<noteq> 0x003" for b
    using out [OF that(2,1)] by simp
  have f: "field_get low len x = field_get low len (x AND NOT w)"
    if "push_bit low (mask len) AND w = 0" for low len x and w :: u64
  proof (rule bit_word_eqI)
    fix k
    have "bit (push_bit low (mask len) AND w) (low + k) = False"
      using that by simp
    then show "bit (field_get low len x) k = bit (field_get low len (x AND NOT w)) k"
      by (auto simp: bit_field_get bit_and_iff bit_not_iff bit_push_bit_iff bit_mask_iff dest: bit_imp_le_length)
  qed
  have "csr_val csr' 0x300 AND NOT 0x800007f001fe7fea = csr_val csr 0x300 AND NOT 0x800007f001fe7fea"
    by (rule out) simp_all
  then have "field_get low len (csr_val csr' 0x300) = field_get low len (csr_val csr 0x300)"
    if "push_bit low (mask len) AND (0x800007f001fe7fea :: u64) = 0" for low len
    using f [OF that, of "csr_val csr' 0x300"] f [OF that, of "csr_val csr 0x300"] by simp
  moreover have "push_bit 15 (mask 2) AND (0x800007f001fe7fea :: u64) = 0"
      "push_bit 32 (mask 4) AND (0x800007f001fe7fea :: u64) = 0"
    by (simp_all add: mask_eq_exp_minus_1)
  moreover have "\<forall>b \<in> {0x301, 0x320, 0xc21, 0xF11, 0xF12, 0xF13, 0xF14}. csr_val csr' b = csr_val csr b"
    by (auto intro: ro)
  ultimately show ?thesis using w out by blast
qed

theorem write_keeps_readonly_witness:
  "\<exists>csr'. write_uncheck_privilege 0x300 0xFFFFFFFFFFFFFFFF CsrRegFile_new = Some csr' \<and> csr_wf csr'
     \<and> field_get 32 4 (csr_val csr' 0x300) = field_get 32 4 (csr_val CsrRegFile_new 0x300)"
  using write_keeps_readonly [OF csr_wf_new, of "0x300" "0xFFFFFFFFFFFFFFFF"] by auto

text \<open>
  \<open>sstatus\<close> is a view of \<open>mstatus\<close>: a write through it changes exactly the supervisor fields
  of \<open>mstatus\<close> that both registers declare writable and leaves every machine-level field alone,
  and a read through it returns the fields of \<open>mstatus\<close> it shows and zero elsewhere.
\<close>

theorem sstatus_view:
  assumes "csr_wf csr"
  shows "\<exists>csr'. write_uncheck_privilege 0x100 v csr = Some csr'
    \<and> csr_val csr' 0x300 = (csr_val csr 0x300 AND NOT 0x80000000018C6762) OR (v AND 0x80000000018C6762)
    \<and> (\<forall>b. b \<noteq> 0x300 \<longrightarrow> csr_val csr' b = csr_val csr b)
    \<and> read_uncheck_privilege 0x100 csr' = Some (Some (csr_val csr' 0x300 AND 0x80000003018DE762))"
proof -
  have w: "write_uncheck_privilege 0x100 v csr =
      Some (csr_put 0x300 (get_new_value \<lparr>op_mask = 0x80000000018C6762\<rparr> (csr_val csr 0x300) v) csr)"
    using write_shadow [OF assms, of "0x100"] by (simp add: is_alias_def)
  have "read_uncheck_privilege 0x100 c = Some (Some (csr_val c 0x300 AND 0x80000003018DE762))" if "csr_wf c" for c
    using read_shadow [OF that, of "0x100"] by (simp add: is_alias_def)
  then show ?thesis using w assms by (simp add: get_new_value_def)
qed

theorem sstatus_view_witness:
  "\<exists>csr'. write_uncheck_privilege 0x100 0xFFFF CsrRegFile_new = Some csr'
    \<and> read_uncheck_privilege 0x100 csr' = Some (Some (csr_val csr' 0x300 AND 0x80000003018DE762))"
  using sstatus_view [OF csr_wf_new, of "0xFFFF"] by blast

text \<open>
  \<open>fflags\<close> and \<open>frm\<close> are the two parts of \<open>fcsr\<close>: a write to one of them is read back
  truncated to its width, leaves the other as it was, and shows up in \<open>fcsr\<close> at its place.
\<close>

theorem fcsr_parts:
  assumes "csr_wf csr"
  shows "\<exists>c1 c2. write_uncheck_privilege 0x001 flags csr = Some c1 \<and> write_uncheck_privilege 0x002 rm c1 = Some c2
    \<and> read_uncheck_privilege 0x001 c2 = Some (Some (take_bit 5 flags))
    \<and> read_uncheck_privilege 0x002 c2 = Some (Some (take_bit 3 rm))
    \<and> read_uncheck_privilege 0x002 c1 = read_uncheck_privilege 0x002 csr
    \<and> take_bit 8 (csr_val c2 0x003) = take_bit 5 flags OR push_bit 5 (take_bit 3 rm)"
proof -
  have m: "(0x1F :: u64) = mask 5" "(0xE0 :: u64) = push_bit 5 (mask 3)" "(7 :: u64) = mask 3"
    by (simp_all add: mask_eq_exp_minus_1)
  have r: "read_uncheck_privilege 0x001 c = Some (Some (csr_val c 0x003 AND mask 5))"
      "read_uncheck_privilege 0x002 c = Some (Some (drop_bit 5 (csr_val c 0x003) AND mask 3))" if "csr_wf c" for c
    using csr_wf_reg [OF that, of "0x003"] by (auto simp: read_uncheck_privilege_def m)
  let ?x1 = "(csr_val csr 0x003 AND NOT (mask 5)) OR (flags AND mask 5)"
  let ?x2 = "(?x1 AND NOT (push_bit 5 (mask 3))) OR push_bit 5 (rm AND mask 3)"
  have "write_uncheck_privilege 0x001 flags csr = Some (csr_put 0x003 ?x1 csr)"
    using assms by (simp add: write_uncheck_privilege_def m)
  moreover have "write_uncheck_privilege 0x002 rm (csr_put 0x003 ?x1 csr) = Some (csr_put 0x003 ?x2 csr)"
    using assms by (simp add: write_uncheck_privilege_def m)
  moreover have "?x2 AND mask 5 = take_bit 5 flags" "drop_bit 5 ?x2 AND mask 3 = take_bit 3 rm"
      "drop_bit 5 ?x1 AND mask 3 = drop_bit 5 (csr_val csr 0x003) AND mask 3"
      "take_bit 8 ?x2 = take_bit 5 flags OR push_bit 5 (take_bit 3 rm)"
    by (rule bit_word_eqI; auto simp: bit_simps)+
  ultimately show ?thesis using assms by (simp add: r)
qed

theorem fcsr_parts_witness:
  "\<exists>c1 c2. write_uncheck_privilege 0x001 0x3F CsrRegFile_new = Some c1 \<and> write_uncheck_privilege 0x002 4 c1 = Some c2
    \<and> read_uncheck_privilege 0x001 c2 = Some (Some 0x1F)"
  using fcsr_parts [OF csr_wf_new, of "0x3F" 4] by (auto simp: take_bit_eq_mask mask_eq_exp_minus_1)

text \<open>
  A write to \<open>mtvec\<close> always replaces the base; it replaces the mode bits only when the low
  three bits of the value are at most 1, because the validator of the mode field ranges over
  bits 0 to 2.  A value such as \<open>0x80000005\<close> (vectored, base \<open>0x80000004\<close>) keeps the old mode.
\<close>

theorem mtvec_write:
  assumes "csr_wf csr"
  shows "\<exists>csr'. write_uncheck_privilege 0x305 v csr = Some csr'
    \<and> field_get 2 62 (csr_val csr' 0x305) = field_get 2 62 v
    \<and> field_get 0 2 (csr_val csr' 0x305) =
        (if field_get 0 3 v \<le> 1 then field_get 0 2 v else field_get 0 2 (csr_val csr 0x305))"
proof -
  let ?m = "if field_get 0 3 v \<le> 1 then - 1 else NOT (3 :: u64)"
  have "op_mask (validate_desc Mtvec_desc v (ctx csr)) = ?m"
    by (simp add: Mtvec_desc_def validate_unfold validate_range_def validate_with_cond_def RangeCond_def
        extract_range_eq field_get_def Let_def)
  then have "write_mask 0x305 v (ctx csr) = Some ?m" by (simp add: write_mask_def)
  then have "write_uncheck_privilege 0x305 v csr =
      Some (csr_put 0x305 (get_new_value \<lparr>op_mask = ?m\<rparr> (csr_val csr 0x305) v) csr)"
    by (intro write_plain [OF assms]) (simp_all add: is_alias_def)
  moreover have three: "(3 :: u64) = mask 2" by (simp add: mask_eq_exp_minus_1)
  have "field_get 2 62 (get_new_value \<lparr>op_mask = NOT 3\<rparr> x v) = field_get 2 62 v"
       "field_get 0 2 (get_new_value \<lparr>op_mask = NOT 3\<rparr> x v) = field_get 0 2 x" for x
    unfolding three by (rule bit_word_eqI; auto simp: get_new_value_def bit_simps)+
  moreover have "get_new_value \<lparr>op_mask = - 1\<rparr> x v = v" for x by (simp add: get_new_value_def)
  ultimately show ?thesis by (auto split: if_splits)
qed

theorem mtvec_write_witness:
  "\<exists>csr'. write_uncheck_privilege 0x305 0x80000005 CsrRegFile_new = Some csr'
    \<and> field_get 0 2 (csr_val csr' 0x305) = field_get 0 2 (csr_val CsrRegFile_new 0x305)"
proof -
  have "field_get 0 3 0x80000005 = 5" "\<not> (5 :: u64) \<le> 1"
    by (simp_all add: field_get_def take_bit_eq_mask mask_eq_exp_minus_1 word_le_nat_alt)
  then show ?thesis
    using mtvec_write [OF csr_wf_new, of "0x80000005"] by auto
qed

end
