(* ===== verification/Alu.thy ===== *)
theory Alu
  imports TrapCause "HOL-Library.Signed_Division"
begin

text \<open>
  The calculators of \<open>src/isa/riscv/instruction/exec_function.rs\<close>: the types that implement
  \<open>ExecTrait\<close> and \<open>ExecUnaryTrait\<close>, and those of \<open>exec_atomic_function.rs\<close> that implement
  \<open>AMOTrait\<close>.  Signed intermediate values of the code are \<open>i128\<close>, wide enough that no product or
  quotient of 64-bit operands leaves them, and are integers here; \<open>sdiv\<close> and \<open>smod\<close> are
  the truncating division and remainder of \<open>wrapping_div\<close> and \<open>wrapping_rem\<close>.  An atomic calculator gives
  the value it returns and the value it leaves in memory.
\<close>

section \<open>Arithmetic\<close>

type_synonym ('w, 'r) exec_fun = "'w \<Rightarrow> 'w \<Rightarrow> ('r, Exception) result"

definition ExecAdd :: "('a::len word, 'a word) exec_fun" where
  "ExecAdd a b = Ok (a + b)"

definition ExecSub :: "('a::len word, 'a word) exec_fun" where
  "ExecSub a b = Ok (a - b)"

definition ExecRevSub :: "('a::len word, 'a word) exec_fun" where
  "ExecRevSub a b = Ok (b - a)"

definition ExecMulLow :: "('a::len word, 'a word) exec_fun" where
  "ExecMulLow a b = Ok (a * b)"

definition ExecMulHighUnsigned :: "('a::len word, 'a word) exec_fun" where
  "ExecMulHighUnsigned a b = Ok (word_of_int (drop_bit LENGTH('a) (uint a * uint b)))"

definition ExecMulHighSigned :: "('a::len word, 'a word) exec_fun" where
  "ExecMulHighSigned a b =
     (let product = as_signed_i128 a * as_signed_i128 b in
      Ok (from_signed_i128 (drop_bit LENGTH('a) product)))"

definition ExecMulHighSignedUnsigned :: "('a::len word, 'a word) exec_fun" where
  "ExecMulHighSignedUnsigned a b =
     (let product = as_signed_i128 a * uint b in
      Ok (from_signed_i128 (drop_bit LENGTH('a) product)))"

definition ExecDivSigned :: "('a::len word, 'a word) exec_fun" where
  "ExecDivSigned a b =
     (if b = 0 then Ok (- 1) else Ok (from_signed_i128 (as_signed_i128 a sdiv as_signed_i128 b)))"

definition ExecDivUnsigned :: "('a::len word, 'a word) exec_fun" where
  "ExecDivUnsigned a b = (if b = 0 then Ok (- 1) else Ok (a div b))"

definition ExecRemSigned :: "('a::len word, 'a word) exec_fun" where
  "ExecRemSigned a b =
     (if b = 0 then Ok a else Ok (from_signed_i128 (as_signed_i128 a smod as_signed_i128 b)))"

definition ExecRemUnsigned :: "('a::len word, 'a word) exec_fun" where
  "ExecRemUnsigned a b = (if b = 0 then Ok a else Ok (a mod b))"

section \<open>Arithmetic on the low word\<close>

definition ExecAddw :: "('a::len word, u64) exec_fun" where
  "ExecAddw a b = Ok (sign_extend_u32 (ucast a + ucast b))"

definition ExecSubw :: "('a::len word, u64) exec_fun" where
  "ExecSubw a b = Ok (sign_extend_u32 (ucast a - ucast b))"

definition ExecMulw :: "('a::len word, u64) exec_fun" where
  "ExecMulw a b = Ok (sign_extend_u32 (ucast a * ucast b))"

definition ExecDivw :: "('a::len word, u64) exec_fun" where
  "ExecDivw a b =
     (let sa = sint (ucast a :: u32); sb = sint (ucast b :: u32) in
      if sb = 0 then Ok (- 1) else Ok (sign_extend_u32 (word_of_int (sa sdiv sb))))"

definition ExecRemw :: "('a::len word, u64) exec_fun" where
  "ExecRemw a b =
     (let sa = sint (ucast a :: u32); sb = sint (ucast b :: u32) in
      if sb = 0 then Ok (sign_extend_u32 (ucast a)) else Ok (sign_extend_u32 (word_of_int (sa smod sb))))"

definition ExecDivuw :: "('a::len word, u64) exec_fun" where
  "ExecDivuw a b =
     (let sa = (ucast a :: u32); sb = (ucast b :: u32) in
      if sb = 0 then Ok (- 1) else Ok (sign_extend_u32 (sa div sb)))"

definition ExecRemuw :: "('a::len word, u64) exec_fun" where
  "ExecRemuw a b =
     (let sa = (ucast a :: u32); sb = (ucast b :: u32) in
      if sb = 0 then Ok (sign_extend_u32 sa) else Ok (sign_extend_u32 (sa mod sb)))"

section \<open>Shifts and bits\<close>

definition ExecSLL :: "('a::len word, 'a word) exec_fun" where
  "ExecSLL a b = Ok (push_bit (shift_amount b) a)"

definition ExecSRL :: "('a::len word, 'a word) exec_fun" where
  "ExecSRL a b = Ok (drop_bit (shift_amount b) a)"

definition ExecSRA :: "('a::len word, 'a word) exec_fun" where
  "ExecSRA a b = Ok (from_signed_i128 (drop_bit (shift_amount b) (as_signed_i128 a)))"

definition ExecSLLW :: "('a::len word, u64) exec_fun" where
  "ExecSLLW a b = Ok (sign_extend_u32 (push_bit (unat (ucast b AND 0x1F :: u32)) (ucast a)))"

definition ExecSRLW :: "('a::len word, u64) exec_fun" where
  "ExecSRLW a b = Ok (sign_extend_u32 (drop_bit (unat (ucast b AND 0x1F :: u32)) (ucast a)))"

definition ExecSRAW :: "('a::len word, u64) exec_fun" where
  "ExecSRAW a b =
     (let a = as_signed_i128 (ucast a :: u32); shamt = unat (ucast b AND 0x1F :: u32) in
      Ok (sign_extend_u32 (word_of_int (drop_bit shamt a))))"

definition ExecZext :: "'a::len word \<Rightarrow> ('b::len word, Exception) result" where
  "ExecZext a = Ok (ucast a)"

definition ExecSext :: "'a::len word \<Rightarrow> ('b::len word, Exception) result" where
  "ExecSext a = Ok (from_signed_i128 (as_signed_i128 a))"

definition ExecNsrl :: "('a::len word, 'b::len word) exec_fun" where
  "ExecNsrl a b = Ok (ucast (drop_bit (shift_amount b) a))"

definition ExecNsra :: "('a::len word, 'b::len word) exec_fun" where
  "ExecNsra a b = Ok (from_signed_i128 (drop_bit (shift_amount b) (as_signed_i128 a)))"

definition ExecAnd :: "('a::len word, 'a word) exec_fun" where
  "ExecAnd a b = Ok (a AND b)"

definition ExecNand :: "('a::len word, 'a word) exec_fun" where
  "ExecNand a b = Ok (NOT (a AND b))"

definition ExecAndn :: "('a::len word, 'a word) exec_fun" where
  "ExecAndn a b = Ok (a AND NOT b)"

definition ExecOr :: "('a::len word, 'a word) exec_fun" where
  "ExecOr a b = Ok (a OR b)"

definition ExecNor :: "('a::len word, 'a word) exec_fun" where
  "ExecNor a b = Ok (NOT (a OR b))"

definition ExecOrn :: "('a::len word, 'a word) exec_fun" where
  "ExecOrn a b = Ok (a OR NOT b)"

definition ExecXor :: "('a::len word, 'a word) exec_fun" where
  "ExecXor a b = Ok (a XOR b)"

definition ExecXnor :: "('a::len word, 'a word) exec_fun" where
  "ExecXnor a b = Ok (NOT (a XOR b))"

section \<open>Comparisons\<close>

definition ExecMax :: "('a::len word, 'a word) exec_fun" where
  "ExecMax a b = (if as_signed_i128 a > as_signed_i128 b then Ok a else Ok b)"

definition ExecMaxu :: "('a::len word, 'a word) exec_fun" where
  "ExecMaxu a b = Ok (max a b)"

definition ExecMin :: "('a::len word, 'a word) exec_fun" where
  "ExecMin a b = (if as_signed_i128 a < as_signed_i128 b then Ok a else Ok b)"

definition ExecMinu :: "('a::len word, 'a word) exec_fun" where
  "ExecMinu a b = Ok (min a b)"

type_synonym 'w cond_fun = "'w \<Rightarrow> 'w \<Rightarrow> bool"

definition ExecSignedLess :: "'a::len word cond_fun" where
  "ExecSignedLess a b \<longleftrightarrow> as_signed_i128 a < as_signed_i128 b"

definition ExecUnsignedLess :: "'a::len word cond_fun" where
  "ExecUnsignedLess a b \<longleftrightarrow> a < b"

definition ExecEqual :: "'a::len word cond_fun" where
  "ExecEqual a b \<longleftrightarrow> a = b"

definition ExecNotEqual :: "'a::len word cond_fun" where
  "ExecNotEqual a b \<longleftrightarrow> a \<noteq> b"

definition ExecSignedGreatEqual :: "'a::len word cond_fun" where
  "ExecSignedGreatEqual a b \<longleftrightarrow> as_signed_i128 a \<ge> as_signed_i128 b"

definition ExecUnsignedGreatEqual :: "'a::len word cond_fun" where
  "ExecUnsignedGreatEqual a b \<longleftrightarrow> a \<ge> b"

text \<open>The second implementation of the two orders gives the truth value as a word.\<close>

definition ExecSignedLess_word :: "('a::len word, 'a word) exec_fun" where
  "ExecSignedLess_word a b = Ok (of_bool (as_signed_i128 a < as_signed_i128 b))"

definition ExecUnsignedLess_word :: "('a::len word, 'a word) exec_fun" where
  "ExecUnsignedLess_word a b = Ok (of_bool (a < b))"

section \<open>Atomic memory operations\<close>

type_synonym 'w amo_fun = "'w \<Rightarrow> 'w \<Rightarrow> ('w, Exception) result \<times> 'w"

definition ExecAmoAdd :: "'a::len word amo_fun" where
  "ExecAmoAdd lhs rhs = (Ok lhs, lhs + rhs)"

definition ExecAmoAnd :: "'a::len word amo_fun" where
  "ExecAmoAnd lhs rhs = (Ok lhs, lhs AND rhs)"

definition ExecAmoOr :: "'a::len word amo_fun" where
  "ExecAmoOr lhs rhs = (Ok lhs, lhs OR rhs)"

definition ExecAmoXor :: "'a::len word amo_fun" where
  "ExecAmoXor lhs rhs = (Ok lhs, lhs XOR rhs)"

definition ExecAmoMax :: "'a::len word amo_fun" where
  "ExecAmoMax lhs rhs = (Ok lhs, word_of_int (max (sint lhs) (sint rhs)))"

definition ExecAmoMin :: "'a::len word amo_fun" where
  "ExecAmoMin lhs rhs = (Ok lhs, word_of_int (min (sint lhs) (sint rhs)))"

definition ExecAmoMaxU :: "'a::len word amo_fun" where
  "ExecAmoMaxU lhs rhs = (Ok lhs, max lhs rhs)"

definition ExecAmoMinU :: "'a::len word amo_fun" where
  "ExecAmoMinU lhs rhs = (Ok lhs, min lhs rhs)"

definition ExecAmoSwap :: "'a::len word amo_fun" where
  "ExecAmoSwap lhs rhs = (Ok lhs, rhs)"

section \<open>Products\<close>

lemma high_low_product:
  fixes p :: int and n :: nat
  shows "drop_bit n p * 2 ^ n + take_bit n p = p"
  unfolding drop_bit_eq_div take_bit_eq_mod by (rule div_mult_mod_eq)

lemma uint_mul_low:
  fixes a b :: "'a::len word"
  assumes "word_of_int p = a * b"
  shows "uint (a * b) = take_bit LENGTH('a) p"
  unfolding assms [symmetric] by (simp add: unsigned_of_int)

lemma sint_word_of_int_id:
  assumes "- (2 ^ (LENGTH('a) - 1)) \<le> v" "v < 2 ^ (LENGTH('a) - 1)"
  shows "sint (word_of_int v :: 'a::len word) = v"
  using assms by (simp add: signed_of_int signed_take_bit_int_eq_self)

lemma uint_word_of_int_id:
  "0 \<le> v \<Longrightarrow> v < 2 ^ LENGTH('a) \<Longrightarrow> uint (word_of_int v :: 'a::len word) = v"
  by (simp add: unsigned_of_int take_bit_int_eq_self)

lemma sint_bounds: "- (2 ^ 63) \<le> sint w \<and> sint w < 2 ^ 63" for w :: u64
  using sint_greater_eq [of w] sint_less [of w] by simp

text \<open>
  \<open>MUL\<close> with \<open>MULHU\<close>, \<open>MULH\<close> or \<open>MULHSU\<close> gives the two halves of the exact 128-bit product of
  the operands, read as unsigned, as signed, and as signed and unsigned.
\<close>

theorem mul_high_low:
  fixes a b :: u64
  shows "\<exists>lo hu hs hsu.
      ExecMulLow a b = Ok lo \<and> ExecMulHighUnsigned a b = Ok hu
    \<and> ExecMulHighSigned a b = Ok hs \<and> ExecMulHighSignedUnsigned a b = Ok hsu
    \<and> uint hu * 2 ^ 64 + uint lo = uint a * uint b
    \<and> sint hs * 2 ^ 64 + uint lo = sint a * sint b
    \<and> sint hsu * 2 ^ 64 + uint lo = sint a * uint b"
proof -
  note bnd = sint_bounds [of a] sint_bounds [of b]
  have ub: "0 \<le> uint a" "uint a < 2 ^ 64" "0 \<le> uint b" "uint b < 2 ^ 64"
    using unsigned_less [of a] unsigned_less [of b] by simp_all
  have "uint (word_of_int (drop_bit 64 (uint a * uint b)) :: u64) = drop_bit 64 (uint a * uint b)"
  proof (rule uint_word_of_int_id)
    have "uint a * uint b < 2 ^ 64 * 2 ^ 64" using ub by (intro mult_strict_mono) simp_all
    then show "drop_bit 64 (uint a * uint b) < 2 ^ LENGTH(64)"
      by (simp add: drop_bit_eq_div div_less_iff_less_mult)
  qed simp
  moreover have "sint (word_of_int (drop_bit 64 p) :: u64) = drop_bit 64 p" if "- (2 ^ 127) \<le> p" "p < 2 ^ 127" for p :: int
  proof (rule sint_word_of_int_id)
    have "- (2 ^ 127) div 2 ^ 64 \<le> p div 2 ^ 64" using that by (intro zdiv_mono1) simp_all
    then show "- (2 ^ (LENGTH(64) - 1)) \<le> drop_bit 64 p" by (simp add: drop_bit_eq_div)
    show "drop_bit 64 p < 2 ^ (LENGTH(64) - 1)" using that by (simp add: drop_bit_eq_div div_less_iff_less_mult)
  qed
  moreover have "\<bar>sint a * sint b\<bar> \<le> 2 ^ 63 * 2 ^ 63"
    unfolding abs_mult using bnd by (intro mult_mono) auto
  then have "- (2 ^ 127) \<le> sint a * sint b" "sint a * sint b < 2 ^ 127" by simp_all
  moreover have "- (2 ^ 127) \<le> sint a * uint b" "sint a * uint b < 2 ^ 127"
  proof -
    have "\<bar>sint a * uint b\<bar> \<le> 2 ^ 63 * (2 ^ 64 - 1)"
      unfolding abs_mult using bnd ub by (intro mult_mono) auto
    then show "- (2 ^ 127) \<le> sint a * uint b" "sint a * uint b < 2 ^ 127" by simp_all
  qed
  ultimately show ?thesis
    using high_low_product [of 64 "uint a * uint b"] high_low_product [of 64 "sint a * sint b"]
      high_low_product [of 64 "sint a * uint b"]
      uint_mul_low [of "uint a * uint b" a b] uint_mul_low [of "sint a * sint b" a b] uint_mul_low [of "sint a * uint b" a b]
    by (simp add: ExecMulLow_def ExecMulHighUnsigned_def ExecMulHighSigned_def ExecMulHighSignedUnsigned_def
        as_signed_i128_eq from_signed_i128_eq)
qed

section \<open>Division\<close>

lemma quotient_in_range:
  fixes A B :: int
  assumes "- (2 ^ n) \<le> A" "A < 2 ^ n" "B \<noteq> 0" "\<not> (A = - (2 ^ n) \<and> B = - 1)"
  shows "- (2 ^ n) \<le> A sdiv B \<and> A sdiv B < 2 ^ n"
proof (cases "\<bar>B\<bar> = 1")
  case True
  then have "B = 1 \<or> B = - 1" by linarith
  then show ?thesis using assms by (auto simp: signed_divide_int_def sgn_if)
next
  case False
  then have "2 \<le> \<bar>B\<bar>" using assms(3) by linarith
  then have "\<bar>A\<bar> div \<bar>B\<bar> \<le> \<bar>A\<bar> div 2" by (intro zdiv_mono2) auto
  moreover have "\<bar>A\<bar> div 2 < 2 ^ n" using assms(1,2) zero_less_power [of "2 :: int" n] by linarith
  moreover have "0 \<le> \<bar>A\<bar> div \<bar>B\<bar>" by (simp add: pos_imp_zdiv_nonneg_iff zero_less_abs_iff assms(3))
  ultimately show ?thesis by (auto simp: signed_divide_int_def sgn_if)
qed

lemma remainder_in_range:
  fixes A B :: int
  assumes "B \<noteq> 0"
  shows "\<bar>A smod B\<bar> < \<bar>B\<bar> \<and> (A smod B = 0 \<or> sgn (A smod B) = sgn A)"
proof -
  have "0 \<le> \<bar>A\<bar> mod \<bar>B\<bar>" "\<bar>A\<bar> mod \<bar>B\<bar> < \<bar>B\<bar>" using assms by simp_all
  then show ?thesis by (auto simp: signed_modulo_int_def sgn_if)
qed

lemma sint_zero_iff: "sint b = 0 \<longleftrightarrow> b = 0" for b :: "'a::len word"
  by (fact signed_eq_0_iff)

text \<open>
  C36.  Division follows the architecture for every pair of operands.  Dividing by zero gives
  all ones and leaves the dividend as the remainder; the one signed overflow gives the dividend and
  remainder 0; otherwise quotient and remainder are exact, the remainder is smaller than the divisor
  and has the sign of the dividend.
\<close>

theorem division_spec:
  fixes a b :: u64
  shows "\<exists>q r uq ur.
      ExecDivSigned a b = Ok q \<and> ExecRemSigned a b = Ok r
    \<and> ExecDivUnsigned a b = Ok uq \<and> ExecRemUnsigned a b = Ok ur
    \<and> a = b * q + r \<and> a = b * uq + ur
    \<and> (if b = 0 then q = - 1 \<and> r = a \<and> uq = - 1 \<and> ur = a
       else uint a = uint b * uint uq + uint ur \<and> ur < b
         \<and> (if sint a = - (2 ^ 63) \<and> b = - 1 then q = a \<and> r = 0
            else sint a = sint b * sint q + sint r \<and> \<bar>sint r\<bar> < \<bar>sint b\<bar>
              \<and> (sint r = 0 \<or> sgn (sint r) = sgn (sint a))))"
proof (cases "b = 0")
  case True
  then show ?thesis
    by (simp add: ExecDivSigned_def ExecRemSigned_def ExecDivUnsigned_def ExecRemUnsigned_def)
next
  case False
  let ?A = "sint a" and ?B = "sint b"
  let ?q = "word_of_int (?A sdiv ?B) :: u64" and ?r = "word_of_int (?A smod ?B) :: u64"
  note bnd = sint_bounds [of a] sint_bounds [of b]
  have B: "?B \<noteq> 0" using False by (simp add: sint_zero_iff)
  have eq: "?A = ?B * (?A sdiv ?B) + ?A smod ?B" by (simp add: mult_sdiv_smod_eq)
  have w: "a = b * ?q + ?r"
  proof -
    have "b * ?q + ?r = word_of_int (?B * (?A sdiv ?B) + ?A smod ?B)" by simp
    then show ?thesis using eq by simp
  qed
  note rr = remainder_in_range [OF B, of ?A]
  have r: "sint ?r = ?A smod ?B" using rr bnd by (intro sint_word_of_int_id) auto
  have u: "a = b * (a div b) + a mod b" by (rule mult_div_mod_eq [symmetric])
  have ui: "uint a = uint b * uint (a div b) + uint (a mod b)" by (simp add: uint_div uint_mod)
  have "0 < uint b" using False by (simp add: word_neq_0_conv word_less_def)
  then have lt: "a mod b < b" by (simp add: word_less_def uint_mod)
  have m1: "?B = - 1 \<longleftrightarrow> b = - 1" using signed_word_eqI [of b "- 1"] by auto
  have q: "sint ?q = ?A sdiv ?B" if "\<not> (?A = - (2 ^ 63) \<and> b = - 1)"
    using quotient_in_range [of 63 ?A ?B] bnd B m1 that by (intro sint_word_of_int_id) auto
  have ov: "?q = a \<and> ?r = 0" if "?A = - (2 ^ 63) \<and> b = - 1"
  proof -
    have "word_of_int ?A = a" by simp
    then have "a = word_of_int (- (2 ^ 63))" using that by metis
    then show ?thesis using that by (simp add: signed_divide_int_def signed_modulo_int_def)
  qed
  show ?thesis
    using False w r q ov u ui lt rr eq
    by (auto simp: ExecDivSigned_def ExecRemSigned_def ExecDivUnsigned_def ExecRemUnsigned_def
        as_signed_i128_eq from_signed_i128_eq)
qed

section \<open>Operations on the low word\<close>

lemma sign_extend_low: "sign_extend w 32 = sign_extend_u32 (ucast w)" for w :: u64
  by (rule bit_word_eqI) (simp add: sign_extend_u32_def bit_sign_extend bit_simps)

lemma ucast_word_of_int: "(ucast (word_of_int v :: u64) :: u32) = word_of_int v"
  by (rule bit_word_eqI) (simp add: bit_simps)

lemma ucast_ring [simp]:
  fixes a b :: u64
  shows "(ucast (a + b) :: u32) = ucast a + ucast b"
    "(ucast (a - b) :: u32) = ucast a - ucast b"
    "(ucast (a * b) :: u32) = ucast a * ucast b"
proof -
  have "ucast (a + b) = (word_of_int (sint a + sint b) :: u32)"
       "ucast (a - b) = (word_of_int (sint a - sint b) :: u32)"
       "ucast (a * b) = (word_of_int (sint a * sint b) :: u32)"
    using ucast_word_of_int [of "sint a + sint b"] ucast_word_of_int [of "sint a - sint b"]
      ucast_word_of_int [of "sint a * sint b"] by simp_all
  then show "(ucast (a + b) :: u32) = ucast a + ucast b" "(ucast (a - b) :: u32) = ucast a - ucast b"
    "(ucast (a * b) :: u32) = ucast a * ucast b"
    using ucast_word_of_int [of "sint a"] ucast_word_of_int [of "sint b"] by simp_all
qed

lemma sign_extend_u32_zero_iff: "sign_extend_u32 w = 0 \<longleftrightarrow> w = 0"
  using sint_sign_extend_u32 [of w] by (metis sint_zero_iff)

lemma uint_take_32: "uint (take_bit 32 w) = uint (ucast w :: u32)" for w :: u64
  by (simp add: unsigned_take_bit_eq unsigned_ucast_eq)

lemma shift_amount_and_31: "shift_amount (b AND 0x1F) = unat (ucast b AND 0x1F :: u32)" for b :: u64
proof -
  have "(ucast (ucast (b AND 0x1F) :: u64) :: u32) AND 0x3F = ucast b AND 0x1F"
  proof -
    have m: "(0x1F :: u64) = mask 5" "(0x1F :: u32) = mask 5" "(0x3F :: u32) = mask 6"
      by (simp_all add: mask_eq_exp_minus_1)
    show ?thesis unfolding m by (rule bit_word_eqI) (auto simp: bit_simps)
  qed
  then show ?thesis by (simp add: shift_amount_def)
qed

lemma ucast_div_mod_low:
  fixes a b :: u64
  shows "(ucast (take_bit 32 a div take_bit 32 b) :: u32) = ucast a div ucast b"
    and "(ucast (take_bit 32 a mod take_bit 32 b) :: u32) = ucast a mod ucast b"
proof -
  have "unat a mod 2 ^ 32 div (unat b mod 2 ^ 32) < 2 ^ 32" "unat a mod 2 ^ 32 mod (unat b mod 2 ^ 32) < 2 ^ 32"
    by (rule le_less_trans [of _ "unat a mod 2 ^ 32"], simp_all)+
  then show "(ucast (take_bit 32 a div take_bit 32 b) :: u32) = ucast a div ucast b"
    and "(ucast (take_bit 32 a mod take_bit 32 b) :: u32) = ucast a mod ucast b"
    by (simp_all add: word_unat_eq_iff [where 'a = 32] unsigned_ucast_eq unat_div unat_mod unsigned_take_bit_eq
        take_bit_eq_mod)
qed

lemma take_bit_32_zero_iff: "take_bit 32 w = 0 \<longleftrightarrow> (ucast w :: u32) = 0" for w :: u64
  by (metis uint_take_32 unsigned_eq_0_iff)

lemma low_word_simps:
  fixes a :: u64 and w :: u32
  shows "sign_extend_u32 (ucast (- 1 :: u64)) = - 1"
    and "ucast (sign_extend_u32 w) = w"
    and "(ucast (take_bit 32 a) :: u32) = ucast a"
    and "(ucast (push_bit n a) :: u32) = push_bit n (ucast a)"
    and "(ucast (drop_bit n (take_bit 32 a)) :: u32) = drop_bit n (ucast a)"
  by (rule bit_word_eqI, auto simp: sign_extend_u32_def bit_sign_extend bit_simps ac_simps)+

lemmas exec_word_defs = ExecAddw_def ExecSubw_def ExecMulw_def ExecAdd_def ExecSub_def ExecMulLow_def
  ExecDivw_def ExecDivSigned_def ExecRemw_def ExecRemSigned_def ExecDivuw_def ExecDivUnsigned_def ExecRemuw_def
  ExecRemUnsigned_def ExecSLLW_def ExecSLL_def ExecSRLW_def ExecSRL_def ExecSRAW_def ExecSRA_def

text \<open>
  The instructions on the low word are the 64-bit instructions on sign-extended operands (zero-extended
  ones for the unsigned instructions and the logical right shift), with the shift amount taken
  from five bits, followed by sign extension from bit 31.
\<close>

theorem word_ops_agree:
  fixes a b :: u64
  shows "let low = map_ok (\<lambda>r. sign_extend r 32); sx = (\<lambda>w. sign_extend w 32); zx = take_bit 32; sh = b AND 0x1F in
      ExecAddw a b = low (ExecAdd a b) \<and> ExecSubw a b = low (ExecSub a b) \<and> ExecMulw a b = low (ExecMulLow a b)
    \<and> ExecDivw a b = low (ExecDivSigned (sx a) (sx b)) \<and> ExecRemw a b = low (ExecRemSigned (sx a) (sx b))
    \<and> ExecDivuw a b = low (ExecDivUnsigned (zx a) (zx b)) \<and> ExecRemuw a b = low (ExecRemUnsigned (zx a) (zx b))
    \<and> ExecSLLW a b = low (ExecSLL a sh) \<and> ExecSRLW a b = low (ExecSRL (zx a) sh)
    \<and> ExecSRAW a b = low (ExecSRA (sx a) sh)"
  unfolding Let_def
  by (intro conjI)
     (simp_all add: exec_word_defs sign_extend_low as_signed_i128_eq from_signed_i128_eq sint_sign_extend_u32
        sint_zero_iff sign_extend_u32_zero_iff ucast_word_of_int take_bit_32_zero_iff ucast_div_mod_low
        shift_amount_and_31 low_word_simps)

end
