(* ===== verification/Mmu.thy ===== *)
theory Mmu
  imports PageTable Mmio Csr Alu
begin

text \<open>
  The memory manager \<open>VirtAddrManager\<close> of \<open>src/isa/riscv/mmu/mod.rs\<close> and the access policies of
  \<open>mmu/cpu.rs\<close>.  The walker and the memory map share one memory, the \<open>ram\<close> of the map.
  An atomic operation is the function the code passes as a closure: it sees the old
  value in memory and the operand and gives the result together with the new value in memory.
\<close>

section \<open>The memory manager\<close>

datatype AccessType = Read | Write | ReadWrite

datatype AccessPolicy = Direct | Translated PermissionCheck AccessEffect MemError

datatype Address = Phys u64 | Virt u64

record 'd VirtAddrManager =
  mmio :: "'d MemoryMapIO"
  page_table :: PageTableWalker

definition from_ram_and_mmio :: "'d MemoryMapIO \<Rightarrow> 'd VirtAddrManager" where
  "from_ram_and_mmio io = \<lparr>mmio = io, page_table = PageTableWalker_new 0 NoPaging\<rparr>"

definition on_mmio :: "('d MemoryMapIO, 'a, 'e) prog \<Rightarrow> ('d VirtAddrManager, 'a, 'e) prog" where
  "on_mmio f vm = map_option (\<lambda>(r, io). (r, vm\<lparr>mmio := io\<rparr>)) (f (mmio vm))"

definition vm_translate_vaddr ::
  "u64 \<Rightarrow> PermissionCheck \<Rightarrow> AccessEffect \<Rightarrow> ('d VirtAddrManager, u64, PageTableError) prog" where
  "vm_translate_vaddr vaddr check effect vm =
     map_option (\<lambda>(r, pt, mem). (r, vm\<lparr>page_table := pt, mmio := (mmio vm)\<lparr>ram := mem\<rparr>\<rparr>))
       (pt_translate_vaddr (page_table vm) (ram (mmio vm)) vaddr check effect)"

fun translate_with_policy :: "u64 \<Rightarrow> AccessPolicy \<Rightarrow> ('d VirtAddrManager, u64, MemError) prog" where
  "translate_with_policy vaddr Direct vm = Some (Ok vaddr, vm)"
| "translate_with_policy vaddr (Translated check effect fault) vm =
     map_option (\<lambda>(r, vm'). (map_err (\<lambda>_. fault) r, vm')) (vm_translate_vaddr vaddr check effect vm)"

definition read_with_policy ::
  "'d device_ops \<Rightarrow> u64 \<Rightarrow> AccessPolicy \<Rightarrow> ('d VirtAddrManager, 'a::len word, MemError) prog" where
  "read_with_policy ops addr pol =
     bind_q (translate_with_policy addr pol) (\<lambda>paddr. on_mmio (read_by_type ops paddr))"

definition write_with_policy ::
  "'d device_ops \<Rightarrow> u64 \<Rightarrow> 'a::len word \<Rightarrow> AccessPolicy \<Rightarrow> ('d VirtAddrManager, unit, MemError) prog" where
  "write_with_policy ops addr v pol =
     bind_q (translate_with_policy addr pol) (\<lambda>paddr. on_mmio (write_by_type ops paddr v))"

definition load_reserved_with_policy ::
  "u64 \<Rightarrow> AccessPolicy \<Rightarrow> ('d VirtAddrManager, 'a::len word, MemError) prog" where
  "load_reserved_with_policy addr pol =
     (if \<not> check_align TYPE('a) addr then ret_err LoadMisaligned
      else bind_q (translate_with_policy addr pol) (\<lambda>paddr. on_mmio (mmio_load_reserved paddr)))"

definition vm_clear_reservation :: "'d VirtAddrManager \<Rightarrow> 'd VirtAddrManager" where
  "vm_clear_reservation vm = vm\<lparr>mmio := mmio_clear_reservation (mmio vm)\<rparr>"

definition store_conditional_with_policy ::
  "u64 \<Rightarrow> 'a::len word \<Rightarrow> AccessPolicy \<Rightarrow> ('d VirtAddrManager, bool, MemError) prog" where
  "store_conditional_with_policy addr v pol =
     (if \<not> check_align TYPE('a) addr then (\<lambda>vm. Some (Err StoreMisaligned, vm_clear_reservation vm))
      else bind_q (translate_with_policy addr pol) (\<lambda>paddr vm.
        map_option (\<lambda>(res, vm'). (res, vm_clear_reservation vm')) (on_mmio (mmio_store_conditional paddr v) vm)))"

definition ram_amo :: "'a::len word amo_fun \<Rightarrow> u64 \<Rightarrow> 'a word \<Rightarrow> Ram \<Rightarrow> ('a word, Exception) result \<times> Ram" where
  "ram_amo f off rhs mem =
     (let lhs = of_bytes (bytes_at mem (unat off) (size_of TYPE('a)));
          (res, new) = f lhs rhs;
          mem' = mem\<lparr>data := splice_bytes (unat off) (to_bytes new) (data mem)\<rparr> in
      (res, if is_ok res then try_invalidate_reservation off mem' else mem'))"

definition fetch_and_op_amo_with_policy ::
  "u64 \<Rightarrow> 'a::len word \<Rightarrow> AccessPolicy \<Rightarrow> 'a word amo_fun \<Rightarrow> ('d VirtAddrManager, 'a word, Exception) prog" where
  "fetch_and_op_amo_with_policy addr rhs_val pol f vm =
     (case translate_with_policy addr pol vm of
        None \<Rightarrow> None
      | Some (Err _, vm') \<Rightarrow> Some (Err Ex_StorePageFault, vm')
      | Some (Ok paddr, vm') \<Rightarrow>
          if \<not> check_align TYPE('a) paddr then Some (Err Ex_StoreMisaligned, vm')
          else if \<not> in_ram paddr then Some (Err Ex_StoreFault, vm')
          else (case ram_amo f (paddr - BASE_ADDR) rhs_val (ram (mmio vm')) of
                  (res, mem) \<Rightarrow> Some (res, vm'\<lparr>mmio := (mmio vm')\<lparr>ram := mem\<rparr>\<rparr>)))"

definition read_by_paddr :: "'d device_ops \<Rightarrow> u64 \<Rightarrow> ('d VirtAddrManager, 'a::len word, MemError) prog" where
  "read_by_paddr ops paddr = on_mmio (read_by_type ops paddr)"

definition write_by_paddr :: "'d device_ops \<Rightarrow> u64 \<Rightarrow> 'a::len word \<Rightarrow> ('d VirtAddrManager, unit, MemError) prog" where
  "write_by_paddr ops paddr v = on_mmio (write_by_type ops paddr v)"

definition debug_check :: PermissionCheck where
  "debug_check = \<lparr>any_of = 0, exact_mask = 0, exact_flags = 0\<rparr>"

fun debug_read :: "'d device_ops \<Rightarrow> Address \<Rightarrow> ('d VirtAddrManager, 'a::len word, MemError) prog" where
  "debug_read ops (Phys addr) vm = read_by_paddr ops addr vm"
| "debug_read ops (Virt addr) vm =
     (case vm_translate_vaddr addr debug_check NoEffect vm of
        None \<Rightarrow> None
      | Some (Ok paddr, vm') \<Rightarrow> on_mmio (read_by_type ops paddr) vm'
      | Some (Err _, vm') \<Rightarrow> Some (Err LoadPageFault, vm'))"

fun debug_write :: "'d device_ops \<Rightarrow> Address \<Rightarrow> 'a::len word \<Rightarrow> ('d VirtAddrManager, unit, MemError) prog" where
  "debug_write ops (Phys addr) v vm = write_by_paddr ops addr v vm"
| "debug_write ops (Virt addr) v vm =
     (case vm_translate_vaddr addr debug_check NoEffect vm of
        None \<Rightarrow> None
      | Some (Ok paddr, vm') \<Rightarrow> on_mmio (write_by_type ops paddr v) vm'
      | Some (Err _, vm') \<Rightarrow> Some (Err StorePageFault, vm'))"

definition debug_vaddr_to_paddr :: "u64 \<Rightarrow> ('d VirtAddrManager, u64, PageTableError) prog" where
  "debug_vaddr_to_paddr vaddr = vm_translate_vaddr vaddr debug_check NoEffect"

fun translate_for_debug_with_policy ::
  "u64 \<Rightarrow> AccessPolicy \<Rightarrow> ('d VirtAddrManager, u64, PageTableError) prog" where
  "translate_for_debug_with_policy addr Direct vm = Some (Ok addr, vm)"
| "translate_for_debug_with_policy addr (Translated check effect fault) vm =
     vm_translate_vaddr addr check effect vm"

definition vm_set_mode :: "u8 \<Rightarrow> 'd VirtAddrManager \<Rightarrow> 'd VirtAddrManager option" where
  "vm_set_mode m vm = map_option (\<lambda>pt. vm\<lparr>page_table := pt\<rparr>) (pt_set_mode m (page_table vm))"

definition set_root_ppn :: "u64 \<Rightarrow> 'd VirtAddrManager \<Rightarrow> 'd VirtAddrManager" where
  "set_root_ppn ppn vm = vm\<lparr>page_table := pt_set_root_addr (push_bit PAGE_SIZE_XLEN ppn) (page_table vm)\<rparr>"

definition vm_set_ad_update_policy :: "AdUpdatePolicy \<Rightarrow> 'd VirtAddrManager \<Rightarrow> 'd VirtAddrManager" where
  "vm_set_ad_update_policy p vm = vm\<lparr>page_table := pt_set_ad_update_policy p (page_table vm)\<rparr>"

definition vm_sync :: "'d device_ops \<Rightarrow> 'd VirtAddrManager \<Rightarrow> 'd VirtAddrManager option" where
  "vm_sync ops vm = map_option (\<lambda>io. vm\<lparr>mmio := io\<rparr>) (mmio_sync ops (mmio vm))"

definition vm_flush_tlb :: "'d VirtAddrManager \<Rightarrow> 'd VirtAddrManager" where
  "vm_flush_tlb vm = vm\<lparr>page_table := pt_flush_tlb (page_table vm)\<rparr>"

section \<open>Access policies\<close>

datatype AccessPrivilege = UserOnly | SupervisorOnly | SupervisorAndUser | MachineOnly

definition determine_data_access_privilege :: "CsrRegFile \<Rightarrow> AccessPrivilege option" where
  "determine_data_access_privilege csr =
     (case cpl csr of
        PrivM \<Rightarrow>
          do { mprv \<leftarrow> csr_get (0x300, 17, 1) csr;
               if mprv = 0 then Some MachineOnly
               else do { mpp \<leftarrow> csr_get (0x300, 11, 2) csr;
                 (case PrivilegeLevel_try_from (ucast mpp) of
                    Ok PrivM \<Rightarrow> Some MachineOnly
                  | Ok PrivS \<Rightarrow> do { sum \<leftarrow> csr_get (0x300, 18, 1) csr;
                      Some (if sum = 0 then SupervisorOnly else SupervisorAndUser) }
                  | Ok PrivU \<Rightarrow> Some UserOnly
                  | Ok PrivV \<Rightarrow> None
                  | Err _ \<Rightarrow> None) } }
      | PrivS \<Rightarrow> do { sum \<leftarrow> csr_get (0x100, 18, 1) csr;
          Some (if sum = 0 then SupervisorOnly else SupervisorAndUser) }
      | PrivU \<Rightarrow> Some UserOnly
      | PrivV \<Rightarrow> None)"

definition resolve_data_policy :: "CsrRegFile \<Rightarrow> AccessType \<Rightarrow> bool \<Rightarrow> AccessPolicy option" where
  "resolve_data_policy csr access side_effect =
     (let fault = (case access of Read \<Rightarrow> LoadPageFault | Write \<Rightarrow> StorePageFault | ReadWrite \<Rightarrow> StorePageFault);
          effect = (if \<not> side_effect then NoEffect
                    else (case access of Read \<Rightarrow> Accessed | Write \<Rightarrow> AccessedDirty | ReadWrite \<Rightarrow> AccessedDirty));
          translated = (\<lambda>(masks, flags). do {
            mxr \<leftarrow> csr_get (0x300, 19, 1) csr;
            (if mxr = 1 \<and> access = Read then
               Some (Translated \<lparr>any_of = PTE_R OR PTE_X, exact_mask = masks, exact_flags = flags\<rparr> effect fault)
             else
               let rwx_base = (case access of Read \<Rightarrow> PTE_R | Write \<Rightarrow> PTE_W | ReadWrite \<Rightarrow> PTE_R OR PTE_W) in
               Some (Translated \<lparr>any_of = 0, exact_mask = masks OR rwx_base, exact_flags = flags OR rwx_base\<rparr>
                       effect fault)) }) in
      do { priv \<leftarrow> determine_data_access_privilege csr;
           (case priv of
              MachineOnly \<Rightarrow> Some Direct
            | SupervisorAndUser \<Rightarrow> translated (0, 0)
            | SupervisorOnly \<Rightarrow> translated (PTE_U, 0)
            | UserOnly \<Rightarrow> translated (PTE_U, PTE_U)) })"

definition resolve_ifetch_policy :: "CsrRegFile \<Rightarrow> bool \<Rightarrow> AccessPolicy option" where
  "resolve_ifetch_policy csr side_effect =
     (let effect = (if side_effect then Accessed else NoEffect) in
      case cpl csr of
        PrivM \<Rightarrow> Some Direct
      | PrivS \<Rightarrow> Some (Translated \<lparr>any_of = 0, exact_mask = PTE_X OR PTE_U, exact_flags = PTE_X\<rparr> effect LoadPageFault)
      | PrivU \<Rightarrow> Some (Translated \<lparr>any_of = 0, exact_mask = PTE_X OR PTE_U, exact_flags = PTE_X OR PTE_U\<rparr>
                  effect LoadPageFault)
      | PrivV \<Rightarrow> None)"

section \<open>What the policies allow\<close>

definition priv_of_code :: "u64 \<Rightarrow> PrivilegeLevel" where
  "priv_of_code n = (if n = 0 then PrivU else if n = 1 then PrivS else if n = 2 then PrivV else PrivM)"

text \<open>The privilege a data access is checked with: \<open>mstatus.MPP\<close> when \<open>MPRV\<close> is set in M-mode.\<close>

definition effective_priv :: "CsrRegFile \<Rightarrow> PrivilegeLevel" where
  "effective_priv csr =
     (if cpl csr = PrivM \<and> bit (csr_val csr 0x300) 17 then priv_of_code (field_get 11 2 (csr_val csr 0x300))
      else cpl csr)"

definition data_access_ok :: "PrivilegeLevel \<Rightarrow> bool \<Rightarrow> bool \<Rightarrow> AccessType \<Rightarrow> PTEFlags \<Rightarrow> bool" where
  "data_access_ok p usum mxr access fl \<longleftrightarrow>
     (if p = PrivU then bit fl 4 else \<not> bit fl 4 \<or> usum)
     \<and> (case access of
           Read \<Rightarrow> bit fl 1 \<or> (mxr \<and> bit fl 3)
         | Write \<Rightarrow> bit fl 2
         | ReadWrite \<Rightarrow> bit fl 1 \<and> bit fl 2)"

lemma u8_and_eq_iff:
  "(fl AND m = v) \<longleftrightarrow> (\<forall>k \<in> {0, 1, 2, 3, 4, 5, 6, 7}. (bit fl k \<and> bit m k) = bit v k)" for fl m v :: u8
proof
  assume h: "\<forall>k \<in> {0, 1, 2, 3, 4, 5, 6, 7}. (bit fl k \<and> bit m k) = bit v k"
  show "fl AND m = v"
  proof (rule bit_word_eqI)
    fix n
    assume "n < LENGTH(8)"
    then have "n \<in> {0, 1, 2, 3, 4, 5, 6, 7}" by (simp; presburger)
    with h have "(bit fl n \<and> bit m n) = bit v n" by (rule bspec)
    then show "bit (fl AND m) n = bit v n" by (simp add: bit_and_iff)
  qed
qed (auto simp: bit_and_iff)

lemma field_get_two_cases: "field_get low 2 w \<in> {0, 1, 2, 3}"
proof -
  have "unat (field_get low 2 w) < 4"
    by (simp only: field_get_def unsigned_take_bit_eq) (simp add: take_bit_eq_mod)
  then have "unat (field_get low 2 w) \<in> {0, 1, 2, 3}" by (simp; presburger)
  then show ?thesis by (simp add: word_unat_eq_iff)
qed

lemma determine_data_access_privilege_wf:
  assumes "csr_wf csr" "effective_priv csr \<noteq> PrivV"
  shows "determine_data_access_privilege csr = Some (case effective_priv csr of
      PrivM \<Rightarrow> MachineOnly
    | PrivS \<Rightarrow> if bit (csr_val csr 0x300) 18 then SupervisorAndUser else SupervisorOnly
    | _ \<Rightarrow> UserOnly)"
proof (cases "cpl csr = PrivM \<and> bit (csr_val csr 0x300) 17")
  case True
  then show ?thesis
    using assms(2) field_get_two_cases [of 11 "csr_val csr 0x300"]
    by (auto simp: determine_data_access_privilege_def csr_get_wf [OF assms(1)] effective_priv_def
        priv_of_code_def PrivilegeLevel_try_from_def)
next
  case False
  then show ?thesis
    using assms(2)
    by (auto simp: determine_data_access_privilege_def csr_get_wf [OF assms(1)] effective_priv_def
        split: PrivilegeLevel.splits)
qed

lemma permitted_data:
  "permitted fl \<lparr>any_of = 0, exact_mask = 2, exact_flags = 2\<rparr> \<longleftrightarrow> bit fl 1"
  "permitted fl \<lparr>any_of = 0, exact_mask = 4, exact_flags = 4\<rparr> \<longleftrightarrow> bit fl 2"
  "permitted fl \<lparr>any_of = 0, exact_mask = 6, exact_flags = 6\<rparr> \<longleftrightarrow> bit fl 1 \<and> bit fl 2"
  "permitted fl \<lparr>any_of = 0, exact_mask = 0x12, exact_flags = 2\<rparr> \<longleftrightarrow> \<not> bit fl 4 \<and> bit fl 1"
  "permitted fl \<lparr>any_of = 0, exact_mask = 0x14, exact_flags = 4\<rparr> \<longleftrightarrow> \<not> bit fl 4 \<and> bit fl 2"
  "permitted fl \<lparr>any_of = 0, exact_mask = 0x16, exact_flags = 6\<rparr> \<longleftrightarrow> \<not> bit fl 4 \<and> bit fl 1 \<and> bit fl 2"
  "permitted fl \<lparr>any_of = 0, exact_mask = 0x12, exact_flags = 0x12\<rparr> \<longleftrightarrow> bit fl 4 \<and> bit fl 1"
  "permitted fl \<lparr>any_of = 0, exact_mask = 0x14, exact_flags = 0x14\<rparr> \<longleftrightarrow> bit fl 4 \<and> bit fl 2"
  "permitted fl \<lparr>any_of = 0, exact_mask = 0x16, exact_flags = 0x16\<rparr> \<longleftrightarrow> bit fl 4 \<and> bit fl 1 \<and> bit fl 2"
  "permitted fl \<lparr>any_of = 0xA, exact_mask = 0, exact_flags = 0\<rparr> \<longleftrightarrow> bit fl 1 \<or> bit fl 3"
  "permitted fl \<lparr>any_of = 0xA, exact_mask = 0x10, exact_flags = 0\<rparr> \<longleftrightarrow> \<not> bit fl 4 \<and> (bit fl 1 \<or> bit fl 3)"
  "permitted fl \<lparr>any_of = 0xA, exact_mask = 0x10, exact_flags = 0x10\<rparr> \<longleftrightarrow> bit fl 4 \<and> (bit fl 1 \<or> bit fl 3)"
  by (simp_all add: permitted_def u8_and_eq_iff, blast+)

text \<open>
  For a data access of effective privilege below machine level the policy asks the
  page tables for exactly the permissions of the privileged architecture: user pages for
  U-mode, supervisor pages (and user pages under \<open>SUM\<close>) for S-mode, read permission or, under
  \<open>MXR\<close>, execute permission for loads, write permission for stores and both for atomics; machine
  level accesses are not translated.  The effective privilege honours \<open>MPRV\<close>.
\<close>

theorem data_policy_spec:
  assumes "csr_wf csr" "effective_priv csr \<noteq> PrivV"
  shows "if effective_priv csr = PrivM then resolve_data_policy csr access se = Some Direct
    else \<exists>check effect. resolve_data_policy csr access se =
        Some (Translated check effect (if access = Read then LoadPageFault else StorePageFault))
      \<and> effect = (if \<not> se then NoEffect else if access = Read then Accessed else AccessedDirty)
      \<and> (\<forall>fl. permitted fl check \<longleftrightarrow>
            data_access_ok (effective_priv csr) (bit (csr_val csr 0x300) 18) (bit (csr_val csr 0x300) 19) access fl)"
  using assms(2)
  by (cases access; cases "effective_priv csr"; cases "bit (csr_val csr 0x300) 18"; cases "bit (csr_val csr 0x300) 19")
     (simp_all add: resolve_data_policy_def determine_data_access_privilege_wf [OF assms] csr_get_wf [OF assms(1)]
        permitted_data [simplified] data_access_ok_def Let_def)

theorem data_policy_spec_witness:
  "resolve_data_policy CsrRegFile_new Write True = Some Direct"
proof -
  have v: "csr_val CsrRegFile_new 0x300 = 0"
    by (simp add: csr_val_def csr_table_new CsrReg_new_def Mstatus_desc_def)
  have "effective_priv CsrRegFile_new = PrivM"
    unfolding effective_priv_def v by (simp add: CsrRegFile_new_def CsrRegFile_from_def)
  then show ?thesis using data_policy_spec [OF csr_wf_new, of Write True] by simp
qed

text \<open>
  An instruction fetch below machine level needs execute permission on a page of its own
  level: U-mode fetches only from user pages and S-mode never does.
\<close>

theorem ifetch_policy_spec:
  assumes "cpl csr \<noteq> PrivV"
  shows "case resolve_ifetch_policy csr se of
      Some Direct \<Rightarrow> cpl csr = PrivM
    | Some (Translated check effect fault) \<Rightarrow> cpl csr \<noteq> PrivM \<and> fault = LoadPageFault
        \<and> effect = (if se then Accessed else NoEffect)
        \<and> (\<forall>fl. permitted fl check \<longleftrightarrow> bit fl 3 \<and> (bit fl 4 \<longleftrightarrow> cpl csr = PrivU))
    | None \<Rightarrow> False"
  using assms
  by (cases "cpl csr") (auto simp: resolve_ifetch_policy_def permitted_def u8_and_eq_iff Let_def)

theorem ifetch_policy_spec_witness:
  "resolve_ifetch_policy CsrRegFile_new True = Some Direct"
proof -
  have "cpl CsrRegFile_new = PrivM" by (simp add: CsrRegFile_new_def CsrRegFile_from_def)
  then show ?thesis
    using ifetch_policy_spec [of CsrRegFile_new True]
    by (simp split: option.splits AccessPolicy.splits)
qed

section \<open>Reading back through translation\<close>

lemma translate_hit:
  assumes d: "direct_inv 512 (Caches.policy (tlb pt))" and ad: "ad_update_policy pt = FaultOnClear"
    and w: "pt_translate_vaddr pt mem va check effect = Some (Ok pa, pt1, mem1)"
  shows "mem1 = mem \<and> ad_update_policy pt1 = FaultOnClear
    \<and> (\<exists>r pt2. pt_translate_vaddr pt1 mem2 va check2 effect2 = Some (r, pt2, mem2) \<and> (r = Ok pa \<or> (\<exists>e. r = Err e)))"
proof (cases "mode pt = NoPaging")
  case True
  then show ?thesis using w ad by (auto simp: pt_translate_vaddr_def)
next
  case np: False
  then have can: "is_canonical_vaddr pt va"
    using w by (auto simp: pt_translate_vaddr_def split: if_splits)
  obtain info pt' where l: "tlb_lookup pt mem va = Some (Ok info, pt')" "check_permission info check"
      and a: "apply_ad_policy pt' info effect mem = Some (Ok (), mem1)" "pt1 = pt'" "pa = leaf_paddr info va"
    using w np can
    by (auto simp: pt_translate_vaddr_def split: option.splits result.splits if_splits prod.splits)
  have p': "mode pt' = mode pt" "root_address pt' = root_address pt" "ad_update_policy pt' = ad_update_policy pt"
    using l(1) by (auto simp: tlb_lookup_def split: option.splits result.splits prod.splits)
  have hit: "direct_get 12 512 (Caches.policy (tlb pt')) (vpn_of va) = Some info"
    using l(1) tlb_laws.get_put_same [OF d, of "vpn_of va" info]
    by (auto simp: tlb_lookup_def Cache_get_def Cache_put_def Let_def PAGE_SIZE_XLEN_def TLB_SIZE_def
        split: option.splits result.splits prod.splits)
  have m: "mem1 = mem" using a(1) ad p' by (simp add: apply_ad_policy_fault split: if_splits)
  have "tlb_lookup pt' mem2 va = Some (Ok info, pt'\<lparr>tlb := snd (Cache_get (direct_get 12 512) (tlb pt') (vpn_of va))\<rparr>)"
    using hit by (simp add: tlb_lookup_def Cache_get_def Let_def PAGE_SIZE_XLEN_def TLB_SIZE_def)
  moreover have "is_canonical_vaddr pt' va" using can p' by (simp add: is_canonical_vaddr_def)
  ultimately show ?thesis
    using m np p' ad a(2,3) by (auto simp: pt_translate_vaddr_def apply_ad_policy_fault)
qed


lemma example_translate:
  "\<exists>pt. pt_translate_vaddr example_walker example_ram 0x3000 \<lparr>any_of = 0, exact_mask = 4, exact_flags = 4\<rparr> AccessedDirty
     = Some (Ok 0x80003000, pt, example_ram)"
proof -
  let ?info = "leaf_info 2 0x80000000 0x200000CF"
  have v: "vpn_of 0x3000 = 0x3000" by (simp add: vpn_of_eq mask_eq_exp_minus_1)
  have n: "direct_get 12 512 (Caches.policy (tlb example_walker)) 0x3000 = None"
    using direct_new_get [of 512 12 "0x3000"] by (simp add: example_walker_def PageTableWalker_new_def Cache_new_def TLB_SIZE_def)
  obtain t where l: "tlb_lookup example_walker example_ram 0x3000 = Some (Ok ?info, example_walker\<lparr>tlb := t\<rparr>)"
    using n example_walk v by (auto simp: tlb_lookup_def Cache_get_def Let_def PAGE_SIZE_XLEN_def TLB_SIZE_def)
  have "(0x3000 :: u64) = take_bit 14 0x3000" by (simp add: take_bit_eq_mask mask_eq_exp_minus_1)
  then have "\<not> bit (0x3000 :: u64) k" if "14 \<le> k" for k
    using that by (metis bit_take_bit_iff not_less)
  then have "sv_is_canonical_vaddr Sv39 0x3000" unfolding sv39.canonical_iff by (simp add: Sv39_def)
  then have "is_canonical_vaddr example_walker 0x3000" "mode example_walker \<noteq> NoPaging"
      "ad_update_policy (example_walker\<lparr>tlb := t\<rparr>) = FaultOnClear"
    by (simp_all add: is_canonical_vaddr_def example_walker_def PageTableWalker_new_def)
  moreover have "leaf_flags ?info = 0xCF" by (simp add: leaf_info_def pte_flags_eq)
  moreover have "leaf_paddr ?info 0x3000 = 0x80003000"
    by (simp add: leaf_paddr_eq leaf_info_def pte_ppn_eq take_bit_eq_mask mask_eq_exp_minus_1)
  moreover have "permitted 0xCF \<lparr>any_of = 0, exact_mask = 4, exact_flags = 4\<rparr>" "ad_sufficient 0xCF AccessedDirty"
    by (simp_all add: permitted_data)
  ultimately show ?thesis
    using l by (simp add: pt_translate_vaddr_def check_permission_iff apply_ad_policy_fault)
qed


section \<open>The cache of translations\<close>

definition vm_wf :: "'d VirtAddrManager \<Rightarrow> bool" where
  "vm_wf vm \<longleftrightarrow> direct_inv 512 (Caches.policy (tlb (page_table vm)))"

lemma tlb_lookup_inv:
  assumes "direct_inv 512 (Caches.policy (tlb pt))" "tlb_lookup pt mem va = Some (r, pt')"
  shows "direct_inv 512 (Caches.policy (tlb pt'))"
  using assms tlb_laws.inv_put
  by (auto simp: tlb_lookup_def Cache_get_def Cache_put_def Let_def PAGE_SIZE_XLEN_def TLB_SIZE_def
      split: option.splits result.splits prod.splits if_splits)

lemma keeps_vm_translate [keeps_rules]: "keeps vm_wf (vm_translate_vaddr va check effect)"
proof (rule keepsI)
  fix vm r and vm' :: "'d VirtAddrManager"
  assume "vm_wf vm" "vm_translate_vaddr va check effect vm = Some (r, vm')"
  then show "vm_wf vm'"
    by (auto simp: vm_wf_def vm_translate_vaddr_def pt_translate_vaddr_def dest: tlb_lookup_inv
        split: if_splits option.splits result.splits prod.splits)
qed

lemma keeps_translate_with_policy [keeps_rules]: "keeps vm_wf (translate_with_policy va pol)"
  using keepsD [OF keeps_vm_translate] by (cases pol) (auto simp: keeps_def)

lemma keeps_on_mmio [keeps_rules]: "keeps vm_wf (on_mmio f)"
  by (auto simp: keeps_def on_mmio_def vm_wf_def)

lemma keeps_sc_step [keeps_rules]:
  "keeps vm_wf (\<lambda>vm. map_option (\<lambda>(res, vm'). (res, vm_clear_reservation vm')) (on_mmio f vm))"
  "keeps vm_wf (\<lambda>vm. Some (r, vm_clear_reservation vm))"
  by (auto simp: keeps_def on_mmio_def vm_wf_def vm_clear_reservation_def)

lemma keeps_vm_access [keeps_rules]:
  "keeps vm_wf (read_with_policy ops addr pol)"
  "keeps vm_wf (write_with_policy ops addr v pol)"
  "keeps vm_wf (load_reserved_with_policy addr pol)"
  "keeps vm_wf (store_conditional_with_policy addr v pol)"
  "keeps vm_wf (read_by_paddr ops addr)"
  unfolding read_with_policy_def write_with_policy_def load_reserved_with_policy_def
    store_conditional_with_policy_def read_by_paddr_def
  by (intro keeps_rules)+

lemma keeps_vm_amo [keeps_rules]: "keeps vm_wf (fetch_and_op_amo_with_policy addr rhs pol f)"
proof (rule keepsI)
  fix vm r and vm' :: "'d VirtAddrManager"
  assume "vm_wf vm" "fetch_and_op_amo_with_policy addr rhs pol f vm = Some (r, vm')"
  then show "vm_wf vm'"
    using keepsD [OF keeps_translate_with_policy]
    by (fastforce simp: fetch_and_op_amo_with_policy_def vm_wf_def
        split: option.splits prod.splits result.splits if_splits)
qed

lemma keeps_vm_debug_translate [keeps_rules]: "keeps vm_wf (translate_for_debug_with_policy addr pol)"
  using keepsD [OF keeps_vm_translate] by (cases pol) (auto simp: keeps_def)

end
