(* ===== verification/Instr.thy ===== *)
theory Instr
  imports Alu
begin

text \<open>
  Instructions as the decoder hands them to the executor: \<open>RVInstrInfo\<close> and \<open>InstrFormat\<close> of
  \<open>instruction/mod.rs\<close>, \<open>RawInstr\<close> of \<open>isa/riscv/mod.rs\<close>, \<open>DecodeInstr\<close> of \<open>decoder/mod.rs\<close>.

  The enumeration \<open>RiscvInstr\<close> is generated by the build from a data file, so its members
  are known from the places that match on them.  They are grouped here by the sections of
  \<open>get_exec_func\<close> in \<open>exec_mapping.rs\<close>, each member under its own name with the prefix \<open>I_\<close>;
  \<open>ExtInstr\<close> stands for the members of the floating point, vector and custom extensions.
\<close>

section \<open>The instruction names\<close>

datatype (plugins only: code) ArithInstr =
    I_ADD | I_ADDI | I_ADDW | I_ADDIW | I_SUB | I_SUBW
  | I_MUL | I_MULH | I_MULHU | I_MULHSU | I_DIV | I_DIVU | I_REM | I_REMU
  | I_MULW | I_DIVW | I_DIVUW | I_REMW | I_REMUW

datatype (plugins only: code) ShiftInstr =
    I_SLL | I_SLLI | I_SRL | I_SRLI | I_SRA | I_SRAI
  | I_SRAW | I_SRAIW | I_SLLW | I_SLLIW | I_SRLW | I_SRLIW

datatype (plugins only: code) BitInstr =
    I_SLT | I_SLTI | I_SLTU | I_SLTIU | I_AND | I_ANDI | I_OR | I_ORI | I_XOR | I_XORI

datatype BranchInstr = I_BEQ | I_BNE | I_BLT | I_BGE | I_BLTU | I_BGEU

datatype LoadInstr = I_LB | I_LBU | I_LH | I_LHU | I_LW | I_LWU | I_LD

datatype StoreInstr = I_SB | I_SH | I_SW | I_SD

datatype (plugins only: code) SystemInstr =
    I_JAL | I_JALR | I_AUIPC | I_LUI | I_EBREAK | I_ECALL | I_FENCE | I_FENCE_I
  | I_CSRRW | I_CSRRC | I_CSRRS | I_CSRRWI | I_CSRRCI | I_CSRRSI
  | I_MRET | I_WFI | I_SRET | I_SFENCE_VMA | I_ILLEGAL

datatype (plugins only: code) AtomicInstr =
    I_AMOADD_W | I_AMOAND_W | I_AMOOR_W | I_AMOXOR_W | I_AMOADD_D | I_AMOAND_D | I_AMOOR_D | I_AMOXOR_D
  | I_AMOSWAP_W | I_AMOSWAP_D
  | I_AMOMAX_W | I_AMOMIN_W | I_AMOMAXU_W | I_AMOMINU_W | I_AMOMAX_D | I_AMOMIN_D | I_AMOMAXU_D | I_AMOMINU_D
  | I_LR_W | I_SC_W | I_LR_D | I_SC_D

datatype (plugins only: code) CArithInstr =
    I_C_ADD | I_C_ADDI | I_C_ADDI16SP | I_C_ADDW | I_C_ADDIW | I_C_ADDI4SPN
  | I_C_SLLI | I_C_SRLI | I_C_SRAI | I_C_MV | I_C_AND | I_C_ANDI | I_C_OR | I_C_XOR | I_C_SUB | I_C_SUBW
  | I_C_NOP | I_C_EBREAK | I_C_LI | I_C_LUI

datatype (plugins only: code) CMemInstr =
    I_C_LW | I_C_LD | I_C_LWSP | I_C_LDSP | I_C_SW | I_C_SD | I_C_SWSP | I_C_SDSP
  | I_C_FLW | I_C_FLD | I_C_FLWSP | I_C_FLDSP | I_C_FSW | I_C_FSD | I_C_FSWSP | I_C_FSDSP

datatype CJumpInstr = I_C_BEQZ | I_C_BNEZ | I_C_J | I_C_JAL | I_C_JR | I_C_JALR

datatype (plugins only: code) RiscvInstr =
    Arith ArithInstr | Shift ShiftInstr | BitOp BitInstr | Branch BranchInstr | Load LoadInstr | Store StoreInstr
  | System SystemInstr | Atomic AtomicInstr | CArith CArithInstr | CMem CMemInstr | CJump CJumpInstr
  | ExtInstr nat

section \<open>Operands\<close>

text \<open>The fields are in the order of the declaration.\<close>

datatype (plugins only: code) RVInstrInfo =
    Info_None
  | Info_R u8 u8 u8
  | Info_R_rm u8 u8 u8 u8
  | Info_R4_rm u8 u8 u8 u8 u8
  | Info_I u8 u8 u64
  | Info_S u8 u8 u64
  | Info_B u8 u8 u64
  | Info_U u8 u64
  | Info_J u8 u64
  | Info_A u8 u8 u8 bool bool
  | Info_V u8 u8 u8 bool u8
  | Info_CR u8 u8
  | Info_CI u8 u64
  | Info_CSS u8 u64
  | Info_CIW u8 u64
  | Info_CL u8 u8 u64
  | Info_CS u8 u8 u64
  | Info_CA u8 u8
  | Info_CB u8 u64
  | Info_CJ u64

datatype (plugins only: code) InstrFormat =
    Fmt_None | Fmt_R | Fmt_R_rm | Fmt_R4_rm | Fmt_I | Fmt_S | Fmt_B | Fmt_U | Fmt_J | Fmt_A | Fmt_V
  | Fmt_CI | Fmt_CIW | Fmt_CA | Fmt_CB | Fmt_CJ | Fmt_CL | Fmt_CR | Fmt_CS | Fmt_CSS

record DecodeInstr =
  dec_instr :: RiscvInstr
  dec_info :: RVInstrInfo
  dec_len :: u64

section \<open>Raw instructions\<close>

type_synonym RawInstr = u32

definition instr_len :: "u32 \<Rightarrow> u64" where
  "instr_len i = (if i AND 3 = 3 then 4 else 2)"

definition RawInstr_from :: "u32 \<Rightarrow> RawInstr" where
  "RawInstr_from value = (if instr_len value = 2 then value AND 0xFFFF else value)"

end
