(* ===== verification/Cpu.thy ===== *)
theory Cpu
  imports Mmu Instr
begin

text \<open>
  The processor state \<open>RVCPU\<close> of \<open>isa/riscv/executor.rs\<close> with the parts of it that other modules
  implement: the register file of \<open>cpu/reg_file.rs\<close>, the interrupt inputs, the memory accesses of
  \<open>mmu/cpu.rs\<close> and the register instructions' back end \<open>csr_reg/cpu.rs\<close>.

  A method of the processor is a \<open>prog\<close> on this state, with \<open>None\<close> for a panic.  The floating point and
  vector units are the type parameter \<open>'x\<close>.  A device that drives an interrupt line while it is
  accessed calls \<open>handle_irq\<close> of the processor; \<open>on_memory\<close> makes these calls, in their order, as soon as the
  access is over.
\<close>

section \<open>State\<close>

type_synonym RegFile = "u64 list"

definition REGFILE_CNT :: nat where
  "REGFILE_CNT = 32"

definition RegFile_new :: RegFile where
  "RegFile_new = replicate REGFILE_CNT 0"

definition RegFile_read :: "RegFile \<Rightarrow> u8 \<Rightarrow> u8 \<Rightarrow> (u64 \<times> u64) option" where
  "RegFile_read rf id1 id2 =
     (if unat id1 < length rf \<and> unat id2 < length rf then Some (rf ! unat id1, rf ! unat id2) else None)"

definition RegFile_write :: "u8 \<Rightarrow> u64 \<Rightarrow> RegFile \<Rightarrow> RegFile option" where
  "RegFile_write i v rf =
     (if i = 0 then Some rf else if unat i < length rf then Some (rf[unat i := v]) else None)"

record ('d, 'x) RVCPU =
  reg_file :: RegFile
  pc :: u64
  memory :: "'d VirtAddrManager"
  csr :: CsrRegFile
  icache :: "DecodeInstr DirectCache Cache"
  icache_epoch :: u64
  ext_units :: 'x
  time_addr :: "u64 option"
  pending_tval :: "u64 option"

type_synonym ('d, 'x, 'a) cpu_prog = "(('d, 'x) RVCPU, 'a, Exception) prog"

definition DEFAULT_PC_VALUE :: u64 where
  "DEFAULT_PC_VALUE = BASE_ADDR"

definition from_decoder :: "u64 \<Rightarrow> 'x \<Rightarrow> 'd VirtAddrManager \<Rightarrow> ('d, 'x) RVCPU option" where
  "from_decoder ext units v_memory =
     (let c = CsrRegFile_new; c = c\<lparr>ctx := (ctx c)\<lparr>extension := ext\<rparr>\<rparr>; mxl = 2 in
      do { c \<leftarrow> csr_set_directly (0x301, 0, 25) ext c;
           c \<leftarrow> csr_set_directly (0x301, 62, 2) mxl c;
           c \<leftarrow> csr_set_directly (0x300, 34, 2) mxl c;
           c \<leftarrow> csr_set_directly (0x300, 32, 2) mxl c;
           Some \<lparr>reg_file = RegFile_new, pc = DEFAULT_PC_VALUE, memory = v_memory,
                 csr = set_current_privileged PrivM c, icache = Cache_new (direct_new 8192),
                 icache_epoch = 0, ext_units = units, time_addr = None, pending_tval = None\<rparr> })"

section \<open>Small steps\<close>

definition on_csr :: "(CsrRegFile \<Rightarrow> CsrRegFile option) \<Rightarrow> ('d, 'x) RVCPU \<Rightarrow> ('d, 'x) RVCPU option" where
  "on_csr f cpu = map_option (\<lambda>c. cpu\<lparr>csr := c\<rparr>) (f (csr cpu))"

definition with_regs :: "u8 \<Rightarrow> u8 \<Rightarrow> (u64 \<Rightarrow> u64 \<Rightarrow> ('d, 'x, 'a) cpu_prog) \<Rightarrow> ('d, 'x, 'a) cpu_prog" where
  "with_regs id1 id2 k cpu = Option.bind (RegFile_read (reg_file cpu) id1 id2) (\<lambda>(v1, v2). k v1 v2 cpu)"

definition write_reg :: "u8 \<Rightarrow> u64 \<Rightarrow> ('d, 'x, unit) cpu_prog" where
  "write_reg i v cpu = map_option (\<lambda>rf. (Ok (), cpu\<lparr>reg_file := rf\<rparr>)) (RegFile_write i v (reg_file cpu))"

definition write_pc :: "u64 \<Rightarrow> ('d, 'x) RVCPU \<Rightarrow> ('d, 'x) RVCPU" where
  "write_pc new_pc cpu = cpu\<lparr>pc := new_pc\<rparr>"

definition Minstret_wrapping_add :: "u64 \<Rightarrow> CsrRegFile \<Rightarrow> CsrRegFile option" where
  "Minstret_wrapping_add rhs c = do { v \<leftarrow> csr_get (0xB02, 0, 64) c; csr_set (0xB02, 0, 64) (v + rhs) c }"

definition Misa_c_enabled :: "CsrRegFile \<Rightarrow> bool option" where
  "Misa_c_enabled c = map_option (\<lambda>e. e AND 4 \<noteq> 0) (csr_get (0x301, 0, 25) c)"

definition retire :: "u64 \<Rightarrow> ('d, 'x, unit) cpu_prog" where
  "retire next_pc cpu = map_option (Pair (Ok ())) (on_csr (Minstret_wrapping_add 1) (write_pc next_pc cpu))"

section \<open>Interrupt inputs\<close>

fun handle_irq :: "Interrupt \<Rightarrow> bool \<Rightarrow> ('d, 'x) RVCPU \<Rightarrow> ('d, 'x) RVCPU option" where
  "handle_irq MachineTimer level = on_csr (csr_set (0x344, 7, 1) (of_bool level))"
| "handle_irq MachineExternal level = on_csr (csr_set (0x344, 11, 1) (of_bool level))"
| "handle_irq SupervisorExternal level = on_csr (csr_set (0x344, 9, 1) (of_bool level))"
| "handle_irq MachineSoft level = on_csr (csr_set (0x344, 3, 1) (of_bool level))"
| "handle_irq _ level = (\<lambda>_. None)"

fun apply_irqs :: "irq_event list \<Rightarrow> ('d, 'x) RVCPU \<Rightarrow> ('d, 'x) RVCPU option" where
  "apply_irqs [] cpu = Some cpu"
| "apply_irqs ((nr, level) # evs) cpu = Option.bind (handle_irq nr level cpu) (apply_irqs evs)"

definition drain_irqs :: "('d, 'x) RVCPU \<Rightarrow> ('d, 'x) RVCPU option" where
  "drain_irqs cpu =
     (let vm = memory cpu; io = mmio vm in
      apply_irqs (irq_out io) (cpu\<lparr>memory := vm\<lparr>mmio := io\<lparr>irq_out := []\<rparr>\<rparr>\<rparr>))"

definition on_memory :: "('d VirtAddrManager, 'a, 'e) prog \<Rightarrow> (('d, 'x) RVCPU, 'a, 'e) prog" where
  "on_memory f cpu =
     Option.bind (f (memory cpu)) (\<lambda>(r, vm). map_option (Pair r) (drain_irqs (cpu\<lparr>memory := vm\<rparr>)))"

section \<open>Memory accesses\<close>

definition finish_memory_access ::
  "u64 \<Rightarrow> ('a, MemError) result \<Rightarrow> ('d, 'x) RVCPU \<Rightarrow> ('a, Exception) result \<times> ('d, 'x) RVCPU" where
  "finish_memory_access addr result cpu =
     (case result of
        Ok v \<Rightarrow> (Ok v, cpu)
      | Err err \<Rightarrow> (Err (from_memory_err err), cpu\<lparr>pending_tval := Some addr\<rparr>))"

definition data_access ::
  "AccessType \<Rightarrow> u64 \<Rightarrow> (AccessPolicy \<Rightarrow> ('d VirtAddrManager, 'a, MemError) prog) \<Rightarrow> ('d, 'x, 'a) cpu_prog" where
  "data_access access addr f cpu =
     do { pol \<leftarrow> resolve_data_policy (csr cpu) access True;
          (result, cpu) \<leftarrow> on_memory (f pol) cpu;
          Some (finish_memory_access addr result cpu) }"

definition cpu_read :: "'d device_ops \<Rightarrow> u64 \<Rightarrow> ('d, 'x, 'a::len word) cpu_prog" where
  "cpu_read ops addr = data_access Read addr (read_with_policy ops addr)"

definition cpu_write :: "'d device_ops \<Rightarrow> u64 \<Rightarrow> 'a::len word \<Rightarrow> ('d, 'x, unit) cpu_prog" where
  "cpu_write ops addr v = data_access Write addr (write_with_policy ops addr v)"

definition cpu_load_reserved :: "u64 \<Rightarrow> ('d, 'x, 'a::len word) cpu_prog" where
  "cpu_load_reserved addr = data_access Read addr (load_reserved_with_policy addr)"

definition cpu_store_conditional :: "u64 \<Rightarrow> 'a::len word \<Rightarrow> ('d, 'x, bool) cpu_prog" where
  "cpu_store_conditional addr v = data_access Write addr (store_conditional_with_policy addr v)"

definition fetch_and_op_amo :: "u64 \<Rightarrow> 'a::len word \<Rightarrow> 'a word amo_fun \<Rightarrow> ('d, 'x, 'a word) cpu_prog" where
  "fetch_and_op_amo addr rhs_val f cpu =
     do { pol \<leftarrow> resolve_data_policy (csr cpu) ReadWrite True;
          (result, cpu) \<leftarrow> on_memory (fetch_and_op_amo_with_policy addr rhs_val pol f) cpu;
          Some (result, if is_ok result then cpu else cpu\<lparr>pending_tval := Some addr\<rparr>) }"

definition read_for_ifetch :: "'d device_ops \<Rightarrow> u64 \<Rightarrow> (('d, 'x) RVCPU, 'a::len word, MemError) prog" where
  "read_for_ifetch ops addr cpu =
     do { pol \<leftarrow> resolve_ifetch_policy (csr cpu) True; on_memory (read_with_policy ops addr pol) cpu }"

definition read_for_debug_ifetch :: "'d device_ops \<Rightarrow> u64 \<Rightarrow> (('d, 'x) RVCPU, 'a::len word, MemError) prog" where
  "read_for_debug_ifetch ops addr cpu =
     do { pol \<leftarrow> resolve_ifetch_policy (csr cpu) False; on_memory (read_with_policy ops addr pol) cpu }"

definition translate_for_debug :: "u64 \<Rightarrow> AccessType \<Rightarrow> (('d, 'x) RVCPU, u64, PageTableError) prog" where
  "translate_for_debug addr access cpu =
     do { pol \<leftarrow> resolve_data_policy (csr cpu) access False;
          on_memory (translate_for_debug_with_policy addr pol) cpu }"

section \<open>Caches, registers and power\<close>

definition flush_icache :: "('d, 'x) RVCPU \<Rightarrow> ('d, 'x) RVCPU" where
  "flush_icache cpu =
     cpu\<lparr>icache := Cache_clear direct_clear (icache cpu), icache_epoch := icache_epoch cpu + 1\<rparr>"

definition flush_tlb :: "('d, 'x) RVCPU \<Rightarrow> ('d, 'x) RVCPU" where
  "flush_tlb cpu = cpu\<lparr>memory := vm_flush_tlb (memory cpu)\<rparr>"

definition power_off :: "'d device_ops \<Rightarrow> ('d, 'x) RVCPU \<Rightarrow> ('d, 'x) RVCPU option" where
  "power_off ops cpu =
     Option.bind (vm_sync ops (memory cpu)) (\<lambda>vm. drain_irqs (cpu\<lparr>memory := vm\<rparr>))"

definition read_csr :: "'d device_ops \<Rightarrow> u64 \<Rightarrow> ('d, 'x, u64) cpu_prog" where
  "read_csr ops addr cpu =
     (if addr = 0xc01 then
        (case time_addr cpu of
           Some ta \<Rightarrow>
             do { (r, cpu) \<leftarrow> on_memory (read_by_paddr ops ta) cpu;
                  Some (case r of Ok (t :: u64) \<Rightarrow> Ok t | Err _ \<Rightarrow> Err Ex_IllegalInstruction, cpu) }
         | None \<Rightarrow> Some (Err Ex_IllegalInstruction, cpu))
      else
        do { v \<leftarrow> read_checked addr (csr cpu);
             Some (case v of Some w \<Rightarrow> Ok w | None \<Rightarrow> Err Ex_IllegalInstruction, cpu) })"

definition apply_satp :: "('d, 'x) RVCPU \<Rightarrow> ('d, 'x) RVCPU option" where
  "apply_satp cpu =
     do { m \<leftarrow> csr_get (0x180, 60, 4) (csr cpu);
          vm \<leftarrow> vm_set_mode (ucast m) (memory cpu);
          ppn \<leftarrow> csr_get (0x180, 0, 44) (csr cpu);
          Some (flush_icache (cpu\<lparr>memory := vm_flush_tlb (set_root_ppn ppn vm)\<rparr>)) }"

definition write_csr :: "u64 \<Rightarrow> u64 \<Rightarrow> ('d, 'x, unit) cpu_prog" where
  "write_csr addr v cpu =
     do { (ok, c) \<leftarrow> write_checked addr v (csr cpu);
          if \<not> ok then Some (Err Ex_IllegalInstruction, cpu)
          else if addr = 0x180 then map_option (Pair (Ok ())) (apply_satp (cpu\<lparr>csr := c\<rparr>))
          else Some (Ok (), cpu\<lparr>csr := c\<rparr>) }"

section \<open>Well-formed processor states\<close>

text \<open>
  The invariant of the processor: thirty-two registers of which the first is zero, a well-formed
  register file, caches of the declared sizes, and no interrupt event left to deliver.
\<close>

definition cpu_wf :: "('d, 'x) RVCPU \<Rightarrow> bool" where
  "cpu_wf cpu \<longleftrightarrow>
     length (reg_file cpu) = REGFILE_CNT \<and> reg_file cpu ! 0 = 0 \<and> csr_wf (csr cpu)
     \<and> direct_inv 8192 (Caches.policy (icache cpu))
     \<and> direct_inv 512 (Caches.policy (tlb (page_table (memory cpu))))
     \<and> irq_out (mmio (memory cpu)) = []"

definition empty_board :: "unit MemoryMapIO" where
  "empty_board = from_mmio_items (Ram_new 0) arena_new []"

definition example_cpu :: "CsrRegFile \<Rightarrow> (unit, unit) RVCPU" where
  "example_cpu c =
     \<lparr>reg_file = RegFile_new, pc = DEFAULT_PC_VALUE, memory = from_ram_and_mmio empty_board, csr = c,
      icache = Cache_new (direct_new 8192), icache_epoch = 0, ext_units = (), time_addr = None, pending_tval = None\<rparr>"

lemma cpu_wfD [dest]:
  "cpu_wf cpu \<Longrightarrow> csr_wf (csr cpu)" "cpu_wf cpu \<Longrightarrow> length (reg_file cpu) = 32"
  "cpu_wf cpu \<Longrightarrow> vm_wf (memory cpu)" "cpu_wf cpu \<Longrightarrow> reg_file cpu ! 0 = 0"
  by (simp_all add: cpu_wf_def REGFILE_CNT_def vm_wf_def)

lemma cpu_wf_update [simp]:
  "cpu_wf (cpu\<lparr>pc := p\<rparr>) = cpu_wf cpu"
  "cpu_wf (cpu\<lparr>pending_tval := t\<rparr>) = cpu_wf cpu"
  "cpu_wf cpu \<Longrightarrow> cpu_wf (cpu\<lparr>csr := c\<rparr>) = csr_wf c"
  "cpu_wf cpu \<Longrightarrow> cpu_wf (flush_icache cpu)"
  "cpu_wf cpu \<Longrightarrow> cpu_wf (flush_tlb cpu)"
  using icache_laws.inv_clear tlb_laws.inv_clear
  by (auto simp: cpu_wf_def flush_icache_def flush_tlb_def vm_flush_tlb_def pt_flush_tlb_def Cache_clear_def)

definition cpu_at :: "PrivilegeLevel \<Rightarrow> ('d, 'x) RVCPU \<Rightarrow> bool" where
  "cpu_at p cpu \<longleftrightarrow> cpu_wf cpu \<and> cpl (csr cpu) = p"

lemma cpu_atD:
  "cpu_at p cpu \<Longrightarrow> cpu_wf cpu" "cpu_at p cpu \<Longrightarrow> csr_wf (csr cpu)" "cpu_at p cpu \<Longrightarrow> vm_wf (memory cpu)" "cpu_at p cpu \<Longrightarrow> cpl (csr cpu) = p"
  by (auto simp: cpu_at_def)

lemma csr_flush [simp]: "csr (flush_icache cpu) = csr cpu" "csr (flush_tlb cpu) = csr cpu"
  by (simp_all add: flush_icache_def flush_tlb_def)

lemma cpu_at_update [simp]:
  "cpu_at p (cpu\<lparr>pc := np\<rparr>) = cpu_at p cpu"
  "cpu_at p (cpu\<lparr>pending_tval := t\<rparr>) = cpu_at p cpu"
  "cpu_wf cpu \<Longrightarrow> cpu_at p (cpu\<lparr>csr := c\<rparr>) \<longleftrightarrow> csr_wf c \<and> cpl c = p"
  "cpu_at p cpu \<Longrightarrow> cpu_at p (flush_icache cpu)"
  "cpu_at p cpu \<Longrightarrow> cpu_at p (flush_tlb cpu)"
  by (auto simp: cpu_at_def)

lemma keeps_cpu_wf:
  assumes "\<And>p. keeps (cpu_at p) f"
  shows "keeps cpu_wf f"
proof (rule keepsI)
  fix cpu r cpu'
  assume "cpu_wf cpu" and f: "f cpu = Some (r, cpu')"
  then have "cpu_at (cpl (csr cpu)) cpu" by (simp add: cpu_at_def)
  then have "cpu_at (cpl (csr cpu)) cpu'" by (rule keepsD [OF assms _ f])
  then show "cpu_wf cpu'" by (simp add: cpu_at_def)
qed

lemma on_csr_wf:
  assumes "cpu_at p cpu" "on_csr f cpu = Some cpu'" "\<And>c c'. csr_wf c \<Longrightarrow> f c = Some c' \<Longrightarrow> csr_wf c' \<and> cpl c' = cpl c"
  shows "cpu_at p cpu'"
proof -
  obtain c' where "f (csr cpu) = Some c'" "cpu' = cpu\<lparr>csr := c'\<rparr>" using assms(2) by (auto simp: on_csr_def)
  then show ?thesis using assms(1) assms(3) [OF cpu_atD(2) [OF assms(1)]] cpu_atD(1,4) [OF assms(1)] by simp
qed

lemma csr_wf_set: "csr_wf c \<Longrightarrow> csr_set f v c = Some c' \<Longrightarrow> csr_wf c' \<and> cpl c' = cpl c"
  using csr_set_wf_all [of f v c c'] by simp

lemma handle_irq_wf: "cpu_at p cpu \<Longrightarrow> handle_irq nr level cpu = Some cpu' \<Longrightarrow> cpu_at p cpu'"
  by (cases nr) (auto elim!: on_csr_wf dest: csr_wf_set)

lemma apply_irqs_wf: "cpu_at p cpu \<Longrightarrow> apply_irqs evs cpu = Some cpu' \<Longrightarrow> cpu_at p cpu'"
  by (induction evs cpu rule: apply_irqs.induct) (auto simp: bind_eq_Some_conv dest: handle_irq_wf)

lemma keeps_on_memory [keeps_rules]:
  assumes "keeps vm_wf f"
  shows "keeps (cpu_at p) (on_memory f)"
proof (rule keepsI)
  fix cpu r and cpu' :: "('a, 'e) RVCPU"
  assume wf: "cpu_at p cpu" and m: "on_memory f cpu = Some (r, cpu')"
  then obtain vm where vm: "f (memory cpu) = Some (r, vm)" "drain_irqs (cpu\<lparr>memory := vm\<rparr>) = Some cpu'"
    by (auto simp: on_memory_def bind_eq_Some_conv)
  have "vm_wf vm" by (rule keepsD [OF assms cpu_atD(3) [OF wf] vm(1)])
  then have "cpu_at p (cpu\<lparr>memory := vm\<lparr>mmio := (mmio vm)\<lparr>irq_out := []\<rparr>\<rparr>\<rparr>)"
    using wf by (simp add: cpu_at_def cpu_wf_def vm_wf_def)
  then show "cpu_at p cpu'" using vm(2) by (auto simp: drain_irqs_def Let_def dest: apply_irqs_wf)
qed

lemma keeps_data_access [keeps_rules]:
  assumes "\<And>pol. keeps vm_wf (f pol)"
  shows "keeps (cpu_at p) (data_access access addr f)"
proof (rule keepsI)
  fix cpu r and cpu' :: "('a, 'e) RVCPU"
  assume wf: "cpu_at p cpu" and d: "data_access access addr f cpu = Some (r, cpu')"
  then obtain pol q cpu1 where m: "on_memory (f pol) cpu = Some (q, cpu1)" "(r, cpu') = finish_memory_access addr q cpu1"
    by (auto simp: data_access_def bind_eq_Some_conv)
  have "cpu_at p cpu1" by (rule keepsD [OF keeps_on_memory [OF assms] wf m(1)])
  then show "cpu_at p cpu'" using m(2) by (auto simp: finish_memory_access_def split: result.splits)
qed

lemma keeps_cpu_access [keeps_rules]:
  "keeps (cpu_at p) (cpu_read ops addr)"
  "keeps (cpu_at p) (cpu_write ops addr v)"
  "keeps (cpu_at p) (cpu_load_reserved addr)"
  "keeps (cpu_at p) (cpu_store_conditional addr v)"
  unfolding cpu_read_def cpu_write_def cpu_load_reserved_def cpu_store_conditional_def
  by (intro keeps_rules)+

lemma keeps_amo [keeps_rules]: "keeps (cpu_at p) (fetch_and_op_amo addr v f)"
proof (rule keepsI)
  fix cpu r and cpu' :: "('a, 'b) RVCPU"
  assume "cpu_at p cpu" "fetch_and_op_amo addr v f cpu = Some (r, cpu')"
  then show "cpu_at p cpu'"
    using keepsD [OF keeps_on_memory [OF keeps_vm_amo]]
    by (fastforce simp: fetch_and_op_amo_def bind_eq_Some_conv split: if_splits)
qed

lemma keeps_ifetch [keeps_rules]: "keeps (cpu_at p) (read_for_ifetch ops addr)"
proof (rule keepsI)
  fix cpu r and cpu' :: "('a, 'b) RVCPU"
  assume "cpu_at p cpu" "read_for_ifetch ops addr cpu = Some (r, cpu')"
  then show "cpu_at p cpu'"
    using keepsD [OF keeps_on_memory [OF keeps_vm_access(1)]]
    by (fastforce simp: read_for_ifetch_def bind_eq_Some_conv)
qed

lemma keeps_with_regs [keeps_rules]:
  assumes "\<And>v1 v2. keeps I (k v1 v2)"
  shows "keeps I (with_regs id1 id2 k)"
  using keepsD [OF assms] unfolding keeps_def with_regs_def by (fastforce simp: bind_eq_Some_conv)

lemma keeps_write_reg [keeps_rules]: "keeps (cpu_at p) (write_reg i v)"
  by (auto simp: keeps_def write_reg_def RegFile_write_def cpu_at_def cpu_wf_def unat_eq_zero split: if_splits)

lemma Minstret_wf: "csr_wf c \<Longrightarrow> Minstret_wrapping_add n c = Some c' \<Longrightarrow> csr_wf c' \<and> cpl c' = cpl c"
  by (auto simp: Minstret_wrapping_add_def bind_eq_Some_conv dest: csr_wf_set)

lemma keeps_retire [keeps_rules]: "keeps (cpu_at p) (retire np)"
proof (rule keepsI)
  fix cpu r and cpu' :: "('a, 'b) RVCPU"
  assume "cpu_at p cpu" "retire np cpu = Some (r, cpu')"
  then have "cpu_at p (write_pc np cpu)" "on_csr (Minstret_wrapping_add 1) (write_pc np cpu) = Some cpu'"
    by (auto simp: retire_def write_pc_def)
  then show "cpu_at p cpu'" by (rule on_csr_wf) (rule Minstret_wf)
qed

lemma keeps_read_csr [keeps_rules]: "keeps (cpu_at p) (read_csr ops addr)"
proof (rule keepsI)
  fix cpu r and cpu' :: "('a, 'b) RVCPU"
  assume "cpu_at p cpu" "read_csr ops addr cpu = Some (r, cpu')"
  then show "cpu_at p cpu'"
    using keepsD [OF keeps_on_memory [OF keeps_vm_access(5)]]
    by (fastforce simp: read_csr_def bind_eq_Some_conv split: option.splits if_splits)
qed

lemma apply_satp_wf:
  assumes "cpu_at p cpu" "apply_satp cpu = Some cpu'"
  shows "cpu_at p cpu'"
proof -
  obtain m vm ppn where vm: "vm_set_mode m (memory cpu) = Some vm"
      "cpu' = flush_icache (cpu\<lparr>memory := vm_flush_tlb (set_root_ppn ppn vm)\<rparr>)"
    using assms(2) by (auto simp: apply_satp_def bind_eq_Some_conv)
  have "vm_wf (vm_flush_tlb (set_root_ppn ppn vm)) \<and> irq_out (mmio (vm_flush_tlb (set_root_ppn ppn vm))) = []"
    using vm(1) assms(1) tlb_laws.inv_clear
    by (auto simp: cpu_at_def cpu_wf_def vm_wf_def vm_set_mode_def pt_set_mode_def set_root_ppn_def pt_set_root_addr_def
        vm_flush_tlb_def pt_flush_tlb_def Cache_clear_def split: if_splits)
  then have "cpu_at p (cpu\<lparr>memory := vm_flush_tlb (set_root_ppn ppn vm)\<rparr>)"
    using assms(1) by (simp add: cpu_at_def cpu_wf_def vm_wf_def)
  then show ?thesis using vm(2) by simp
qed

lemma keeps_write_csr [keeps_rules]:
  assumes "unat addr < 4096"
  shows "keeps (cpu_at p) (write_csr addr v)"
proof (rule keepsI)
  fix cpu r and cpu' :: "('a, 'b) RVCPU"
  assume wf: "cpu_at p cpu" and w: "write_csr addr v cpu = Some (r, cpu')"
  then obtain ok c where c: "write_checked addr v (csr cpu) = Some (ok, c)"
    by (auto simp: write_csr_def bind_eq_Some_conv)
  have "csr_wf c \<and> cpl c = cpl (csr cpu)"
    using c write_uncheck_effect [OF cpu_atD(2) [OF wf] assms, of v] cpu_atD(2) [OF wf]
    by (auto simp: write_checked_def bind_eq_Some_conv split: if_splits)
  then have c_wf: "cpu_at p (cpu\<lparr>csr := c\<rparr>)" using cpu_atD(1,4) [OF wf] by simp
  show "cpu_at p cpu'"
    using w c cpu_atD(1) [OF wf] wf c_wf apply_satp_wf [OF c_wf] by (cases ok; cases "addr = 0x180") (auto simp: write_csr_def)
qed

end
