(* ===== verification/TrapController.thy ===== *)
theory TrapController
  imports Cpu
begin

text \<open>
  The trap controller, \<open>isa/riscv/trap/trap_controller.rs\<close>: delegation, trap entry into M-mode and
  S-mode, the two trap returns, and the choice of a pending interrupt.  \<open>None\<close> is a panic: an
  \<open>unreachable!\<close>, a failed \<open>assert!\<close> of a field setter or an unknown cause.
\<close>

section \<open>Definitions\<close>

definition is_exception_delegated_m_mode :: "Exception \<Rightarrow> CsrRegFile \<Rightarrow> bool option" where
  "is_exception_delegated_m_mode e c =
     map_option (\<lambda>medeleg_val. medeleg_val AND push_bit (exception_code e) 1 \<noteq> 0) (csr_data 0x302 c)"

fun is_interrupt_delegated_m_mode :: "Interrupt \<Rightarrow> CsrRegFile \<Rightarrow> bool option" where
  "is_interrupt_delegated_m_mode MachineExternal c = Some False"
| "is_interrupt_delegated_m_mode MachineSoft c = Some False"
| "is_interrupt_delegated_m_mode MachineTimer c = Some False"
| "is_interrupt_delegated_m_mode SupervisorExternal c = map_option (\<lambda>v. v \<noteq> 0) (csr_get (0x303, 9, 1) c)"
| "is_interrupt_delegated_m_mode UserExternal c = map_option (\<lambda>v. v \<noteq> 0) (csr_get (0x303, 9, 1) c)"
| "is_interrupt_delegated_m_mode SupervisorSoft c = map_option (\<lambda>v. v \<noteq> 0) (csr_get (0x303, 1, 1) c)"
| "is_interrupt_delegated_m_mode UserSoft c = map_option (\<lambda>v. v \<noteq> 0) (csr_get (0x303, 1, 1) c)"
| "is_interrupt_delegated_m_mode SupervisorTimer c = map_option (\<lambda>v. v \<noteq> 0) (csr_get (0x303, 5, 1) c)"
| "is_interrupt_delegated_m_mode UserTimer c = map_option (\<lambda>v. v \<noteq> 0) (csr_get (0x303, 5, 1) c)"
| "is_interrupt_delegated_m_mode UnknownInterrupt c = None"

fun is_delegated_m_mode :: "Trap \<Rightarrow> CsrRegFile \<Rightarrow> bool option" where
  "is_delegated_m_mode (TInterrupt i) c = is_interrupt_delegated_m_mode i c"
| "is_delegated_m_mode (TException e) c = is_exception_delegated_m_mode e c"

definition next_pc_by_tvec :: "Trap \<Rightarrow> u64 \<Rightarrow> u64 \<Rightarrow> u64 option" where
  "next_pc_by_tvec cause m base =
     (if m = 0 then Some (push_bit 2 base)
      else if m = 1 then
        (case cause of
           TException _ \<Rightarrow> Some (push_bit 2 base)
         | TInterrupt ir \<Rightarrow> map_option (\<lambda>offset. push_bit 2 base + offset * 4) (Interrupt_into ir))
      else None)"

definition send_trap_signal_m_mode :: "Trap \<Rightarrow> u64 \<Rightarrow> ('d, 'x) RVCPU \<Rightarrow> ('d, 'x) RVCPU option" where
  "send_trap_signal_m_mode cause trap_value cpu =
     do { c \<leftarrow> csr_set (0x300, 11, 2) (of_nat (priv_code (cpl (csr cpu)))) (csr cpu);
          code \<leftarrow> Trap_into cause;
          c \<leftarrow> write_uncheck_privilege 0x342 code (set_current_privileged PrivM c);
          c \<leftarrow> write_uncheck_privilege 0x341 (pc cpu) c;
          c \<leftarrow> write_uncheck_privilege 0x343 trap_value c;
          mie \<leftarrow> csr_get (0x300, 3, 1) c;
          c \<leftarrow> csr_set (0x300, 7, 1) mie c;
          c \<leftarrow> csr_set (0x300, 3, 1) 0 c;
          m \<leftarrow> csr_get (0x305, 0, 2) c;
          base \<leftarrow> csr_get (0x305, 2, 62) c;
          next_pc \<leftarrow> next_pc_by_tvec cause m base;
          Some (write_pc next_pc (cpu\<lparr>csr := c\<rparr>)) }"

definition mret :: "('d, 'x) RVCPU \<Rightarrow> ('d, 'x) RVCPU option" where
  "mret cpu =
     do { mpie \<leftarrow> csr_get (0x300, 7, 1) (csr cpu);
          c \<leftarrow> csr_set (0x300, 3, 1) mpie (csr cpu);
          c \<leftarrow> csr_set (0x300, 7, 1) 1 c;
          epc \<leftarrow> Option.bind (read_uncheck_privilege 0x341 c) id;
          new_priv \<leftarrow> csr_get (0x300, 11, 2) c;
          c \<leftarrow> (if ucast new_priv \<noteq> (3 :: u8) then csr_set (0x300, 17, 1) 0 c else Some c);
          level \<leftarrow> (case PrivilegeLevel_try_from (ucast new_priv) of Ok l \<Rightarrow> Some l | Err _ \<Rightarrow> None);
          c \<leftarrow> csr_set (0x300, 11, 2) 0 (set_current_privileged level c);
          Some (write_pc epc (cpu\<lparr>csr := c\<rparr>)) }"

definition assert_write :: "u64 \<Rightarrow> u64 \<Rightarrow> CsrRegFile \<Rightarrow> CsrRegFile option" where
  "assert_write addr v c = (case csr_write_directly addr v c of (ok, c') \<Rightarrow> if ok then Some c' else None)"

definition send_trap_signal_s_mode :: "Trap \<Rightarrow> u64 \<Rightarrow> ('d, 'x) RVCPU \<Rightarrow> ('d, 'x) RVCPU option" where
  "send_trap_signal_s_mode cause trap_value cpu =
     do { c \<leftarrow> csr_set (0x100, 8, 1) (of_nat (priv_code (cpl (csr cpu)))) (csr cpu);
          code \<leftarrow> Trap_into cause;
          c \<leftarrow> assert_write 0x142 code (set_current_privileged PrivS c);
          c \<leftarrow> assert_write 0x141 (pc cpu) c;
          c \<leftarrow> assert_write 0x143 trap_value c;
          sie \<leftarrow> csr_get (0x100, 1, 1) c;
          c \<leftarrow> csr_set (0x100, 5, 1) sie c;
          c \<leftarrow> csr_set (0x100, 1, 1) 0 c;
          m \<leftarrow> csr_get (0x105, 0, 2) c;
          base \<leftarrow> csr_get (0x105, 2, 62) c;
          next_pc \<leftarrow> next_pc_by_tvec cause m base;
          Some (write_pc next_pc (cpu\<lparr>csr := c\<rparr>)) }"

definition sret :: "('d, 'x) RVCPU \<Rightarrow> ('d, 'x) RVCPU option" where
  "sret cpu =
     do { spie \<leftarrow> csr_get (0x100, 5, 1) (csr cpu);
          c \<leftarrow> csr_set (0x100, 1, 1) spie (csr cpu);
          c \<leftarrow> csr_set (0x100, 5, 1) 1 c;
          epc \<leftarrow> Option.bind (read_uncheck_privilege 0x141 c) id;
          new_priv \<leftarrow> csr_get (0x100, 8, 1) c;
          c \<leftarrow> csr_set (0x300, 17, 1) 0 c;
          level \<leftarrow> (case PrivilegeLevel_try_from (ucast new_priv) of Ok l \<Rightarrow> Some l | Err _ \<Rightarrow> None);
          c \<leftarrow> csr_set (0x100, 8, 1) 0 (set_current_privileged level c);
          Some (write_pc epc (cpu\<lparr>csr := c\<rparr>)) }"

definition try_send_trap_signal :: "Trap \<Rightarrow> u64 \<Rightarrow> ('d, 'x) RVCPU \<Rightarrow> (bool \<times> ('d, 'x) RVCPU) option" where
  "try_send_trap_signal cause trap_value cpu =
     (let level = cpl (csr cpu) in
      do { to_m \<leftarrow> (if level = PrivM then Some True else map_option Not (is_delegated_m_mode cause (csr cpu)));
           (if to_m then
              (case cause of
                 TException _ \<Rightarrow> map_option (Pair True) (send_trap_signal_m_mode cause trap_value cpu)
               | TInterrupt _ \<Rightarrow>
                   do { mie \<leftarrow> csr_get (0x300, 3, 1) (csr cpu);
                        if level < PrivM \<or> mie = 1
                        then map_option (Pair True) (send_trap_signal_m_mode cause trap_value cpu)
                        else Some (False, cpu) })
            else
              (case cause of
                 TException _ \<Rightarrow> map_option (Pair True) (send_trap_signal_s_mode cause trap_value cpu)
               | TInterrupt _ \<Rightarrow>
                   do { sie \<leftarrow> csr_get (0x300, 1, 1) (csr cpu);
                        if level < PrivS \<or> sie = 1
                        then map_option (Pair True) (send_trap_signal_s_mode cause trap_value cpu)
                        else Some (False, cpu) })) })"

definition take_exception :: "Exception \<Rightarrow> u64 \<Rightarrow> ('d, 'x) RVCPU \<Rightarrow> ('d, 'x) RVCPU option" where
  "take_exception e trap_value cpu = map_option snd (try_send_trap_signal (TException e) trap_value cpu)"

definition has_interrupt :: "CsrRegFile \<Rightarrow> Interrupt option option" where
  "has_interrupt c =
     do { mip \<leftarrow> csr_data 0x344 c;
          mie \<leftarrow> csr_data 0x304 c;
          let pending_interrupts = mip AND mie in
          if pending_interrupts = 0 then Some None
          else (case find (\<lambda>i. pending_interrupts AND push_bit i 1 \<noteq> 0) [0..<16] of
                  Some i \<Rightarrow> Some (Some (Interrupt_from i))
                | None \<Rightarrow> None) }"

definition try_take_interrupt :: "('d, 'x) RVCPU \<Rightarrow> (Interrupt option \<times> ('d, 'x) RVCPU) option" where
  "try_take_interrupt cpu =
     do { i \<leftarrow> has_interrupt (csr cpu);
          (case i of
             None \<Rightarrow> Some (None, cpu)
           | Some nr \<Rightarrow>
               do { (taken, cpu) \<leftarrow> try_send_trap_signal (TInterrupt nr) 0 cpu;
                    Some (if taken then Some nr else None, cpu) }) }"

section \<open>Trap entry\<close>

lemma write_full:
  assumes "csr_wf c" "a \<in> {0x341, 0x342, 0x343}"
  shows "write_uncheck_privilege a v c = Some (csr_put a v c)"
proof -
  have "write_uncheck_privilege a v c = Some (csr_put a (get_new_value \<lparr>op_mask = - 1\<rparr> (csr_val c a) v) c)"
    using assms(2) by (intro write_plain [OF assms(1), of a "the (desc_of a)"]) (auto simp: is_alias_def)
  then show ?thesis by (simp add: get_new_value_def)
qed

lemma assert_write_wf:
  assumes "csr_wf c" "desc_of a = Some d"
  shows "assert_write a v c = Some (csr_put a v c)"
  using csr_wf_reg [OF assms] desc_of_in_range [OF assms(2)]
  by (auto simp: assert_write_def csr_write_directly_def CsrReg_write_directly_def csr_put_def CSR_SIZE_def)

lemma priv_code_bound: "of_nat (priv_code p) \<le> (mask 2 :: u64)"
  by (cases p) (simp_all add: mask_eq_exp_minus_1 word_le_nat_alt)

lemma csr_put_commute: "a \<noteq> b \<Longrightarrow> csr_put a v (csr_put b u c) = csr_put b u (csr_put a v c)"
  by (simp add: csr_put_def csr_store_def fun_upd_twist)

lemma set_current_privileged_put:
  "set_current_privileged p (csr_put a v c) = csr_put a v (set_current_privileged p c)"
  by (simp add: csr_put_def csr_store_def set_current_privileged_def)

definition m_trap_status :: "PrivilegeLevel \<Rightarrow> u64 \<Rightarrow> u64" where
  "m_trap_status p ms = field_put 3 1 0 (field_put 7 1 (of_bool (bit ms 3)) (field_put 11 2 (of_nat (priv_code p)) ms))"

definition s_trap_status :: "PrivilegeLevel \<Rightarrow> u64 \<Rightarrow> u64" where
  "s_trap_status p ms = field_put 1 1 0 (field_put 5 1 (of_bool (bit ms 1)) (field_put 8 1 (of_nat (priv_code p)) ms))"

lemma send_trap_signal_m_mode_eq:
  assumes "csr_wf (csr cpu)" "Trap_into cause = Some code"
    and "next_pc_by_tvec cause (field_get 0 2 (csr_val (csr cpu) 0x305)) (field_get 2 62 (csr_val (csr cpu) 0x305)) = Some npc"
  shows "send_trap_signal_m_mode cause tval cpu = Some (cpu\<lparr>pc := npc, csr :=
      csr_put 0x300 (m_trap_status (cpl (csr cpu)) (csr_val (csr cpu) 0x300))
        (csr_put 0x343 tval (csr_put 0x341 (pc cpu) (csr_put 0x342 code (set_current_privileged PrivM (csr cpu)))))\<rparr>)"
  using assms priv_code_bound [of "cpl (csr cpu)"]
  by (simp add: send_trap_signal_m_mode_def csr_simps write_full write_pc_def m_trap_status_def
      set_current_privileged_put csr_put_commute [of "0x300"] bit_field_put mask_eq_exp_minus_1)

lemma send_trap_signal_s_mode_eq:
  assumes "csr_wf (csr cpu)" "Trap_into cause = Some code" "cpl (csr cpu) \<le> PrivS"
    and "next_pc_by_tvec cause (field_get 0 2 (csr_val (csr cpu) 0x105)) (field_get 2 62 (csr_val (csr cpu) 0x105)) = Some npc"
  shows "send_trap_signal_s_mode cause tval cpu = Some (cpu\<lparr>pc := npc, csr :=
      csr_put 0x300 (s_trap_status (cpl (csr cpu)) (csr_val (csr cpu) 0x300))
        (csr_put 0x143 tval (csr_put 0x141 (pc cpu) (csr_put 0x142 code (set_current_privileged PrivS (csr cpu)))))\<rparr>)"
proof -
  have "of_nat (priv_code (cpl (csr cpu))) \<le> (1 :: u64)"
    using assms(3) by (cases "cpl (csr cpu)") (simp_all add: less_eq_PrivilegeLevel_def)
  then show ?thesis using assms
    by (simp add: send_trap_signal_s_mode_def csr_simps assert_write_wf write_pc_def s_trap_status_def
      set_current_privileged_put csr_put_commute [of "0x300"] bit_field_put mask_eq_exp_minus_1)
qed

lemma tvec_direct:
  assumes "field_get 0 2 t \<le> 1"
  shows "next_pc_by_tvec (TException e) (field_get 0 2 t) (field_get 2 62 t) = Some (t AND NOT 3)"
proof -
  have three: "(3 :: u64) = mask 2" by (simp add: mask_eq_exp_minus_1)
  have "push_bit 2 (field_get 2 62 t) = t AND NOT 3"
  proof (rule bit_word_eqI)
    fix n
    assume "n < LENGTH(64)"
    moreover have "2 \<le> n \<Longrightarrow> 2 + (n - 2) = n" by simp
    ultimately show "bit (push_bit 2 (field_get 2 62 t)) n = bit (t AND NOT 3) n"
      unfolding three by (cases "n < 2") (simp_all add: bit_push_bit_iff bit_field_get bit_and_iff bit_not_iff bit_mask_iff)
  qed
  moreover have "field_get 0 2 t = 0 \<or> field_get 0 2 t = 1"
    using assms field_get_two_cases [of 0 t] by (auto simp: word_le_nat_alt)
  ultimately show ?thesis by (auto simp: next_pc_by_tvec_def)
qed

lemma trap_status_bits:
  "bit (m_trap_status p ms) k \<longleftrightarrow>
     (if k = 3 then False else if k = 7 then bit ms 3
      else if k = 11 then p \<in> {PrivS, PrivM} else if k = 12 then p \<in> {PrivV, PrivM} else bit ms k)"
  "p \<le> PrivS \<Longrightarrow> bit (s_trap_status p ms) k \<longleftrightarrow>
     (if k = 1 then False else if k = 5 then bit ms 1 else if k = 8 then p = PrivS else bit ms k)"
proof -
  show "bit (m_trap_status p ms) k \<longleftrightarrow>
     (if k = 3 then False else if k = 7 then bit ms 3
      else if k = 11 then p \<in> {PrivS, PrivM} else if k = 12 then p \<in> {PrivV, PrivM} else bit ms k)"
    by (cases p) (auto simp: m_trap_status_def bit_field_put)
  show "p \<le> PrivS \<Longrightarrow> bit (s_trap_status p ms) k \<longleftrightarrow>
     (if k = 1 then False else if k = 5 then bit ms 1 else if k = 8 then p = PrivS else bit ms k)"
    by (cases p) (auto simp: s_trap_status_def bit_field_put less_eq_PrivilegeLevel_def)
qed

lemma exception_delegated_eq:
  "csr_wf c \<Longrightarrow> is_exception_delegated_m_mode e c = Some (bit (csr_val c 0x302) (exception_code e))"
  by (simp add: is_exception_delegated_m_mode_def csr_simps)

text \<open>
  C31.  An exception taken in M-mode, or not delegated by \<open>medeleg\<close>, always enters M-mode: the
  cause, the faulting address and the trap value are recorded, MPP holds the old privilege, MPIE the
  old MIE, MIE is cleared, execution continues at the trap vector, and nothing else changes.
\<close>

theorem exception_to_machine:
  assumes "csr_wf (csr cpu)" "e \<noteq> Ex_Unknown" "field_get 0 2 (csr_val (csr cpu) 0x305) \<le> 1"
    and "cpl (csr cpu) = PrivM \<or> \<not> bit (csr_val (csr cpu) 0x302) (exception_code e)"
  shows "\<exists>c. take_exception e tval cpu = Some (cpu\<lparr>pc := csr_val (csr cpu) 0x305 AND NOT 3, csr := c\<rparr>)
    \<and> csr_wf c \<and> cpl c = PrivM
    \<and> csr_val c 0x342 = of_nat (exception_code e) \<and> csr_val c 0x341 = pc cpu \<and> csr_val c 0x343 = tval
    \<and> field_get 11 2 (csr_val c 0x300) = of_nat (priv_code (cpl (csr cpu)))
    \<and> (bit (csr_val c 0x300) 7 \<longleftrightarrow> bit (csr_val (csr cpu) 0x300) 3) \<and> \<not> bit (csr_val c 0x300) 3
    \<and> (\<forall>k. k \<notin> {3, 7, 11, 12} \<longrightarrow> bit (csr_val c 0x300) k = bit (csr_val (csr cpu) 0x300) k)
    \<and> (\<forall>a. a \<notin> {0x300, 0x341, 0x342, 0x343} \<longrightarrow> csr_val c a = csr_val (csr cpu) a)"
proof -
  let ?c = "csr_put 0x300 (m_trap_status (cpl (csr cpu)) (csr_val (csr cpu) 0x300)) (csr_put 0x343 tval
    (csr_put 0x341 (pc cpu) (csr_put 0x342 (of_nat (exception_code e)) (set_current_privileged PrivM (csr cpu)))))"
  have "try_send_trap_signal (TException e) tval cpu =
      map_option (Pair True) (send_trap_signal_m_mode (TException e) tval cpu)"
    using assms(1,4) by (auto simp: try_send_trap_signal_def exception_delegated_eq Let_def)
  moreover have "Trap_into (TException e) = Some (of_nat (exception_code e))"
    using Exception_into_code [OF assms(2)] by simp
  note send_trap_signal_m_mode_eq [OF assms(1) this tvec_direct [OF assms(3)], of tval]
  ultimately have "take_exception e tval cpu = Some (cpu\<lparr>pc := csr_val (csr cpu) 0x305 AND NOT 3, csr := ?c\<rparr>)"
    by (simp add: take_exception_def)
  moreover have "field_get 11 2 (m_trap_status p ms) = of_nat (priv_code p)" for p ms
    by (rule bit_word_eqI) (cases p; auto simp: bit_field_get trap_status_bits numeral_2_eq_2 less_Suc_eq)
  ultimately show ?thesis
    using assms(1) by (intro exI [of _ ?c]) (simp add: trap_status_bits)
qed

theorem exception_to_machine_witness:
  "\<exists>c. take_exception Ex_Breakpoint 0 (example_cpu CsrRegFile_new) = Some (example_cpu CsrRegFile_new\<lparr>pc := 0, csr := c\<rparr>)
    \<and> csr_val c 0x341 = 0x80000000 \<and> csr_val c 0x342 = 3"
  using exception_to_machine [of "example_cpu CsrRegFile_new" Ex_Breakpoint 0]
  by (auto simp: example_cpu_def csr_wf_new csr_val_new desc_defs field_get_def DEFAULT_PC_VALUE_def BASE_ADDR_def)

section \<open>Trap return\<close>

definition m_ret_status :: "u64 \<Rightarrow> u64" where
  "m_ret_status ms =
     (let ms1 = field_put 7 1 1 (field_put 3 1 (of_bool (bit ms 7)) ms) in
      field_put 11 2 0 (if field_get 11 2 ms = 3 then ms1 else field_put 17 1 0 ms1))"

definition s_ret_status :: "u64 \<Rightarrow> u64" where
  "s_ret_status ms =
     field_put 8 1 0 (field_put 17 1 0 (field_put 5 1 1 (field_put 1 1 (of_bool (bit ms 5)) ms)))"

lemma ret_status_bits:
  "bit (m_ret_status ms) k \<longleftrightarrow>
     (if k = 3 then bit ms 7 else if k = 7 then True else if k \<in> {11, 12} then False
      else if k = 17 then bit ms 17 \<and> field_get 11 2 ms = 3 else bit ms k)"
  "bit (s_ret_status ms) k \<longleftrightarrow>
     (if k = 1 then bit ms 5 else if k = 5 then True else if k \<in> {8, 17} then False else bit ms k)"
  by (auto simp: m_ret_status_def s_ret_status_def bit_field_put Let_def)

lemma field_get_put_two:
  "field_get 11 2 (field_put 7 1 x w) = field_get 11 2 w" "field_get 11 2 (field_put 3 1 x w) = field_get 11 2 w"
  by (rule bit_word_eqI; auto simp: bit_field_get bit_field_put)+

lemma read_epc:
  "csr_wf c \<Longrightarrow> read_uncheck_privilege 0x341 c = Some (Some (csr_val c 0x341))"
  "csr_wf c \<Longrightarrow> read_uncheck_privilege 0x141 c = Some (Some (csr_val c 0x141))"
  by (rule read_plain; simp add: is_alias_def)+

lemma mret_eq:
  assumes "csr_wf (csr cpu)"
  shows "mret cpu = Some (cpu\<lparr>pc := csr_val (csr cpu) 0x341, csr :=
      csr_put 0x300 (m_ret_status (csr_val (csr cpu) 0x300))
        (set_current_privileged (priv_of_code (field_get 11 2 (csr_val (csr cpu) 0x300))) (csr cpu))\<rparr>)"
proof -
  let ?ms = "csr_val (csr cpu) 0x300"
  have "field_get 11 2 ?ms \<in> {0, 1, 2, 3}" by (rule field_get_two_cases)
  then show ?thesis using assms
    by (elim insertE emptyE)
       (simp_all add: mret_def csr_simps read_epc m_ret_status_def field_get_put_two [simplified] priv_of_code_def
         PrivilegeLevel_try_from_def set_current_privileged_put write_pc_def mask_eq_exp_minus_1 bit_field_put Let_def)
qed

lemma sret_eq:
  assumes "csr_wf (csr cpu)"
  shows "sret cpu = Some (cpu\<lparr>pc := csr_val (csr cpu) 0x141, csr :=
      csr_put 0x300 (s_ret_status (csr_val (csr cpu) 0x300))
        (set_current_privileged (if bit (csr_val (csr cpu) 0x300) 8 then PrivS else PrivU) (csr cpu))\<rparr>)"
  using assms
  by (cases "bit (csr_val (csr cpu) 0x300) 8")
     (simp_all add: sret_def csr_simps read_epc s_ret_status_def PrivilegeLevel_try_from_def
       set_current_privileged_put write_pc_def mask_eq_exp_minus_1 bit_field_put)

lemma send_trap_signal_m_mode_cause:
  assumes "csr_wf (csr cpu)" "send_trap_signal_m_mode cause tval cpu = Some cpu1"
  shows "\<exists>code npc. Trap_into cause = Some code
    \<and> next_pc_by_tvec cause (field_get 0 2 (csr_val (csr cpu) 0x305)) (field_get 2 62 (csr_val (csr cpu) 0x305)) = Some npc"
  using assms priv_code_bound [of "cpl (csr cpu)"]
  by (cases "Trap_into cause"; cases "next_pc_by_tvec cause (field_get 0 2 (csr_val (csr cpu) 0x305))
        (field_get 2 62 (csr_val (csr cpu) 0x305))")
     (simp_all add: send_trap_signal_m_mode_def csr_simps write_full set_current_privileged_put mask_eq_exp_minus_1)

lemma send_trap_signal_s_mode_cause:
  assumes "csr_wf (csr cpu)" "send_trap_signal_s_mode cause tval cpu = Some cpu1"
  shows "\<exists>code npc. Trap_into cause = Some code \<and> cpl (csr cpu) \<le> PrivS
    \<and> next_pc_by_tvec cause (field_get 0 2 (csr_val (csr cpu) 0x105)) (field_get 2 62 (csr_val (csr cpu) 0x105)) = Some npc"
proof -
  have p: "cpl (csr cpu) \<le> PrivS"
    using assms(2)
    by (cases "cpl (csr cpu)")
       (auto simp: send_trap_signal_s_mode_def csr_field_unfold BIT_ONES_ARRAY_nth less_eq_PrivilegeLevel_def word_le_nat_alt)
  then have "of_nat (priv_code (cpl (csr cpu))) \<le> (1 :: u64)"
    by (cases "cpl (csr cpu)") (simp_all add: less_eq_PrivilegeLevel_def)
  then show ?thesis using assms p
    by (cases "Trap_into cause"; cases "next_pc_by_tvec cause (field_get 0 2 (csr_val (csr cpu) 0x105))
          (field_get 2 62 (csr_val (csr cpu) 0x105))")
       (simp_all add: send_trap_signal_s_mode_def csr_simps assert_write_wf set_current_privileged_put mask_eq_exp_minus_1)
qed

text \<open>
  C32.  An exception raised below M-mode and delegated by \<open>medeleg\<close> enters S-mode when the mode field of \<open>stvec\<close> is 0
  (direct) or 1 (vectored): \<open>scause\<close>, \<open>sepc\<close> and \<open>stval\<close> record it, SPP holds the old privilege, SPIE the old SIE, SIE
  is cleared, execution continues at the base of \<open>stvec\<close>, and nothing else changes; in particular no machine-level
  field does.  With one of the reserved modes 2 and 3, which nothing keeps the guest from writing to \<open>stvec\<close>, the
  emulator panics.
\<close>

theorem exception_to_supervisor:
  assumes "csr_wf (csr cpu)" "e \<noteq> Ex_Unknown" "cpl (csr cpu) \<le> PrivS" "bit (csr_val (csr cpu) 0x302) (exception_code e)"
  shows "if field_get 0 2 (csr_val (csr cpu) 0x105) \<le> 1
    then \<exists>c. take_exception e tval cpu = Some (cpu\<lparr>pc := csr_val (csr cpu) 0x105 AND NOT 3, csr := c\<rparr>)
      \<and> csr_wf c \<and> cpl c = PrivS
      \<and> csr_val c 0x142 = of_nat (exception_code e) \<and> csr_val c 0x141 = pc cpu \<and> csr_val c 0x143 = tval
      \<and> (bit (csr_val c 0x300) 8 \<longleftrightarrow> cpl (csr cpu) = PrivS)
      \<and> (bit (csr_val c 0x300) 5 \<longleftrightarrow> bit (csr_val (csr cpu) 0x300) 1) \<and> \<not> bit (csr_val c 0x300) 1
      \<and> (\<forall>k. k \<notin> {1, 5, 8} \<longrightarrow> bit (csr_val c 0x300) k = bit (csr_val (csr cpu) 0x300) k)
      \<and> (\<forall>a. a \<notin> {0x300, 0x141, 0x142, 0x143} \<longrightarrow> csr_val c a = csr_val (csr cpu) a)
    else take_exception e tval cpu = None"
proof -
  let ?c = "csr_put 0x300 (s_trap_status (cpl (csr cpu)) (csr_val (csr cpu) 0x300)) (csr_put 0x143 tval
    (csr_put 0x141 (pc cpu) (csr_put 0x142 (of_nat (exception_code e)) (set_current_privileged PrivS (csr cpu)))))"
  have "cpl (csr cpu) \<noteq> PrivM" using assms(3) by (auto simp: less_eq_PrivilegeLevel_def)
  then have t: "try_send_trap_signal (TException e) tval cpu =
      map_option (Pair True) (send_trap_signal_s_mode (TException e) tval cpu)"
    using assms(1,4) by (simp add: try_send_trap_signal_def exception_delegated_eq Let_def)
  have code: "Trap_into (TException e) = Some (of_nat (exception_code e))"
    using Exception_into_code [OF assms(2)] by simp
  show ?thesis
  proof (cases "field_get 0 2 (csr_val (csr cpu) 0x105) \<le> 1")
    case True
    have "take_exception e tval cpu = Some (cpu\<lparr>pc := csr_val (csr cpu) 0x105 AND NOT 3, csr := ?c\<rparr>)"
      using t send_trap_signal_s_mode_eq [OF assms(1) code assms(3) tvec_direct [OF True], of tval] by (simp add: take_exception_def)
    then show ?thesis
      using True assms(1,3) by (simp only: if_True) (intro exI [of _ ?c], simp add: trap_status_bits)
  next
    case False
    then have "next_pc_by_tvec (TException e) (field_get 0 2 (csr_val (csr cpu) 0x105)) npc = None" for npc
      by (auto simp: next_pc_by_tvec_def)
    then have "send_trap_signal_s_mode (TException e) tval cpu = None"
      using send_trap_signal_s_mode_cause [OF assms(1), of "TException e" tval] by (metis option.discI option.exhaust)
    then show ?thesis using False t by (simp add: take_exception_def)
  qed
qed

theorem exception_to_supervisor_witness:
  "(\<exists>c. take_exception Ex_UserEnvCall 0
        (example_cpu (set_current_privileged PrivU (csr_put 0x302 0x100 CsrRegFile_new))) =
      Some (example_cpu (set_current_privileged PrivU (csr_put 0x302 0x100 CsrRegFile_new))\<lparr>pc := 0, csr := c\<rparr>)
      \<and> cpl c = PrivS)
   \<and> take_exception Ex_UserEnvCall 0
        (example_cpu (set_current_privileged PrivU (csr_put 0x105 2 (csr_put 0x302 0x100 CsrRegFile_new)))) = None"
proof
  let ?c = "set_current_privileged PrivU (csr_put 0x302 0x100 CsrRegFile_new)"
  let ?d = "set_current_privileged PrivU (csr_put 0x105 2 (csr_put 0x302 0x100 CsrRegFile_new))"
  show "\<exists>c. take_exception Ex_UserEnvCall 0 (example_cpu ?c) = Some (example_cpu ?c\<lparr>pc := 0, csr := c\<rparr>) \<and> cpl c = PrivS"
    using exception_to_supervisor [of "example_cpu ?c" Ex_UserEnvCall 0]
    by (auto simp: example_cpu_def csr_wf_new csr_val_new desc_defs field_get_def less_eq_PrivilegeLevel_def)
  have "csr_wf (csr (example_cpu ?d))" "cpl (csr (example_cpu ?d)) \<le> PrivS"
      "bit (csr_val (csr (example_cpu ?d)) 0x302) (exception_code Ex_UserEnvCall)"
      "\<not> field_get 0 2 (csr_val (csr (example_cpu ?d)) 0x105) \<le> 1"
    by (simp_all add: example_cpu_def csr_wf_new csr_val_new desc_defs field_get_def less_eq_PrivilegeLevel_def
        take_bit_eq_mask mask_eq_exp_minus_1 word_le_nat_alt)
  then show "take_exception Ex_UserEnvCall 0 (example_cpu ?d) = None"
    using exception_to_supervisor [of "example_cpu ?d" Ex_UserEnvCall 0] by simp
qed

lemma send_trap_signal_m_mode_SomeD:
  assumes "csr_wf (csr cpu)" "send_trap_signal_m_mode cause tval cpu = Some cpu1"
  shows "csr_val (csr cpu1) 0x341 = pc cpu
    \<and> csr_val (csr cpu1) 0x300 = m_trap_status (cpl (csr cpu)) (csr_val (csr cpu) 0x300)"
  using send_trap_signal_m_mode_cause [OF assms] send_trap_signal_m_mode_eq [OF assms(1), of cause _ _ tval] assms(2)
  by auto

lemma send_trap_signal_s_mode_SomeD:
  assumes "csr_wf (csr cpu)" "send_trap_signal_s_mode cause tval cpu = Some cpu1"
  shows "cpl (csr cpu) \<le> PrivS \<and> csr_val (csr cpu1) 0x141 = pc cpu
    \<and> csr_val (csr cpu1) 0x300 = s_trap_status (cpl (csr cpu)) (csr_val (csr cpu) 0x300)"
  using send_trap_signal_s_mode_cause [OF assms] send_trap_signal_s_mode_eq [OF assms(1), of cause _ _ tval] assms(2)
  by auto

text \<open>
  C33.  Trap entry into M-mode followed by \<open>MRET\<close> resumes the interrupted program: when the handler
  gives back \<open>mepc\<close> and \<open>mstatus\<close> as it found them, the program counter, the privilege level and MIE are those
  before the trap, and \<open>mstatus\<close> differs at most in MPIE, MPP and MPRV (which is cleared on a return
  below M-mode).
\<close>

theorem trap_mret_roundtrip:
  assumes "csr_wf (csr cpu)" "send_trap_signal_m_mode cause tval cpu = Some cpu1"
    and "csr_wf (csr cpu2)" "csr_val (csr cpu2) 0x341 = csr_val (csr cpu1) 0x341"
    and "csr_val (csr cpu2) 0x300 = csr_val (csr cpu1) 0x300"
  shows "\<exists>cpu3. mret cpu2 = Some cpu3 \<and> pc cpu3 = pc cpu \<and> cpl (csr cpu3) = cpl (csr cpu)
    \<and> (\<forall>k. k \<notin> {7, 11, 12, 17} \<longrightarrow> bit (csr_val (csr cpu3) 0x300) k = bit (csr_val (csr cpu) 0x300) k)
    \<and> (bit (csr_val (csr cpu3) 0x300) 17 \<longleftrightarrow> bit (csr_val (csr cpu) 0x300) 17 \<and> cpl (csr cpu) = PrivM)
    \<and> reg_file cpu3 = reg_file cpu2 \<and> memory cpu3 = memory cpu2"
proof -
  note e = send_trap_signal_m_mode_SomeD [OF assms(1,2)]
  have f: "field_get 11 2 (m_trap_status p ms) = of_nat (priv_code p)" for p ms
    by (rule bit_word_eqI) (cases p; auto simp: bit_field_get trap_status_bits numeral_2_eq_2 less_Suc_eq)
  have "priv_of_code (of_nat (priv_code p)) = p" "of_nat (priv_code p) = (3 :: u64) \<longleftrightarrow> p = PrivM" for p
    by (cases p; simp add: priv_of_code_def)+
  then show ?thesis
    using mret_eq [OF assms(3)] assms(4,5) e by (simp add: f ret_status_bits trap_status_bits)
qed

theorem trap_mret_roundtrip_witness:
  "\<exists>cpu1 cpu3. send_trap_signal_m_mode (TException Ex_Breakpoint) 0 (example_cpu CsrRegFile_new) = Some cpu1
    \<and> mret cpu1 = Some cpu3 \<and> pc cpu3 = 0x80000000 \<and> cpl (csr cpu3) = PrivM"
proof -
  let ?cpu = "example_cpu CsrRegFile_new"
  have w: "csr_wf (csr ?cpu)" "csr_val (csr ?cpu) 0x305 = 0" "cpl (csr ?cpu) = PrivM" "pc ?cpu = 0x80000000"
    by (simp_all add: example_cpu_def csr_wf_new csr_val_new desc_defs DEFAULT_PC_VALUE_def BASE_ADDR_def)
  then obtain cpu1 where c: "send_trap_signal_m_mode (TException Ex_Breakpoint) 0 ?cpu = Some cpu1" "csr_wf (csr cpu1)"
    using send_trap_signal_m_mode_eq [OF w(1), of "TException Ex_Breakpoint" 3 0 0]
    by (auto simp: next_pc_by_tvec_def field_get_def)
  show ?thesis using trap_mret_roundtrip [OF w(1) c(1) c(2) refl refl] c w by auto
qed

text \<open>
  Trap entry into S-mode followed by \<open>SRET\<close> resumes the interrupted program in the same way, with
  \<open>sepc\<close>, SPP, SPIE and SIE; MPRV is always cleared.
\<close>

theorem trap_sret_roundtrip:
  assumes "csr_wf (csr cpu)" "send_trap_signal_s_mode cause tval cpu = Some cpu1"
    and "csr_wf (csr cpu2)" "csr_val (csr cpu2) 0x141 = csr_val (csr cpu1) 0x141"
    and "csr_val (csr cpu2) 0x300 = csr_val (csr cpu1) 0x300"
  shows "\<exists>cpu3. sret cpu2 = Some cpu3 \<and> pc cpu3 = pc cpu \<and> cpl (csr cpu3) = cpl (csr cpu)
    \<and> (\<forall>k. k \<notin> {5, 8, 17} \<longrightarrow> bit (csr_val (csr cpu3) 0x300) k = bit (csr_val (csr cpu) 0x300) k)
    \<and> \<not> bit (csr_val (csr cpu3) 0x300) 17
    \<and> reg_file cpu3 = reg_file cpu2 \<and> memory cpu3 = memory cpu2"
proof -
  note e = send_trap_signal_s_mode_SomeD [OF assms(1,2)]
  then have "cpl (csr cpu) = PrivU \<or> cpl (csr cpu) = PrivS"
    by (cases "cpl (csr cpu)") (auto simp: less_eq_PrivilegeLevel_def)
  then show ?thesis
    using sret_eq [OF assms(3)] assms(4,5) e by (auto simp: ret_status_bits trap_status_bits)
qed

theorem trap_sret_roundtrip_witness:
  "\<exists>cpu1 cpu3. send_trap_signal_s_mode (TException Ex_UserEnvCall) 0
        (example_cpu (set_current_privileged PrivU CsrRegFile_new)) = Some cpu1
    \<and> sret cpu1 = Some cpu3 \<and> pc cpu3 = 0x80000000 \<and> cpl (csr cpu3) = PrivU"
proof -
  let ?cpu = "example_cpu (set_current_privileged PrivU CsrRegFile_new)"
  have w: "csr_wf (csr ?cpu)" "csr_val (csr ?cpu) 0x105 = 0" "cpl (csr ?cpu) = PrivU" "pc ?cpu = 0x80000000"
    by (simp_all add: example_cpu_def csr_wf_new csr_val_new desc_defs DEFAULT_PC_VALUE_def BASE_ADDR_def)
  then obtain cpu1 where c: "send_trap_signal_s_mode (TException Ex_UserEnvCall) 0 ?cpu = Some cpu1" "csr_wf (csr cpu1)"
    using send_trap_signal_s_mode_eq [OF w(1), of "TException Ex_UserEnvCall" 8 0 0]
    by (auto simp: next_pc_by_tvec_def field_get_def less_eq_PrivilegeLevel_def)
  show ?thesis using trap_sret_roundtrip [OF w(1) c(1) c(2) refl refl] c w by auto
qed

section \<open>Interrupts\<close>

definition pending :: "CsrRegFile \<Rightarrow> u64" where
  "pending c = csr_val c 0x344 AND csr_val c 0x304"

lemma find_first:
  assumes "i < n" "P i" "\<And>j. j < i \<Longrightarrow> \<not> P j"
  shows "find P [0..<n] = Some i"
  using assms by (auto simp: find_Some_iff intro!: exI [of _ i])

lemma has_interrupt_first:
  assumes "csr_wf c" "i < 16" "bit (pending c) i" "\<And>j. j < i \<Longrightarrow> \<not> bit (pending c) j"
  shows "has_interrupt c = Some (Some (Interrupt_from i))"
proof -
  have "find (\<lambda>i. pending c AND push_bit i 1 \<noteq> 0) [0..<16] = Some i"
    using assms by (intro find_first) auto
  moreover have "pending c \<noteq> 0" using assms(3) by auto
  ultimately show ?thesis using assms(1) by (simp add: has_interrupt_def csr_simps pending_def)
qed

text \<open>
  C34.  When the lowest-numbered interrupt that is pending and enabled in \<open>mie\<close> is a machine interrupt, and the mode of
  \<open>mtvec\<close> is 0 or 1, it is taken from S-mode and U-mode whatever MIE says, and from M-mode exactly when MIE is set:
  it enters M-mode at the base of \<open>mtvec\<close>, plus four times its number in vectored mode, and records its cause with
  bit 63 set.  In M-mode with MIE clear nothing changes.
\<close>

theorem machine_interrupt_taken:
  assumes "csr_wf (csr cpu)" "i \<in> {3, 7, 11}" "bit (pending (csr cpu)) i" "\<forall>j < i. \<not> bit (pending (csr cpu)) j"
    and "field_get 0 2 (csr_val (csr cpu) 0x305) \<le> 1"
  shows "if cpl (csr cpu) = PrivM \<and> \<not> bit (csr_val (csr cpu) 0x300) 3
    then try_take_interrupt cpu = Some (None, cpu)
    else \<exists>cpu'. try_take_interrupt cpu = Some (Some (Interrupt_from i), cpu') \<and> cpl (csr cpu') = PrivM
      \<and> csr_val (csr cpu') 0x342 = of_nat i OR 2 ^ 63 \<and> csr_val (csr cpu') 0x341 = pc cpu
      \<and> pc cpu' = push_bit 2 (field_get 2 62 (csr_val (csr cpu) 0x305))
          + (if field_get 0 2 (csr_val (csr cpu) 0x305) = 1 then of_nat i * 4 else 0)"
proof -
  let ?nr = "Interrupt_from i" and ?t = "csr_val (csr cpu) 0x305"
  have h: "has_interrupt (csr cpu) = Some (Some ?nr)"
    using assms by (intro has_interrupt_first) auto
  have nd: "is_interrupt_delegated_m_mode ?nr (csr cpu) = Some False" "Interrupt_into ?nr = Some (of_nat i)"
    using assms(2) by (auto simp: Interrupt_from_def)
  have low: "cpl (csr cpu) < PrivM \<longleftrightarrow> cpl (csr cpu) \<noteq> PrivM"
    by (cases "cpl (csr cpu)") (auto simp: less_PrivilegeLevel_def)
  have "field_get 0 2 ?t = 0 \<or> field_get 0 2 ?t = 1"
    using assms(5) field_get_two_cases [of 0 ?t] by (auto simp: word_le_nat_alt)
  then have "next_pc_by_tvec (TInterrupt ?nr) (field_get 0 2 ?t) (field_get 2 62 ?t) =
      Some (push_bit 2 (field_get 2 62 ?t) + (if field_get 0 2 ?t = 1 then of_nat i * 4 else 0))"
    using nd(2) by (auto simp: next_pc_by_tvec_def)
  note send = send_trap_signal_m_mode_eq [OF assms(1) _ this, of "of_nat i OR push_bit 63 1" 0]
  show ?thesis
    using h nd low send assms(1)
    by (auto simp: try_take_interrupt_def try_send_trap_signal_def csr_simps Let_def XLEN_def)
qed

theorem machine_interrupt_taken_witness:
  "\<exists>cpu'. try_take_interrupt (example_cpu (set_current_privileged PrivU (csr_put 0x344 0x80 (csr_put 0x304 0x80 CsrRegFile_new))))
     = Some (Some MachineTimer, cpu') \<and> cpl (csr cpu') = PrivM"
proof -
  let ?cpu = "example_cpu (set_current_privileged PrivU (csr_put 0x344 0x80 (csr_put 0x304 0x80 CsrRegFile_new)))"
  have p: "pending (csr ?cpu) = 2 ^ 7" "cpl (csr ?cpu) = PrivU" "csr_wf (csr ?cpu)" "csr_val (csr ?cpu) 0x305 = 0"
    by (simp_all add: pending_def example_cpu_def csr_wf_new csr_val_new desc_defs)
  have "bit (pending (csr ?cpu)) 7" "\<forall>j < 7. \<not> bit (pending (csr ?cpu)) j"
    unfolding p by (simp_all only: bit_exp_iff) simp_all
  then show ?thesis
    using machine_interrupt_taken [of ?cpu 7] p by (auto simp: Interrupt_from_def field_get_def)
qed

text \<open>
  C39.  Only the lowest-numbered pending interrupt is considered.  In S-mode with SIE clear, a pending delegated
  supervisor software interrupt, which has to wait, also keeps every other interrupt waiting: no trap
  is taken although a machine timer interrupt is pending and enabled, contrary to the rule quoted in the
  code that interrupts for a higher privilege mode are always enabled.
\<close>

theorem masked_interrupt_blocks:
  assumes "csr_wf (csr cpu)" "cpl (csr cpu) = PrivS" "\<not> bit (csr_val (csr cpu) 0x300) 1"
    and "bit (csr_val (csr cpu) 0x303) 1" "bit (pending (csr cpu)) 1" "\<not> bit (pending (csr cpu)) 0"
    and "bit (pending (csr cpu)) 7"
  shows "try_take_interrupt cpu = Some (None, cpu)"
proof -
  have "has_interrupt (csr cpu) = Some (Some SupervisorSoft)"
    using has_interrupt_first [OF assms(1), of 1] assms(5,6) by (simp add: Interrupt_from_def)
  then show ?thesis using assms
    by (simp add: try_take_interrupt_def try_send_trap_signal_def csr_simps Let_def less_PrivilegeLevel_def)
qed

theorem masked_interrupt_blocks_witness:
  "let cpu = example_cpu (set_current_privileged PrivS
       (csr_put 0x344 0x82 (csr_put 0x304 0x82 (csr_put 0x303 2 CsrRegFile_new))))
   in bit (pending (csr cpu)) 7 \<and> try_take_interrupt cpu = Some (None, cpu)"
  using masked_interrupt_blocks [of "example_cpu (set_current_privileged PrivS
       (csr_put 0x344 0x82 (csr_put 0x304 0x82 (csr_put 0x303 2 CsrRegFile_new))))"]
  by (simp add: pending_def example_cpu_def csr_wf_new csr_val_new desc_defs)

section \<open>Traps keep the processor well formed\<close>

lemma write_uncheck_wf:
  assumes "csr_wf c" "unat a < 4096" "write_uncheck_privilege a v c = Some c'"
  shows "csr_wf c'"
  using write_uncheck_effect [OF assms(1,2), of v] assms(3) by auto

lemma send_trap_signal_m_mode_wf:
  assumes "cpu_wf cpu" "send_trap_signal_m_mode cause tval cpu = Some cpu'"
  shows "cpu_wf cpu'"
proof -
  have c: "csr_wf (csr cpu)" using assms(1) by auto
  obtain code npc where e: "Trap_into cause = Some code"
      "next_pc_by_tvec cause (field_get 0 2 (csr_val (csr cpu) 0x305)) (field_get 2 62 (csr_val (csr cpu) 0x305)) = Some npc"
    using send_trap_signal_m_mode_cause [OF c assms(2)] by blast
  show ?thesis using send_trap_signal_m_mode_eq [OF c e] assms c by auto
qed

lemma send_trap_signal_s_mode_wf:
  assumes "cpu_wf cpu" "send_trap_signal_s_mode cause tval cpu = Some cpu'"
  shows "cpu_wf cpu'"
proof -
  have c: "csr_wf (csr cpu)" using assms(1) by auto
  obtain code npc where e: "Trap_into cause = Some code" "cpl (csr cpu) \<le> PrivS"
      "next_pc_by_tvec cause (field_get 0 2 (csr_val (csr cpu) 0x105)) (field_get 2 62 (csr_val (csr cpu) 0x105)) = Some npc"
    using send_trap_signal_s_mode_cause [OF c assms(2)] by blast
  show ?thesis using send_trap_signal_s_mode_eq [OF c e] assms c by auto
qed

lemma mret_wf: "cpu_wf cpu \<Longrightarrow> mret cpu = Some cpu' \<Longrightarrow> cpu_wf cpu'"
  using mret_eq [of cpu] cpu_wfD(1) [of cpu] by auto

lemma sret_wf: "cpu_wf cpu \<Longrightarrow> sret cpu = Some cpu' \<Longrightarrow> cpu_wf cpu'"
  using sret_eq [of cpu] cpu_wfD(1) [of cpu] by auto

lemma try_send_trap_signal_wf:
  "cpu_wf cpu \<Longrightarrow> try_send_trap_signal cause tval cpu = Some (b, cpu') \<Longrightarrow> cpu_wf cpu'"
  by (auto simp: try_send_trap_signal_def Let_def bind_eq_Some_conv
      dest: send_trap_signal_m_mode_wf send_trap_signal_s_mode_wf split: if_splits Trap.splits)

lemma take_exception_wf: "cpu_wf cpu \<Longrightarrow> take_exception e tval cpu = Some cpu' \<Longrightarrow> cpu_wf cpu'"
  by (auto simp: take_exception_def dest: try_send_trap_signal_wf)

lemma try_take_interrupt_wf: "cpu_wf cpu \<Longrightarrow> try_take_interrupt cpu = Some (i, cpu') \<Longrightarrow> cpu_wf cpu'"
  by (auto simp: try_take_interrupt_def bind_eq_Some_conv dest: try_send_trap_signal_wf split: option.splits)

text \<open>Where an exception leads: the level it enters and the address it continues at.\<close>

lemma send_trap_signal_entry:
  assumes "csr_wf (csr cpu)"
  shows "send_trap_signal_m_mode (TException e) tval cpu = Some cpu' \<Longrightarrow>
      cpl (csr cpu') = PrivM \<and> pc cpu' = csr_val (csr cpu') 0x305 AND NOT 3"
    and "send_trap_signal_s_mode (TException e) tval cpu = Some cpu' \<Longrightarrow>
      cpl (csr cpu') = PrivS \<and> cpl (csr cpu) \<le> PrivS \<and> pc cpu' = csr_val (csr cpu') 0x105 AND NOT 3"
proof -
  have npc: "npc = t AND NOT 3" if "next_pc_by_tvec (TException e) (field_get 0 2 t) (field_get 2 62 t) = Some npc" for t npc
  proof -
    have "field_get 0 2 t \<le> 1" using that by (auto simp: next_pc_by_tvec_def split: if_splits)
    then show ?thesis using tvec_direct [of t e] that by simp
  qed
  show "cpl (csr cpu') = PrivM \<and> pc cpu' = csr_val (csr cpu') 0x305 AND NOT 3"
    if t: "send_trap_signal_m_mode (TException e) tval cpu = Some cpu'"
  proof -
    obtain code npc where e: "Trap_into (TException e) = Some code" "next_pc_by_tvec (TException e)
        (field_get 0 2 (csr_val (csr cpu) 0x305)) (field_get 2 62 (csr_val (csr cpu) 0x305)) = Some npc"
      using send_trap_signal_m_mode_cause [OF assms t] by blast
    show ?thesis using send_trap_signal_m_mode_eq [OF assms e, of tval] t npc [OF e(2)] by auto
  qed
  show "cpl (csr cpu') = PrivS \<and> cpl (csr cpu) \<le> PrivS \<and> pc cpu' = csr_val (csr cpu') 0x105 AND NOT 3"
    if t: "send_trap_signal_s_mode (TException e) tval cpu = Some cpu'"
  proof -
    obtain code npc where e: "Trap_into (TException e) = Some code" "cpl (csr cpu) \<le> PrivS" "next_pc_by_tvec (TException e)
        (field_get 0 2 (csr_val (csr cpu) 0x105)) (field_get 2 62 (csr_val (csr cpu) 0x105)) = Some npc"
      using send_trap_signal_s_mode_cause [OF assms t] by blast
    show ?thesis using send_trap_signal_s_mode_eq [OF assms e, of tval] t npc [OF e(3)] e(2) by auto
  qed
qed

lemma take_exception_entry:
  assumes "csr_wf (csr cpu)" "take_exception e tval cpu = Some cpu'"
  shows "(cpl (csr cpu') = PrivM \<and> pc cpu' = csr_val (csr cpu') 0x305 AND NOT 3)
    \<or> (cpl (csr cpu') = PrivS \<and> cpl (csr cpu) \<le> PrivS \<and> pc cpu' = csr_val (csr cpu') 0x105 AND NOT 3)"
  using assms(2) send_trap_signal_entry [OF assms(1)]
  by (auto simp: take_exception_def try_send_trap_signal_def Let_def bind_eq_Some_conv split: if_splits)

end
