(* ===== verification/Exec.thy ===== *)
theory Exec
  imports TrapController
begin

text \<open>
  Instruction execution: the wrappers of \<open>instruction/mod.rs\<close>, the handlers of
  \<open>exec_function.rs\<close>, \<open>exec_core.rs\<close>, \<open>exec_atomic_function.rs\<close> and \<open>exec_compress_function.rs\<close>, and the
  dispatch \<open>get_exec_func\<close> of \<open>exec_mapping.rs\<close>.  A handler that receives operands of another
  format panics or is undefined behaviour in the code (\<open>unreachable!\<close>, \<open>debug_unreachable!\<close>), \<open>None\<close> here.

  The type argument \<open>T\<close> of a generic handler is an \<open>itself\<close> argument or the type of the value it
  moves.  The handlers of the floating point, vector and custom instructions are the parameter \<open>ext\<close> of
  \<open>get_exec_func\<close>.
\<close>

section \<open>Wrappers\<close>

type_synonym ('d, 'x) handler = "RVInstrInfo \<Rightarrow> ('d, 'x, unit) cpu_prog"

definition check_jump_alignment :: "u64 \<Rightarrow> ('d, 'x, unit) cpu_prog" where
  "check_jump_alignment target cpu =
     do { c_enabled \<leftarrow> Misa_c_enabled (csr cpu);
          if \<not> c_enabled \<and> target AND 3 \<noteq> 0
          then Some (Err Ex_InstructionMisaligned, cpu\<lparr>pending_tval := Some target\<rparr>)
          else Some (Ok (), cpu) }"

definition normal_exec :: "('d, 'x, unit) cpu_prog \<Rightarrow> ('d, 'x, unit) cpu_prog" where
  "normal_exec f = bind_q f (\<lambda>_ cpu. retire (pc cpu + 4) cpu)"

definition normal_compress_exec :: "('d, 'x, unit) cpu_prog \<Rightarrow> ('d, 'x, unit) cpu_prog" where
  "normal_compress_exec f = bind_q f (\<lambda>_ cpu. retire (pc cpu + 2) cpu)"

definition of_result :: "('a, Exception) result \<Rightarrow> ('d, 'x, 'a) cpu_prog" where
  "of_result r cpu = Some (r, cpu)"

definition panic :: "('s, 'a, 'e) prog" where
  "panic s = None"

section \<open>Integer instructions\<close>

definition exec_arith :: "(u64, u64) exec_fun \<Rightarrow> ('d, 'x) handler" where
  "exec_arith f info =
     normal_exec
       (case info of
          Info_R rs1 rs2 rd \<Rightarrow> with_regs rs1 rs2 (\<lambda>val1 val2. bind_q (of_result (f val1 val2)) (write_reg rd))
        | Info_I rs1 rd imm \<Rightarrow> with_regs rs1 0 (\<lambda>val1 _. bind_q (of_result (f val1 imm)) (write_reg rd))
        | _ \<Rightarrow> panic)"

definition exec_branch :: "u64 cond_fun \<Rightarrow> ('d, 'x) handler" where
  "exec_branch f info =
     (case info of
        Info_B rs1 rs2 imm \<Rightarrow>
          with_regs rs1 rs2 (\<lambda>val1 val2 cpu.
            if f val1 val2 then
              let target = pc cpu + imm in bind_q (check_jump_alignment target) (\<lambda>_. retire target) cpu
            else retire (pc cpu + 4) cpu)
      | _ \<Rightarrow> panic)"

definition handle_load :: "'d device_ops \<Rightarrow> 'a::len itself \<Rightarrow> bool \<Rightarrow> u8 \<Rightarrow> u64 \<Rightarrow> ('d, 'x, unit) cpu_prog" where
  "handle_load ops T sext rd addr =
     bind_q (cpu_read ops addr) (\<lambda>v :: 'a word.
       write_reg rd (if sext then sign_extend (ucast v) (size_of TYPE('a) * 8) else ucast v))"

definition handle_store :: "'d device_ops \<Rightarrow> 'a::len itself \<Rightarrow> u64 \<Rightarrow> u64 \<Rightarrow> ('d, 'x, unit) cpu_prog" where
  "handle_store ops T addr v = cpu_write ops addr (ucast v :: 'a word)"

definition exec_load :: "'d device_ops \<Rightarrow> 'a::len itself \<Rightarrow> bool \<Rightarrow> ('d, 'x) handler" where
  "exec_load ops T sext info =
     normal_exec
       (case info of
          Info_I rs1 rd imm \<Rightarrow>
            with_regs rs1 0 (\<lambda>val _. handle_load ops T sext rd (wrapping_add_as_signed val imm))
        | _ \<Rightarrow> panic)"

definition exec_store :: "'d device_ops \<Rightarrow> 'a::len itself \<Rightarrow> ('d, 'x) handler" where
  "exec_store ops T info =
     normal_exec
       (case info of
          Info_S rs1 rs2 imm \<Rightarrow>
            with_regs rs1 rs2 (\<lambda>val1 val2. cpu_write ops (wrapping_add_as_signed val1 imm) (ucast val2 :: 'a word))
        | _ \<Rightarrow> panic)"

definition exec_nop :: "('d, 'x) handler" where
  "exec_nop info = normal_exec (ret_ok ())"

section \<open>Register instructions\<close>

definition count_unless_minstret :: "u64 \<Rightarrow> ('d, 'x, unit) cpu_prog" where
  "count_unless_minstret addr cpu =
     (if addr \<noteq> 0xB02 then map_option (Pair (Ok ())) (on_csr (Minstret_wrapping_add 1) cpu) else Some (Ok (), cpu))"

definition advance_pc :: "('d, 'x, unit) cpu_prog" where
  "advance_pc cpu = Some (Ok (), write_pc (pc cpu + 4) cpu)"

definition csr_operand :: "bool \<Rightarrow> u8 \<Rightarrow> (u64 \<Rightarrow> ('d, 'x, 'a) cpu_prog) \<Rightarrow> ('d, 'x, 'a) cpu_prog" where
  "csr_operand uimm rs1 k = (if uimm then k (ucast rs1) else with_regs rs1 rs1 (\<lambda>v _. k v))"

definition require_write_priv :: "u64 \<Rightarrow> ('d, 'x, unit) cpu_prog" where
  "require_write_priv addr cpu =
     map_option (\<lambda>legal. (if legal then Ok () else Err Ex_IllegalInstruction, cpu)) (is_write_priv_legal addr (csr cpu))"

definition exec_csrw :: "'d device_ops \<Rightarrow> bool \<Rightarrow> ('d, 'x) handler" where
  "exec_csrw ops uimm info =
     bind_q
       (case info of
          Info_I rs1 rd imm \<Rightarrow>
            let imm = truncate_to_bits imm 12 in
            bind_q (require_write_priv imm) (\<lambda>_.
            csr_operand uimm rs1 (\<lambda>new_val.
            bind_q (if rd \<noteq> 0 then bind_q (read_csr ops imm) (write_reg rd) else ret_ok ()) (\<lambda>_.
            bind_q (write_csr imm new_val) (\<lambda>_. count_unless_minstret imm))))
        | _ \<Rightarrow> ret_ok ())
       (\<lambda>_. advance_pc)"

definition exec_csr_bit :: "'d device_ops \<Rightarrow> bool \<Rightarrow> bool \<Rightarrow> ('d, 'x) handler" where
  "exec_csr_bit ops is_set uimm info =
     (case info of
        Info_I rs1 rd imm \<Rightarrow>
          let imm = truncate_to_bits imm 12 in
          bind_q
            (csr_operand uimm rs1 (\<lambda>rhs.
               if rhs = 0 then bind_q (read_csr ops imm) (write_reg rd)
               else
                 bind_q (require_write_priv imm) (\<lambda>_.
                 bind_q (read_csr ops imm) (\<lambda>value.
                 bind_q (write_reg rd value) (\<lambda>_.
                 bind_q (write_csr imm (if is_set then value OR rhs else value AND NOT rhs)) (\<lambda>_.
                 count_unless_minstret imm))))))
            (\<lambda>_. advance_pc)
      | _ \<Rightarrow> panic)"

section \<open>Jumps, environment calls and privileged instructions\<close>

definition exec_jal :: "('d, 'x) handler" where
  "exec_jal info =
     (case info of
        Info_J rd imm \<Rightarrow> (\<lambda>cpu.
          let target = pc cpu + imm; link = pc cpu + 4 in
          bind_q (check_jump_alignment target) (\<lambda>_. bind_q (write_reg rd link) (\<lambda>_. retire target)) cpu)
      | _ \<Rightarrow> panic)"

definition exec_jalr :: "('d, 'x) handler" where
  "exec_jalr info =
     (case info of
        Info_I rs1 rd imm \<Rightarrow>
          with_regs rs1 0 (\<lambda>val _ cpu.
            let t = pc cpu + 4; target = (val + imm) AND NOT 1 in
            bind_q (check_jump_alignment target) (\<lambda>_. bind_q (write_reg rd t) (\<lambda>_. retire target)) cpu)
      | _ \<Rightarrow> panic)"

definition exec_auipc :: "('d, 'x) handler" where
  "exec_auipc info =
     (case info of
        Info_U rd imm \<Rightarrow> (\<lambda>cpu. bind_q (write_reg rd (pc cpu + imm)) (\<lambda>_ cpu. retire (pc cpu + 4) cpu) cpu)
      | _ \<Rightarrow> panic)"

definition exec_lui :: "('d, 'x) handler" where
  "exec_lui info =
     (case info of
        Info_U rd imm \<Rightarrow> bind_q (write_reg rd imm) (\<lambda>_ cpu. retire (pc cpu + 4) cpu)
      | _ \<Rightarrow> panic)"

definition exec_ebreak :: "('d, 'x) handler" where
  "exec_ebreak info = ret_err Ex_Breakpoint"

definition exec_illegal :: "('d, 'x) handler" where
  "exec_illegal info = ret_err Ex_IllegalInstruction"

definition exec_ecall :: "('d, 'x) handler" where
  "exec_ecall info cpu =
     (case cpl (csr cpu) of
        PrivU \<Rightarrow> Some (Err Ex_UserEnvCall, cpu)
      | PrivS \<Rightarrow> Some (Err Ex_SupervisorEnvCall, cpu)
      | PrivM \<Rightarrow> Some (Err Ex_MachineEnvCall, cpu)
      | PrivV \<Rightarrow> None)"

definition exec_fence_i :: "('d, 'x) handler" where
  "exec_fence_i info cpu = (let cpu = flush_tlb (flush_icache cpu) in retire (pc cpu + 4) cpu)"

definition count_instr :: "('d, 'x) RVCPU \<Rightarrow> ((unit, Exception) result \<times> ('d, 'x) RVCPU) option" where
  "count_instr cpu = map_option (Pair (Ok ())) (on_csr (Minstret_wrapping_add 1) cpu)"

definition exec_mret :: "('d, 'x) handler" where
  "exec_mret info cpu =
     (if cpl (csr cpu) \<noteq> PrivM then Some (Err Ex_IllegalInstruction, cpu)
      else Option.bind (mret cpu) count_instr)"

definition exec_sret :: "('d, 'x) handler" where
  "exec_sret info cpu =
     (if cpl (csr cpu) < PrivS then Some (Err Ex_IllegalInstruction, cpu)
      else do { tsr \<leftarrow> (if cpl (csr cpu) = PrivS then csr_get (0x300, 22, 1) (csr cpu) else Some 0);
                if tsr = 1 then Some (Err Ex_IllegalInstruction, cpu)
                else Option.bind (sret cpu) count_instr })"

definition exec_sfence_vma :: "('d, 'x) handler" where
  "exec_sfence_vma info cpu =
     (if cpl (csr cpu) < PrivS then Some (Err Ex_IllegalInstruction, cpu)
      else do { tvm \<leftarrow> (if cpl (csr cpu) = PrivS then csr_get (0x300, 20, 1) (csr cpu) else Some 0);
                if tvm = 1 then Some (Err Ex_IllegalInstruction, cpu)
                else (let cpu = flush_icache (flush_tlb cpu) in retire (pc cpu + 4) cpu) })"

section \<open>Atomic instructions\<close>

definition sign_extend_to_wordtype :: "'a::len word \<Rightarrow> u64" where
  "sign_extend_to_wordtype v = sign_extend (ucast v) (size_of TYPE('a) * 8)"

definition exec_atomic_memory_operation :: "'a::len word amo_fun \<Rightarrow> ('d, 'x) handler" where
  "exec_atomic_memory_operation f info =
     (case info of
        Info_A rs1 rs2 rd rl aq \<Rightarrow>
          with_regs rs1 rs2 (\<lambda>val1 val2.
            bind_q (fetch_and_op_amo val1 (ucast val2 :: 'a word) f) (\<lambda>res.
            bind_q (write_reg rd (sign_extend_to_wordtype res)) (\<lambda>_ cpu. retire (pc cpu + 4) cpu)))
      | _ \<Rightarrow> panic)"

definition exec_lr :: "'a::len itself \<Rightarrow> bool \<Rightarrow> ('d, 'x) handler" where
  "exec_lr T sext info =
     (case info of
        Info_A rs1 rs2 rd rl aq \<Rightarrow>
          with_regs rs1 rs1 (\<lambda>addr _.
            bind_q (cpu_load_reserved addr) (\<lambda>res :: 'a word.
            bind_q (write_reg rd (if sext then sign_extend_to_wordtype res else ucast res))
              (\<lambda>_ cpu. retire (pc cpu + 4) cpu)))
      | _ \<Rightarrow> panic)"

definition exec_sc :: "'a::len itself \<Rightarrow> ('d, 'x) handler" where
  "exec_sc T info =
     (case info of
        Info_A rs1 rs2 rd rl aq \<Rightarrow>
          with_regs rs1 rs2 (\<lambda>addr val.
            bind_q (cpu_store_conditional addr (ucast val :: 'a word)) (\<lambda>success.
            bind_q (write_reg rd (if success then 0 else 1)) (\<lambda>_ cpu. retire (pc cpu + 4) cpu)))
      | _ \<Rightarrow> panic)"

section \<open>Compressed instructions\<close>

definition exec_compress_arith :: "(u64, u64) exec_fun \<Rightarrow> ('d, 'x) handler" where
  "exec_compress_arith f info =
     normal_compress_exec
       (case info of
          Info_CR rd_rs1 rs2 \<Rightarrow> with_regs rd_rs1 rs2 (\<lambda>val1 val2. bind_q (of_result (f val1 val2)) (write_reg rd_rs1))
        | Info_CA rd_rs1 rs2 \<Rightarrow> with_regs rd_rs1 rs2 (\<lambda>val1 val2. bind_q (of_result (f val1 val2)) (write_reg rd_rs1))
        | Info_CI rd_rs1 imm \<Rightarrow> with_regs rd_rs1 0 (\<lambda>val1 _. bind_q (of_result (f val1 imm)) (write_reg rd_rs1))
        | Info_CB rd_rs1 imm \<Rightarrow> with_regs rd_rs1 0 (\<lambda>val1 _. bind_q (of_result (f val1 imm)) (write_reg rd_rs1))
        | _ \<Rightarrow> panic)"

definition exec_compress_branch :: "u64 cond_fun \<Rightarrow> ('d, 'x) handler" where
  "exec_compress_branch f info =
     (case info of
        Info_CB rs1 imm \<Rightarrow>
          with_regs rs1 0 (\<lambda>val1 _ cpu. if f val1 0 then retire (pc cpu + imm) cpu else retire (pc cpu + 2) cpu)
      | _ \<Rightarrow> panic)"

definition exec_compress_jump :: "bool \<Rightarrow> ('d, 'x) handler" where
  "exec_compress_jump link info =
     (case info of
        Info_CJ offset \<Rightarrow> (\<lambda>cpu.
          let target = pc cpu + offset in
          bind_q (if link then write_reg 1 (pc cpu + 2) else ret_ok ()) (\<lambda>_. retire target) cpu)
      | _ \<Rightarrow> panic)"

definition exec_compress_jump_reg :: "bool \<Rightarrow> ('d, 'x) handler" where
  "exec_compress_jump_reg link info =
     (case info of
        Info_CR rs1 rs2 \<Rightarrow>
          with_regs rs1 0 (\<lambda>val _ cpu.
            let t = pc cpu + 2; target = val AND NOT 1 in
            bind_q (if link then write_reg 1 t else ret_ok ()) (\<lambda>_. retire target) cpu)
      | _ \<Rightarrow> panic)"

definition exec_compress_load_sp :: "'d device_ops \<Rightarrow> 'a::len itself \<Rightarrow> bool \<Rightarrow> ('d, 'x) handler" where
  "exec_compress_load_sp ops T sext info =
     normal_compress_exec
       (case info of
          Info_CI rd imm \<Rightarrow> with_regs 2 0 (\<lambda>val _. handle_load ops T sext rd (wrapping_add_as_signed val imm))
        | _ \<Rightarrow> panic)"

definition exec_compress_load :: "'d device_ops \<Rightarrow> 'a::len itself \<Rightarrow> bool \<Rightarrow> ('d, 'x) handler" where
  "exec_compress_load ops T sext info =
     normal_compress_exec
       (case info of
          Info_CL rd rs1 imm \<Rightarrow> with_regs rs1 0 (\<lambda>val _. handle_load ops T sext rd (wrapping_add_as_signed val imm))
        | _ \<Rightarrow> panic)"

definition exec_compress_store_sp :: "'d device_ops \<Rightarrow> 'a::len itself \<Rightarrow> ('d, 'x) handler" where
  "exec_compress_store_sp ops T info =
     normal_compress_exec
       (case info of
          Info_CSS rs2 imm \<Rightarrow> with_regs 2 rs2 (\<lambda>val1 v. handle_store ops T (wrapping_add_as_signed val1 imm) v)
        | _ \<Rightarrow> panic)"

definition exec_compress_store :: "'d device_ops \<Rightarrow> 'a::len itself \<Rightarrow> ('d, 'x) handler" where
  "exec_compress_store ops T info =
     normal_compress_exec
       (case info of
          Info_CS rs1 rs2 imm \<Rightarrow> with_regs rs1 rs2 (\<lambda>val1 val2. handle_store ops T (wrapping_add_as_signed val1 imm) val2)
        | _ \<Rightarrow> panic)"

definition exec_compress_nop :: "('d, 'x) handler" where
  "exec_compress_nop info = normal_compress_exec (ret_ok ())"

definition exec_compress_mv :: "('d, 'x) handler" where
  "exec_compress_mv info =
     (case info of
        Info_CR rd rs2 \<Rightarrow> normal_compress_exec (with_regs rs2 0 (\<lambda>val _. write_reg rd val))
      | _ \<Rightarrow> panic)"

definition exec_compress_li :: "('d, 'x) handler" where
  "exec_compress_li info =
     (case info of
        Info_CI rd imm \<Rightarrow> normal_compress_exec (write_reg rd imm)
      | _ \<Rightarrow> panic)"

definition exec_addi4spn :: "('d, 'x) handler" where
  "exec_addi4spn info =
     (case info of
        Info_CIW rd imm \<Rightarrow>
          normal_compress_exec (with_regs 2 0 (\<lambda>val1 _. bind_q (of_result (ExecAdd val1 imm)) (write_reg rd)))
      | _ \<Rightarrow> panic)"

section \<open>Dispatch\<close>

fun exec_of_arith :: "ArithInstr \<Rightarrow> (u64, u64) exec_fun" where
  "exec_of_arith I_ADD = ExecAdd"
| "exec_of_arith I_ADDI = ExecAdd"
| "exec_of_arith I_ADDW = ExecAddw"
| "exec_of_arith I_ADDIW = ExecAddw"
| "exec_of_arith I_SUB = ExecSub"
| "exec_of_arith I_SUBW = ExecSubw"
| "exec_of_arith I_MUL = ExecMulLow"
| "exec_of_arith I_MULH = ExecMulHighSigned"
| "exec_of_arith I_MULHU = ExecMulHighUnsigned"
| "exec_of_arith I_MULHSU = ExecMulHighSignedUnsigned"
| "exec_of_arith I_DIV = ExecDivSigned"
| "exec_of_arith I_DIVU = ExecDivUnsigned"
| "exec_of_arith I_REM = ExecRemSigned"
| "exec_of_arith I_REMU = ExecRemUnsigned"
| "exec_of_arith I_MULW = ExecMulw"
| "exec_of_arith I_DIVW = ExecDivw"
| "exec_of_arith I_DIVUW = ExecDivuw"
| "exec_of_arith I_REMW = ExecRemw"
| "exec_of_arith I_REMUW = ExecRemuw"

fun exec_of_shift :: "ShiftInstr \<Rightarrow> (u64, u64) exec_fun" where
  "exec_of_shift I_SLL = ExecSLL"
| "exec_of_shift I_SLLI = ExecSLL"
| "exec_of_shift I_SRL = ExecSRL"
| "exec_of_shift I_SRLI = ExecSRL"
| "exec_of_shift I_SRA = ExecSRA"
| "exec_of_shift I_SRAI = ExecSRA"
| "exec_of_shift I_SRAW = ExecSRAW"
| "exec_of_shift I_SRAIW = ExecSRAW"
| "exec_of_shift I_SLLW = ExecSLLW"
| "exec_of_shift I_SLLIW = ExecSLLW"
| "exec_of_shift I_SRLW = ExecSRLW"
| "exec_of_shift I_SRLIW = ExecSRLW"

fun exec_of_bit :: "BitInstr \<Rightarrow> (u64, u64) exec_fun" where
  "exec_of_bit I_SLT = ExecSignedLess_word"
| "exec_of_bit I_SLTI = ExecSignedLess_word"
| "exec_of_bit I_SLTU = ExecUnsignedLess_word"
| "exec_of_bit I_SLTIU = ExecUnsignedLess_word"
| "exec_of_bit I_AND = ExecAnd"
| "exec_of_bit I_ANDI = ExecAnd"
| "exec_of_bit I_OR = ExecOr"
| "exec_of_bit I_ORI = ExecOr"
| "exec_of_bit I_XOR = ExecXor"
| "exec_of_bit I_XORI = ExecXor"

fun exec_of_branch :: "BranchInstr \<Rightarrow> u64 cond_fun" where
  "exec_of_branch I_BEQ = ExecEqual"
| "exec_of_branch I_BNE = ExecNotEqual"
| "exec_of_branch I_BLT = ExecSignedLess"
| "exec_of_branch I_BGE = ExecSignedGreatEqual"
| "exec_of_branch I_BLTU = ExecUnsignedLess"
| "exec_of_branch I_BGEU = ExecUnsignedGreatEqual"

fun exec_of_load :: "'d device_ops \<Rightarrow> LoadInstr \<Rightarrow> ('d, 'x) handler" where
  "exec_of_load ops I_LB = exec_load ops TYPE(8) True"
| "exec_of_load ops I_LBU = exec_load ops TYPE(8) False"
| "exec_of_load ops I_LH = exec_load ops TYPE(16) True"
| "exec_of_load ops I_LHU = exec_load ops TYPE(16) False"
| "exec_of_load ops I_LW = exec_load ops TYPE(32) True"
| "exec_of_load ops I_LWU = exec_load ops TYPE(32) False"
| "exec_of_load ops I_LD = exec_load ops TYPE(64) False"

fun exec_of_store :: "'d device_ops \<Rightarrow> StoreInstr \<Rightarrow> ('d, 'x) handler" where
  "exec_of_store ops I_SB = exec_store ops TYPE(8)"
| "exec_of_store ops I_SH = exec_store ops TYPE(16)"
| "exec_of_store ops I_SW = exec_store ops TYPE(32)"
| "exec_of_store ops I_SD = exec_store ops TYPE(64)"

fun exec_of_system :: "'d device_ops \<Rightarrow> SystemInstr \<Rightarrow> ('d, 'x) handler" where
  "exec_of_system ops I_JAL = exec_jal"
| "exec_of_system ops I_JALR = exec_jalr"
| "exec_of_system ops I_AUIPC = exec_auipc"
| "exec_of_system ops I_LUI = exec_lui"
| "exec_of_system ops I_EBREAK = exec_ebreak"
| "exec_of_system ops I_ECALL = exec_ecall"
| "exec_of_system ops I_FENCE = exec_nop"
| "exec_of_system ops I_FENCE_I = exec_fence_i"
| "exec_of_system ops I_CSRRW = exec_csrw ops False"
| "exec_of_system ops I_CSRRC = exec_csr_bit ops False False"
| "exec_of_system ops I_CSRRS = exec_csr_bit ops True False"
| "exec_of_system ops I_CSRRWI = exec_csrw ops True"
| "exec_of_system ops I_CSRRCI = exec_csr_bit ops False True"
| "exec_of_system ops I_CSRRSI = exec_csr_bit ops True True"
| "exec_of_system ops I_MRET = exec_mret"
| "exec_of_system ops I_WFI = exec_nop"
| "exec_of_system ops I_SRET = exec_sret"
| "exec_of_system ops I_SFENCE_VMA = exec_sfence_vma"
| "exec_of_system ops I_ILLEGAL = exec_illegal"

fun exec_of_atomic :: "AtomicInstr \<Rightarrow> ('d, 'x) handler" where
  "exec_of_atomic I_AMOADD_W = exec_atomic_memory_operation (ExecAmoAdd :: u32 amo_fun)"
| "exec_of_atomic I_AMOAND_W = exec_atomic_memory_operation (ExecAmoAnd :: u32 amo_fun)"
| "exec_of_atomic I_AMOOR_W = exec_atomic_memory_operation (ExecAmoOr :: u32 amo_fun)"
| "exec_of_atomic I_AMOXOR_W = exec_atomic_memory_operation (ExecAmoXor :: u32 amo_fun)"
| "exec_of_atomic I_AMOADD_D = exec_atomic_memory_operation (ExecAmoAdd :: u64 amo_fun)"
| "exec_of_atomic I_AMOAND_D = exec_atomic_memory_operation (ExecAmoAnd :: u64 amo_fun)"
| "exec_of_atomic I_AMOOR_D = exec_atomic_memory_operation (ExecAmoOr :: u64 amo_fun)"
| "exec_of_atomic I_AMOXOR_D = exec_atomic_memory_operation (ExecAmoXor :: u64 amo_fun)"
| "exec_of_atomic I_AMOSWAP_W = exec_atomic_memory_operation (ExecAmoSwap :: u32 amo_fun)"
| "exec_of_atomic I_AMOSWAP_D = exec_atomic_memory_operation (ExecAmoSwap :: u64 amo_fun)"
| "exec_of_atomic I_AMOMAX_W = exec_atomic_memory_operation (ExecAmoMax :: u32 amo_fun)"
| "exec_of_atomic I_AMOMIN_W = exec_atomic_memory_operation (ExecAmoMin :: u32 amo_fun)"
| "exec_of_atomic I_AMOMAXU_W = exec_atomic_memory_operation (ExecAmoMaxU :: u32 amo_fun)"
| "exec_of_atomic I_AMOMINU_W = exec_atomic_memory_operation (ExecAmoMinU :: u32 amo_fun)"
| "exec_of_atomic I_AMOMAX_D = exec_atomic_memory_operation (ExecAmoMax :: u64 amo_fun)"
| "exec_of_atomic I_AMOMIN_D = exec_atomic_memory_operation (ExecAmoMin :: u64 amo_fun)"
| "exec_of_atomic I_AMOMAXU_D = exec_atomic_memory_operation (ExecAmoMaxU :: u64 amo_fun)"
| "exec_of_atomic I_AMOMINU_D = exec_atomic_memory_operation (ExecAmoMinU :: u64 amo_fun)"
| "exec_of_atomic I_LR_W = exec_lr TYPE(32) True"
| "exec_of_atomic I_SC_W = exec_sc TYPE(32)"
| "exec_of_atomic I_LR_D = exec_lr TYPE(64) False"
| "exec_of_atomic I_SC_D = exec_sc TYPE(64)"

fun exec_of_carith :: "CArithInstr \<Rightarrow> ('d, 'x) handler" where
  "exec_of_carith I_C_ADD = exec_compress_arith ExecAdd"
| "exec_of_carith I_C_ADDI = exec_compress_arith ExecAdd"
| "exec_of_carith I_C_ADDI16SP = exec_compress_arith ExecAdd"
| "exec_of_carith I_C_ADDW = exec_compress_arith ExecAddw"
| "exec_of_carith I_C_ADDIW = exec_compress_arith ExecAddw"
| "exec_of_carith I_C_ADDI4SPN = exec_addi4spn"
| "exec_of_carith I_C_SLLI = exec_compress_arith ExecSLL"
| "exec_of_carith I_C_SRLI = exec_compress_arith ExecSRL"
| "exec_of_carith I_C_SRAI = exec_compress_arith ExecSRA"
| "exec_of_carith I_C_MV = exec_compress_mv"
| "exec_of_carith I_C_AND = exec_compress_arith ExecAnd"
| "exec_of_carith I_C_ANDI = exec_compress_arith ExecAnd"
| "exec_of_carith I_C_OR = exec_compress_arith ExecOr"
| "exec_of_carith I_C_XOR = exec_compress_arith ExecXor"
| "exec_of_carith I_C_SUB = exec_compress_arith ExecSub"
| "exec_of_carith I_C_SUBW = exec_compress_arith ExecSubw"
| "exec_of_carith I_C_NOP = exec_compress_nop"
| "exec_of_carith I_C_EBREAK = exec_ebreak"
| "exec_of_carith I_C_LI = exec_compress_li"
| "exec_of_carith I_C_LUI = exec_compress_li"

fun exec_of_cmem :: "'d device_ops \<Rightarrow> (RiscvInstr \<Rightarrow> ('d, 'x) handler) \<Rightarrow> CMemInstr \<Rightarrow> ('d, 'x) handler" where
  "exec_of_cmem ops ext I_C_LW = exec_compress_load ops TYPE(32) True"
| "exec_of_cmem ops ext I_C_LD = exec_compress_load ops TYPE(64) False"
| "exec_of_cmem ops ext I_C_LWSP = exec_compress_load_sp ops TYPE(32) True"
| "exec_of_cmem ops ext I_C_LDSP = exec_compress_load_sp ops TYPE(64) False"
| "exec_of_cmem ops ext I_C_SW = exec_compress_store ops TYPE(32)"
| "exec_of_cmem ops ext I_C_SD = exec_compress_store ops TYPE(64)"
| "exec_of_cmem ops ext I_C_SWSP = exec_compress_store_sp ops TYPE(32)"
| "exec_of_cmem ops ext I_C_SDSP = exec_compress_store_sp ops TYPE(64)"
| "exec_of_cmem ops ext i = ext (CMem i)"

fun exec_of_cjump :: "CJumpInstr \<Rightarrow> ('d, 'x) handler" where
  "exec_of_cjump I_C_BEQZ = exec_compress_branch ExecEqual"
| "exec_of_cjump I_C_BNEZ = exec_compress_branch ExecNotEqual"
| "exec_of_cjump I_C_J = exec_compress_jump False"
| "exec_of_cjump I_C_JAL = exec_compress_jump True"
| "exec_of_cjump I_C_JR = exec_compress_jump_reg False"
| "exec_of_cjump I_C_JALR = exec_compress_jump_reg True"

fun get_exec_func :: "'d device_ops \<Rightarrow> (RiscvInstr \<Rightarrow> ('d, 'x) handler) \<Rightarrow> RiscvInstr \<Rightarrow> ('d, 'x) handler" where
  "get_exec_func ops ext (Arith i) = exec_arith (exec_of_arith i)"
| "get_exec_func ops ext (Shift i) = exec_arith (exec_of_shift i)"
| "get_exec_func ops ext (BitOp i) = exec_arith (exec_of_bit i)"
| "get_exec_func ops ext (Branch i) = exec_branch (exec_of_branch i)"
| "get_exec_func ops ext (Load i) = exec_of_load ops i"
| "get_exec_func ops ext (Store i) = exec_of_store ops i"
| "get_exec_func ops ext (System i) = exec_of_system ops i"
| "get_exec_func ops ext (Atomic i) = exec_of_atomic i"
| "get_exec_func ops ext (CArith i) = exec_of_carith i"
| "get_exec_func ops ext (CMem i) = exec_of_cmem ops ext i"
| "get_exec_func ops ext (CJump i) = exec_of_cjump i"
| "get_exec_func ops ext (ExtInstr n) = ext (ExtInstr n)"

section \<open>Handlers keep the processor well formed\<close>

lemma keeps_panic [keeps_rules]: "keeps I panic"
  by (simp add: keeps_def panic_def)

lemma keeps_of_result [keeps_rules]: "keeps I (of_result r)"
  by (auto simp: keeps_def of_result_def)

lemma keeps_check_jump [keeps_rules]: "keeps (cpu_at q) (check_jump_alignment t)"
  by (auto simp: keeps_def check_jump_alignment_def bind_eq_Some_conv split: if_splits)

lemma keeps_retire_at [keeps_rules]: "keeps (cpu_at q) (\<lambda>cpu. retire (f cpu) cpu)"
  by (rule keeps_at) (rule keeps_retire)

lemma keeps_normal_exec [keeps_rules]:
  "keeps (cpu_at q) f \<Longrightarrow> keeps (cpu_at q) (normal_exec f)"
  "keeps (cpu_at q) f \<Longrightarrow> keeps (cpu_at q) (normal_compress_exec f)"
  unfolding normal_exec_def normal_compress_exec_def by (intro keeps_rules; assumption)+

lemma keeps_handle_memory [keeps_rules]:
  "keeps (cpu_at q) (handle_load ops T sext rd addr)"
  "keeps (cpu_at q) (handle_store ops T addr v)"
  unfolding handle_load_def handle_store_def by (intro keeps_rules)+

lemma on_csr_count_wf: "cpu_at q cpu \<Longrightarrow> on_csr (Minstret_wrapping_add n) cpu = Some cpu' \<Longrightarrow> cpu_at q cpu'"
  by (erule on_csr_wf) (auto dest: Minstret_wf)

lemma keeps_count [keeps_rules]:
  "keeps (cpu_at q) (count_unless_minstret a)" "keeps (cpu_at q) count_instr" "keeps (cpu_at q) advance_pc"
  unfolding keeps_def count_unless_minstret_def count_instr_def advance_pc_def
  by (auto simp: write_pc_def dest: on_csr_count_wf split: if_splits)

lemma keeps_csr_operand [keeps_rules]:
  "(\<And>v. keeps (cpu_at q) (k v)) \<Longrightarrow> keeps (cpu_at q) (csr_operand uimm rs1 k)"
  unfolding csr_operand_def by (intro keeps_rules; assumption?)

lemma keeps_require_write [keeps_rules]: "keeps (cpu_at q) (require_write_priv a)"
  by (auto simp: keeps_def require_write_priv_def)

lemma csr_index_bound: "unat (truncate_to_bits (v :: u64) 12) < 4096"
proof -
  have "truncate_to_bits v 12 = take_bit 12 v" by (simp add: truncate_to_bits_eq)
  then show ?thesis by (simp only: unsigned_take_bit_eq) (simp add: take_bit_eq_mod)
qed

lemma keeps_csr_instr [keeps_rules]:
  "keeps (cpu_at q) (exec_csrw ops uimm info)" "keeps (cpu_at q) (exec_csr_bit ops is_set uimm info)"
  unfolding exec_csrw_def exec_csr_bit_def Let_def
  by (cases info; simp only: RVInstrInfo.case; intro keeps_rules csr_index_bound)+

lemma keeps_jump_to [keeps_rules]:
  "keeps (cpu_at q) (\<lambda>cpu. bind_q (check_jump_alignment (t cpu)) (\<lambda>_. bind_q (write_reg rd (l cpu)) (\<lambda>_. retire (t cpu))) cpu)"
  by (rule keeps_at [of "cpu_at q" "\<lambda>(t, l). bind_q (check_jump_alignment t) (\<lambda>_. bind_q (write_reg rd l) (\<lambda>_. retire t))"
        "\<lambda>cpu. (t cpu, l cpu)", unfolded split_conv]) (auto intro!: keeps_rules)

lemma keeps_branch_to [keeps_rules]:
  "keeps (cpu_at q) (\<lambda>cpu. bind_q (check_jump_alignment (t cpu)) (\<lambda>_. retire (t cpu)) cpu)"
  by (rule keeps_at [of "cpu_at q" "\<lambda>t. bind_q (check_jump_alignment t) (\<lambda>_. retire t)" t]) (intro keeps_rules)

lemma keeps_link_to [keeps_rules]:
  "keeps (cpu_at q) (\<lambda>cpu. bind_q (if link then write_reg 1 (l cpu) else ret_ok ()) (\<lambda>_. retire (t cpu)) cpu)"
  by (rule keeps_at [of "cpu_at q" "\<lambda>(t, l). bind_q (if link then write_reg 1 l else ret_ok ()) (\<lambda>_. retire t)"
        "\<lambda>cpu. (t cpu, l cpu)", unfolded split_conv]) (auto intro!: keeps_rules)

lemma keeps_auipc_to [keeps_rules]:
  "keeps (cpu_at q) (\<lambda>cpu. bind_q (write_reg rd (v cpu)) (\<lambda>_ cpu. retire (n cpu) cpu) cpu)"
  by (rule keeps_at [of "cpu_at q" "\<lambda>v. bind_q (write_reg rd v) (\<lambda>_ cpu. retire (n cpu) cpu)" v]) (intro keeps_rules)

lemma keeps_if_at [keeps_rules]:
  "keeps I f \<Longrightarrow> keeps I g \<Longrightarrow> keeps I (\<lambda>s. if b then f s else g s)"
  by (cases b) simp_all

lemma keeps_jump [keeps_rules]:
  "keeps (cpu_at q) (exec_jal info)" "keeps (cpu_at q) (exec_jalr info)" "keeps (cpu_at q) (exec_branch f info)"
  "keeps (cpu_at q) (exec_auipc info)" "keeps (cpu_at q) (exec_lui info)"
  "keeps (cpu_at q) (exec_compress_jump link info)" "keeps (cpu_at q) (exec_compress_jump_reg link info)"
  "keeps (cpu_at q) (exec_compress_branch h info)"
  unfolding exec_jal_def exec_jalr_def exec_branch_def exec_auipc_def exec_lui_def exec_compress_jump_def
    exec_compress_jump_reg_def exec_compress_branch_def Let_def
  by (cases info; simp only: RVInstrInfo.case; intro keeps_rules)+

lemma keeps_integer [keeps_rules]:
  "keeps (cpu_at q) (exec_arith f info)" "keeps (cpu_at q) (exec_load ops T sext info)" "keeps (cpu_at q) (exec_store ops T info)"
  unfolding exec_arith_def exec_load_def exec_store_def
  by (cases info; simp only: RVInstrInfo.case; intro keeps_rules)+

lemma keeps_atomic [keeps_rules]:
  "keeps (cpu_at q) (exec_atomic_memory_operation f info)" "keeps (cpu_at q) (exec_lr T sext info)" "keeps (cpu_at q) (exec_sc U info)"
  unfolding exec_atomic_memory_operation_def exec_lr_def exec_sc_def
  by (cases info; simp only: RVInstrInfo.case; intro keeps_rules)+

lemma keeps_compressed [keeps_rules]:
  "keeps (cpu_at q) (exec_compress_arith f info)" "keeps (cpu_at q) (exec_compress_load_sp ops T sext info)"
  "keeps (cpu_at q) (exec_compress_load ops T sext info)" "keeps (cpu_at q) (exec_compress_store_sp ops T info)"
  "keeps (cpu_at q) (exec_compress_store ops T info)" 
  "keeps (cpu_at q) (exec_compress_mv info)" "keeps (cpu_at q) (exec_compress_li info)" "keeps (cpu_at q) (exec_addi4spn info)"
  unfolding exec_compress_arith_def exec_compress_load_sp_def exec_compress_load_def exec_compress_store_sp_def
    exec_compress_store_def exec_compress_mv_def exec_compress_li_def exec_addi4spn_def
  by (cases info; simp only: RVInstrInfo.case; intro keeps_rules)+

lemma keeps_nop [keeps_rules]: "keeps (cpu_at q) (exec_nop info)" "keeps (cpu_at q) (exec_compress_nop info)"
  unfolding exec_nop_def exec_compress_nop_def by (intro keeps_rules)+

lemma keeps_after [keeps_rules]:
  assumes "\<And>s s'. I s \<Longrightarrow> f s = Some s' \<Longrightarrow> I s'" "keeps I g"
  shows "keeps I (\<lambda>s. Option.bind (f s) g)"
proof (rule keepsI)
  fix s r s'
  assume "I s" "Option.bind (f s) g = Some (r, s')"
  then obtain t where "f s = Some t" "g t = Some (r, s')" by (auto simp only: bind_eq_Some_conv)
  then show "I s'" by (rule keepsD [OF assms(2) assms(1) [OF \<open>I s\<close>]])
qed

lemma keeps_fail [keeps_rules]: "keeps I (\<lambda>s. Some (Err e, s))" "keeps I (\<lambda>s. None)"
  by (auto simp: keeps_def)

lemma keeps_cond:
  assumes "keeps I f" "keeps I g"
  shows "keeps I (\<lambda>s. if b s then f s else g s)"
proof (rule keepsI)
  fix s r s'
  assume s: "I s" and e: "(if b s then f s else g s) = Some (r, s')"
  show "I s'"
  proof (cases "b s")
    case True
    then show ?thesis using e by (intro keepsD [OF assms(1) s]) simp
  next
    case False
    then show ?thesis using e by (intro keepsD [OF assms(2) s]) simp
  qed
qed

lemma keeps_test:
  assumes "\<And>v. keeps I (f v)"
  shows "keeps I (\<lambda>s. Option.bind (b s) (\<lambda>v. f v s))"
proof (rule keepsI)
  fix s r s'
  assume s: "I s" and e: "Option.bind (b s) (\<lambda>v. f v s) = Some (r, s')"
  then obtain v where "f v s = Some (r, s')" by (auto simp only: bind_eq_Some_conv)
  then show "I s'" by (rule keepsD [OF assms s])
qed

lemma keeps_flush [keeps_rules]:
  "keeps (cpu_at q) (\<lambda>cpu. retire (p cpu) (flush_tlb (flush_icache cpu)))"
  "keeps (cpu_at q) (\<lambda>cpu. retire (p cpu) (flush_icache (flush_tlb cpu)))"
proof -
  note k = keepsD [OF keeps_retire]
  show "keeps (cpu_at q) (\<lambda>cpu. retire (p cpu) (flush_tlb (flush_icache cpu)))"
       "keeps (cpu_at q) (\<lambda>cpu. retire (p cpu) (flush_icache (flush_tlb cpu)))"
    by (rule keepsI, rule k [rotated], assumption, simp)+
qed

lemma keeps_privileged [keeps_rules]:
  "keeps (cpu_at q) (exec_sfence_vma info)" "keeps (cpu_at q) (exec_fence_i info)"
  unfolding exec_sfence_vma_def exec_fence_i_def Let_def by (intro keeps_cond keeps_test keeps_rules)+

lemma keeps_trap_return: "keeps cpu_wf (exec_mret info)" "keeps cpu_wf (exec_sret info)"
  unfolding exec_mret_def exec_sret_def
  by (intro keeps_cond keeps_test keeps_rules keeps_cpu_wf; (erule (1) mret_wf sret_wf)?)+

lemma keeps_env [keeps_rules]: "keeps (cpu_at q) (exec_ecall info)" "keeps (cpu_at q) (exec_ebreak info)" "keeps (cpu_at q) (exec_illegal info)"
  by (auto simp: keeps_def exec_ecall_def exec_ebreak_def exec_illegal_def ret_err_def split: PrivilegeLevel.splits)

text \<open>What is relied on of the handlers of the extension instructions: they keep the processor well formed and its privilege.\<close>

definition ext_ok :: "(RiscvInstr \<Rightarrow> ('d, 'x) handler) \<Rightarrow> bool" where
  "ext_ok ext \<longleftrightarrow> (\<forall>p i info. keeps (cpu_at p) (ext i info))"

lemma keeps_get_exec_func:
  assumes "ext_ok ext" "i \<notin> {System I_MRET, System I_SRET}"
  shows "keeps (cpu_at q) (get_exec_func ops ext i info)"
proof -
  have e: "keeps (cpu_at q) (ext i info)" for i info using assms(1) by (simp add: ext_ok_def)
  show ?thesis
  proof (cases i)
    case (Load x) then show ?thesis by (cases x; simp only: get_exec_func.simps exec_of_load.simps; intro keeps_rules)
  next
    case (Store x) then show ?thesis by (cases x; simp only: get_exec_func.simps exec_of_store.simps; intro keeps_rules)
  next
    case (System x)
    then show ?thesis using assms(2) by (cases x; simp only: get_exec_func.simps exec_of_system.simps; (intro keeps_rules | simp))
  next
    case (Atomic x) then show ?thesis by (cases x; simp only: get_exec_func.simps exec_of_atomic.simps; intro keeps_rules)
  next
    case (CArith x) then show ?thesis by (cases x; simp only: get_exec_func.simps exec_of_carith.simps; intro keeps_rules)
  next
    case (CMem x) then show ?thesis by (cases x; simp only: get_exec_func.simps exec_of_cmem.simps; intro keeps_rules e)
  next
    case (CJump x) then show ?thesis by (cases x; simp only: get_exec_func.simps exec_of_cjump.simps; intro keeps_rules)
  qed (simp_all only: get_exec_func.simps, (intro keeps_rules e)+)
qed

lemma keeps_any_instr:
  assumes "ext_ok ext"
  shows "keeps cpu_wf (get_exec_func ops ext i info)"
proof (cases "i \<in> {System I_MRET, System I_SRET}")
  case True
  then show ?thesis using keeps_trap_return by auto
next
  case False
  then show ?thesis by (intro keeps_cpu_wf keeps_get_exec_func assms)
qed

end
