(* ===== verification/Executor.thy ===== *)
theory Executor
  imports Exec
begin

text \<open>
  The fetch, decode and execute loop of \<open>isa/riscv/executor.rs\<close>.  \<open>hart_env\<close> collects what the processor
  relies on: the devices, the decoder and the handlers of the extension instructions.  An execution
  hook is the state of the implementing object and its three methods.
\<close>

section \<open>Definitions\<close>

record ('d, 'x) hart_env =
  env_ops :: "'d device_ops"
  env_ext :: "RiscvInstr \<Rightarrow> ('d, 'x) handler"
  env_decode :: "RawInstr \<Rightarrow> DecodeInstr option"

record ExceptionInfo =
  ex_cause :: Exception
  ex_tval :: u64

record BatchResult =
  batch_cycles :: u64
  hook_stopped :: bool

definition execute :: "('d, 'x) hart_env \<Rightarrow> RiscvInstr \<Rightarrow> ('d, 'x) handler" where
  "execute env i info cpu =
     do { (rst, cpu) \<leftarrow> get_exec_func (env_ops env) (env_ext env) i info cpu;
          if reg_file cpu = [] then None else Some (rst, cpu\<lparr>reg_file := (reg_file cpu)[0 := 0]\<rparr>) }"

definition fetch_half :: "('d, 'x) hart_env \<Rightarrow> u64 \<Rightarrow> (('d, 'x) RVCPU, u16, ExceptionInfo) prog" where
  "fetch_half env addr cpu =
     do { (r, cpu) \<leftarrow> read_for_ifetch (env_ops env) addr cpu;
          case r of
            Ok half \<Rightarrow> Some (Ok half, cpu)
          | Err err \<Rightarrow> do { c \<leftarrow> from_instr_fetch_err err; Some (Err \<lparr>ex_cause = c, ex_tval = addr\<rparr>, cpu) } }"

definition ifetch_at :: "('d, 'x) hart_env \<Rightarrow> u64 \<Rightarrow> (('d, 'x) RVCPU, RawInstr, ExceptionInfo) prog" where
  "ifetch_at env addr =
     bind_q (fetch_half env addr) (\<lambda>lo.
       let bytes = RawInstr_from (ucast lo) in
       if instr_len bytes = 4
       then bind_q (fetch_half env (addr + 2)) (\<lambda>next_half. ret_ok (bytes OR push_bit 16 (ucast next_half)))
       else ret_ok bytes)"

definition ifetch :: "('d, 'x) hart_env \<Rightarrow> (('d, 'x) RVCPU, RawInstr, ExceptionInfo) prog" where
  "ifetch env cpu = ifetch_at env (pc cpu) cpu"

definition icache_put :: "u64 \<Rightarrow> DecodeInstr \<Rightarrow> ('d, 'x) RVCPU \<Rightarrow> ('d, 'x) RVCPU" where
  "icache_put addr d cpu = cpu\<lparr>icache := Cache_put (direct_put 1 8192) (icache cpu) addr d\<rparr>"

definition decode_at_checked :: "('d, 'x) hart_env \<Rightarrow> u64 \<Rightarrow> (('d, 'x) RVCPU, DecodeInstr, ExceptionInfo) prog" where
  "decode_at_checked env addr cpu =
     (case Cache_get (direct_get 1 8192) (icache cpu) addr of
        (hit, ic) \<Rightarrow>
          let cpu = cpu\<lparr>icache := ic\<rparr> in
          case hit of
            Some decoded \<Rightarrow> Some (Ok decoded, cpu)
          | None \<Rightarrow>
              bind_q (ifetch_at env addr) (\<lambda>raw_instr cpu.
                case env_decode env raw_instr of
                  None \<Rightarrow> Some (Err \<lparr>ex_cause = Ex_IllegalInstruction, ex_tval = ucast raw_instr\<rparr>, cpu)
                | Some decoded \<Rightarrow> Some (Ok decoded, icache_put addr decoded cpu)) cpu)"

definition decode_at :: "('d, 'x) hart_env \<Rightarrow> u64 \<Rightarrow> ('d, 'x) RVCPU \<Rightarrow> (DecodeInstr option \<times> ('d, 'x) RVCPU) option" where
  "decode_at env addr cpu =
     map_option (\<lambda>(r, cpu). (case r of Ok d \<Rightarrow> Some d | Err _ \<Rightarrow> None, cpu)) (decode_at_checked env addr cpu)"

definition finish_execute ::
  "('d, 'x) hart_env \<Rightarrow> (unit, Exception) result \<Rightarrow> ('d, 'x) RVCPU \<Rightarrow> ('d, 'x) RVCPU option" where
  "finish_execute env rst cpu =
     (case rst of
        Ok _ \<Rightarrow> Some cpu
      | Err nr \<Rightarrow>
          if nr = Ex_IllegalInstruction then
            do { (raw, cpu) \<leftarrow> ifetch env cpu;
                 case raw of
                   Ok raw_instr \<Rightarrow> take_exception Ex_IllegalInstruction (ucast raw_instr) cpu
                 | Err _ \<Rightarrow> None }
          else
            let tval = (case pending_tval cpu of Some t \<Rightarrow> t | None \<Rightarrow> 0) in
            take_exception nr tval (cpu\<lparr>pending_tval := None\<rparr>))"

definition step_impl :: "('d, 'x) hart_env \<Rightarrow> ('d, 'x) RVCPU \<Rightarrow> ('d, 'x) RVCPU option" where
  "step_impl env cpu =
     do { (d, cpu) \<leftarrow> decode_at_checked env (pc cpu) cpu;
          case d of
            Err err \<Rightarrow> take_exception (ex_cause err) (ex_tval err) cpu
          | Ok decoded \<Rightarrow>
              do { (rst, cpu) \<leftarrow> execute env (dec_instr decoded) (dec_info decoded) cpu;
                   finish_execute env rst cpu } }"

definition increment_mcycle_by :: "u64 \<Rightarrow> ('d, 'x) RVCPU \<Rightarrow> ('d, 'x) RVCPU option" where
  "increment_mcycle_by cycles cpu =
     do { v \<leftarrow> csr_data 0xB00 (csr cpu);
          c \<leftarrow> csr_set_directly (0xB00, 0, 64) (v + cycles) (csr cpu);
          Some (cpu\<lparr>csr := c\<rparr>) }"

definition increment_mcycle :: "('d, 'x) RVCPU \<Rightarrow> ('d, 'x) RVCPU option" where
  "increment_mcycle cpu = increment_mcycle_by 1 cpu"

fun no_interrupt_loop :: "('d, 'x) hart_env \<Rightarrow> nat \<Rightarrow> ('d, 'x) RVCPU \<Rightarrow> ('d, 'x) RVCPU option" where
  "no_interrupt_loop env 0 cpu = Some cpu"
| "no_interrupt_loop env (Suc n) cpu =
     do { cpu \<leftarrow> step_impl env cpu; cpu \<leftarrow> increment_mcycle cpu; no_interrupt_loop env n cpu }"

definition step_batch_no_interrupt :: "('d, 'x) hart_env \<Rightarrow> u64 \<Rightarrow> ('d, 'x) RVCPU \<Rightarrow> ('d, 'x) RVCPU option" where
  "step_batch_no_interrupt env cycles cpu = no_interrupt_loop env (unat cycles) cpu"

record ('h, 'c, 'd, 'x) ExecutionHook =
  before_step :: "'h \<Rightarrow> ('d, 'x) RVCPU \<Rightarrow> 'c \<times> 'h \<times> ('d, 'x) RVCPU"
  on_interrupt_taken :: "'h \<Rightarrow> u64 \<Rightarrow> 'c \<times> 'h"
  after_step :: "'c \<Rightarrow> 'h \<Rightarrow> ('d, 'x) RVCPU \<Rightarrow> bool \<times> 'h \<times> ('d, 'x) RVCPU"

definition NoopExecutionHook :: "(unit, unit, 'd, 'x) ExecutionHook" where
  "NoopExecutionHook =
     \<lparr>before_step = (\<lambda>_ cpu. ((), (), cpu)), on_interrupt_taken = (\<lambda>_ _. ((), ())),
      after_step = (\<lambda>_ _ cpu. (False, (), cpu))\<rparr>"

text \<open>
  The loop of a batch runs while fewer than the requested cycles have been executed; the first
  argument of \<open>batch_loop\<close> is the number still to be executed.
\<close>

fun batch_loop ::
  "('d, 'x) hart_env \<Rightarrow> ('h, 'c, 'd, 'x) ExecutionHook \<Rightarrow> nat \<Rightarrow> u64 \<Rightarrow> 'h \<Rightarrow> ('d, 'x) RVCPU
     \<Rightarrow> (BatchResult \<times> 'h \<times> ('d, 'x) RVCPU) option" where
  "batch_loop env hook 0 executed h cpu = Some (\<lparr>batch_cycles = executed, hook_stopped = False\<rparr>, h, cpu)"
| "batch_loop env hook (Suc n) executed h cpu =
     (case before_step hook h cpu of (context, h, cpu) \<Rightarrow>
        do { cpu \<leftarrow> step_impl env cpu;
             cpu \<leftarrow> increment_mcycle cpu;
             case after_step hook context h cpu of (stop, h, cpu) \<Rightarrow>
               if stop then Some (\<lparr>batch_cycles = executed + 1, hook_stopped = True\<rparr>, h, cpu)
               else batch_loop env hook n (executed + 1) h cpu })"

definition step_batch_with_hook ::
  "('d, 'x) hart_env \<Rightarrow> ('h, 'c, 'd, 'x) ExecutionHook \<Rightarrow> u64 \<Rightarrow> 'h \<Rightarrow> ('d, 'x) RVCPU
     \<Rightarrow> (BatchResult \<times> 'h \<times> ('d, 'x) RVCPU) option" where
  "step_batch_with_hook env hook cycles h cpu =
     (if cycles = 0 then Some (\<lparr>batch_cycles = 0, hook_stopped = False\<rparr>, h, cpu)
      else
        let interrupt_pc = pc cpu in
        do { (taken, cpu) \<leftarrow> try_take_interrupt cpu;
             case taken of
               None \<Rightarrow> batch_loop env hook (unat cycles) 0 h cpu
             | Some _ \<Rightarrow>
                 (case on_interrupt_taken hook h interrupt_pc of (context, h) \<Rightarrow>
                    do { cpu \<leftarrow> increment_mcycle cpu;
                         case after_step hook context h cpu of (stop, h, cpu) \<Rightarrow>
                           if stop then Some (\<lparr>batch_cycles = 1, hook_stopped = True\<rparr>, h, cpu)
                           else batch_loop env hook (unat cycles - 1) 1 h cpu }) })"

definition step_batch :: "('d, 'x) hart_env \<Rightarrow> u64 \<Rightarrow> ('d, 'x) RVCPU \<Rightarrow> ('d, 'x) RVCPU option" where
  "step_batch env cycles cpu = map_option (\<lambda>(_, _, cpu). cpu) (step_batch_with_hook env NoopExecutionHook cycles () cpu)"

definition step :: "('d, 'x) hart_env \<Rightarrow> ('d, 'x) RVCPU \<Rightarrow> ('d, 'x) RVCPU option" where
  "step env cpu = step_batch env 1 cpu"

definition try_take_pending_interrupt :: "('d, 'x) RVCPU \<Rightarrow> (bool \<times> ('d, 'x) RVCPU) option" where
  "try_take_pending_interrupt cpu =
     do { (taken, cpu) \<leftarrow> try_take_interrupt cpu;
          case taken of
            None \<Rightarrow> Some (False, cpu)
          | Some _ \<Rightarrow> map_option (Pair True) (increment_mcycle cpu) }"

definition finish_jit_block :: "u64 \<Rightarrow> u64 \<Rightarrow> ('d, 'x) RVCPU \<Rightarrow> ('d, 'x) RVCPU option" where
  "finish_jit_block next_pc instr_count cpu =
     (if reg_file cpu = [] then None
      else do { cpu \<leftarrow> increment_mcycle_by instr_count (cpu\<lparr>pc := next_pc, reg_file := (reg_file cpu)[0 := 0]\<rparr>);
                on_csr (Minstret_wrapping_add instr_count) cpu })"

section \<open>Every step keeps the processor well formed\<close>

lemma cpu_at_icache [simp]:
  "cpu_at p cpu \<Longrightarrow> direct_inv 8192 (Caches.policy ic) \<Longrightarrow> cpu_at p (cpu\<lparr>icache := ic\<rparr>)"
  by (simp add: cpu_at_def cpu_wf_def)

lemma keeps_fetch_half [keeps_rules]: "keeps (cpu_at p) (fetch_half env addr)"
proof (rule keepsI)
  fix cpu r and cpu' :: "('a, 'b) RVCPU"
  assume at: "cpu_at p cpu" and f: "fetch_half env addr cpu = Some (r, cpu')"
  obtain q cpu1 where m: "read_for_ifetch (env_ops env) addr cpu = Some (q :: (u16, MemError) result, cpu1)"
    using f by (auto simp: fetch_half_def bind_eq_Some_conv)
  then have "cpu' = cpu1" using f by (cases q) (auto simp: fetch_half_def bind_eq_Some_conv)
  then show "cpu_at p cpu'" by (simp only: keepsD [OF keeps_ifetch at m])
qed

lemma keeps_ifetch_at [keeps_rules]: "keeps (cpu_at p) (ifetch_at env addr)" "keeps (cpu_at p) (ifetch env)"
proof -
  show k: "keeps (cpu_at p) (ifetch_at env addr)" for addr
    unfolding ifetch_at_def Let_def by (intro keeps_rules)
  show "keeps (cpu_at p) (ifetch env)"
    unfolding ifetch_def by (rule keeps_at) (rule k)
qed

lemma keeps_decode [keeps_rules]: "keeps (cpu_at p) (decode_at_checked env addr)"
proof (rule keepsI)
  fix cpu r and cpu' :: "('a, 'b) RVCPU"
  assume at: "cpu_at p cpu" and d: "decode_at_checked env addr cpu = Some (r, cpu')"
  obtain hit ic where c: "Cache_get (direct_get 1 8192) (icache cpu) addr = (hit, ic)" by force
  have ic: "Caches.policy ic = Caches.policy (icache cpu)"
    using c by (auto simp: Cache_get_def Let_def split: option.splits)
  have inv: "direct_inv 8192 (Caches.policy (icache x))" if "cpu_at p x" for x :: "('a, 'b) RVCPU"
    using that by (simp add: cpu_at_def cpu_wf_def)
  have at': "cpu_at p (cpu\<lparr>icache := ic\<rparr>)" using at inv [OF at] ic by simp
  show "cpu_at p cpu'"
  proof (cases hit)
    case (Some v)
    then show ?thesis using d c at' by (simp add: decode_at_checked_def)
  next
    case None
    have put: "cpu_at p (icache_put addr v x)" if "cpu_at p x" for v and x :: "('a, 'b) RVCPU"
      unfolding icache_put_def
      by (rule cpu_at_icache [OF that]) (use icache_laws.inv_put [OF inv [OF that]] in \<open>simp add: Cache_put_def\<close>)
    have k: "keeps (cpu_at p) (\<lambda>cpu :: ('a, 'b) RVCPU. case env_decode env raw of
        None \<Rightarrow> Some (Err \<lparr>ex_cause = Ex_IllegalInstruction, ex_tval = ucast raw\<rparr>, cpu)
      | Some decoded \<Rightarrow> Some (Ok decoded, icache_put addr decoded cpu))" for raw
      by (rule keepsI) (auto simp: put split: option.splits)
    show ?thesis
      by (rule keepsD [OF keeps_bind [OF keeps_ifetch_at(1) k] at']) (use d c None in \<open>simp add: decode_at_checked_def\<close>)
  qed
qed

lemma execute_wf:
  assumes "ext_ok (env_ext env)" "cpu_wf cpu" "execute env i info cpu = Some (r, cpu')"
  shows "cpu_wf cpu'"
proof -
  obtain cpu1 where e: "get_exec_func (env_ops env) (env_ext env) i info cpu = Some (r, cpu1)"
      "cpu' = cpu1\<lparr>reg_file := (reg_file cpu1)[0 := 0]\<rparr>"
    using assms(3) by (auto simp: execute_def bind_eq_Some_conv split: if_splits)
  have "cpu_wf cpu1" by (rule keepsD [OF keeps_any_instr [OF assms(1)] assms(2) e(1)])
  then show ?thesis unfolding e(2) by (simp add: cpu_wf_def REGFILE_CNT_def)
qed

lemma finish_execute_wf:
  assumes "cpu_wf cpu" "finish_execute env rst cpu = Some cpu'"
  shows "cpu_wf cpu'"
proof (cases "rst = Err Ex_IllegalInstruction")
  case True
  obtain q cpu1 where q: "ifetch env cpu = Some (q, cpu1)"
    using True assms(2) by (auto simp: finish_execute_def bind_eq_Some_conv)
  then obtain raw where f: "ifetch env cpu = Some (Ok raw, cpu1)"
      "take_exception Ex_IllegalInstruction (ucast raw) cpu1 = Some cpu'"
    using True assms(2) by (cases q) (auto simp: finish_execute_def)
  have "cpu_wf cpu1" by (rule keepsD [OF keeps_cpu_wf [OF keeps_ifetch_at(2)] assms(1) f(1)])
  then show ?thesis using f(2) by (rule take_exception_wf)
next
  case False
  then show ?thesis using assms take_exception_wf [of "cpu\<lparr>pending_tval := None\<rparr>"]
    by (auto simp: finish_execute_def Let_def split: result.splits if_splits)
qed

lemma step_impl_wf:
  assumes "ext_ok (env_ext env)" "cpu_wf cpu" "step_impl env cpu = Some cpu'"
  shows "cpu_wf cpu'"
proof -
  obtain d cpu1 where d: "decode_at_checked env (pc cpu) cpu = Some (d, cpu1)"
    using assms(3) by (auto simp: step_impl_def bind_eq_Some_conv)
  have wf: "cpu_wf cpu1" by (rule keepsD [OF keeps_cpu_wf [OF keeps_decode] assms(2) d])
  show ?thesis
  proof (cases d)
    case (Err e)
    then show ?thesis using assms(3) d take_exception_wf [OF wf] by (auto simp: step_impl_def)
  next
    case (Ok v)
    then obtain rst cpu2 where "execute env (dec_instr v) (dec_info v) cpu1 = Some (rst, cpu2)"
        "finish_execute env rst cpu2 = Some cpu'"
      using assms(3) d by (auto simp: step_impl_def bind_eq_Some_conv)
    then show ?thesis using execute_wf [OF assms(1) wf] finish_execute_wf by blast
  qed
qed

lemma increment_mcycle_eq:
  assumes "csr_wf (csr cpu)"
  shows "increment_mcycle_by n cpu = Some (cpu\<lparr>csr := csr_put 0xB00 (csr_val (csr cpu) 0xB00 + n) (csr cpu)\<rparr>)"
proof -
  have "field_put 0 64 v w = v" for v w :: u64
    by (rule bit_word_eqI) (simp add: bit_field_put)
  moreover have "v \<le> mask 64" for v :: u64 using unsigned_less [of v, where 'a = nat]
    by (simp add: mask_eq_exp_minus_1 word_le_nat_alt)
  ultimately show ?thesis using assms
    by (simp add: increment_mcycle_by_def csr_simps)
qed

lemma increment_mcycle_wf: "cpu_wf cpu \<Longrightarrow> increment_mcycle_by n cpu = Some cpu' \<Longrightarrow> cpu_wf cpu'"
  using increment_mcycle_eq [of cpu n] cpu_wfD(1) [of cpu] by auto

section \<open>An example\<close>

text \<open>A hart in U-mode without devices that has an environment call in its instruction cache.\<close>

definition example_env :: "(unit, unit) hart_env" where
  "example_env =
     \<lparr>env_ops = \<lparr>dev_read = (\<lambda>h d r a n. None), dev_write = (\<lambda>h d r a n v. None), dev_sync = (\<lambda>h d r. None)\<rparr>,
      env_ext = (\<lambda>_. exec_illegal), env_decode = (\<lambda>_. None)\<rparr>"

definition example_ecall :: DecodeInstr where
  "example_ecall = \<lparr>dec_instr = System I_ECALL, dec_info = Info_None, dec_len = 4\<rparr>"

definition ecall_cpu :: "(unit, unit) RVCPU" where
  "ecall_cpu = icache_put BASE_ADDR example_ecall (example_cpu (set_current_privileged PrivU CsrRegFile_new))"

lemma example_ext_ok: "ext_ok (env_ext example_env)"
  unfolding ext_ok_def example_env_def by (simp add: keeps_env)

lemma example_cpu_wf:
  assumes "csr_wf c"
  shows "cpu_wf (example_cpu c)"
  using assms
  by (simp add: example_cpu_def cpu_wf_def RegFile_new_def REGFILE_CNT_def from_ram_and_mmio_def empty_board_def
      from_mmio_items_def PageTableWalker_new_def Cache_new_def TLB_SIZE_def)

lemma ecall_cpu_wf: "cpu_wf ecall_cpu" "cpl (csr ecall_cpu) = PrivU" "csr_wf (csr ecall_cpu)"
proof -
  have c: "csr_wf (set_current_privileged PrivU CsrRegFile_new)" using csr_wf_new by simp
  have inv: "direct_inv 8192 (Caches.policy (icache (example_cpu c')))" for c'
    by (simp add: example_cpu_def Cache_new_def)
  show "cpu_wf ecall_cpu"
    using example_cpu_wf [OF c] icache_laws.inv_put [OF inv]
    by (simp add: ecall_cpu_def icache_put_def cpu_wf_def Cache_put_def)
  show "cpl (csr ecall_cpu) = PrivU" "csr_wf (csr ecall_cpu)"
    using c by (simp_all add: ecall_cpu_def icache_put_def example_cpu_def)
qed

lemma ecall_cpu_decode:
  "\<exists>ic. decode_at_checked example_env BASE_ADDR ecall_cpu = Some (Ok example_ecall, ecall_cpu\<lparr>icache := ic\<rparr>)"
proof -
  have inv: "direct_inv 8192 (Caches.policy (icache (example_cpu c')))" for c'
    by (simp add: example_cpu_def Cache_new_def)
  have "direct_get 1 8192 (Caches.policy (icache ecall_cpu)) BASE_ADDR = Some example_ecall"
    using icache_laws.get_put_same [OF inv] by (simp add: ecall_cpu_def icache_put_def Cache_put_def)
  then show ?thesis by (auto simp: decode_at_checked_def Cache_get_def Let_def)
qed

lemma ecall_cpu_step:
  "\<exists>cpu'. step_impl example_env ecall_cpu = Some cpu' \<and> cpl (csr cpu') = PrivM \<and> pc cpu' = 0 \<and> csr_wf (csr cpu')"
proof -
  obtain ic where ic: "decode_at_checked example_env BASE_ADDR ecall_cpu = Some (Ok example_ecall, ecall_cpu\<lparr>icache := ic\<rparr>)"
    using ecall_cpu_decode by blast
  have pc: "pc ecall_cpu = BASE_ADDR" "pending_tval ecall_cpu = None" "reg_file ecall_cpu \<noteq> []"
    by (simp_all add: ecall_cpu_def icache_put_def example_cpu_def DEFAULT_PC_VALUE_def RegFile_new_def REGFILE_CNT_def)
  let ?cpu = "ecall_cpu\<lparr>icache := ic, reg_file := (reg_file ecall_cpu)[0 := 0], pending_tval := None\<rparr>"
  have v: "csr_val (csr ?cpu) a = 0" if "a \<in> {0x302, 0x305}" for a
    using that by (auto simp: ecall_cpu_def icache_put_def example_cpu_def csr_val_new desc_defs)
  have "next_pc_by_tvec (TException Ex_UserEnvCall) (field_get 0 2 (csr_val (csr ?cpu) 0x305))
      (field_get 2 62 (csr_val (csr ?cpu) 0x305)) = Some 0"
    using v by (simp add: next_pc_by_tvec_def field_get_def)
  note send = send_trap_signal_m_mode_eq [of ?cpu "TException Ex_UserEnvCall" _ 0 0, OF _ _ this]
  have "is_exception_delegated_m_mode Ex_UserEnvCall (csr ecall_cpu) = Some False"
    using v exception_delegated_eq [OF ecall_cpu_wf(3)] by simp
  then show ?thesis
    using ic pc send ecall_cpu_wf
    by (simp add: step_impl_def execute_def example_ecall_def finish_execute_def exec_ecall_def take_exception_def
        try_send_trap_signal_def Let_def example_env_def)
qed

section \<open>Reachable states\<close>

text \<open>
  The life of a hart: it is created over a memory without pending events, and then executes
  instructions, takes interrupts, counts cycles and has its interrupt inputs driven, in any order.
\<close>

inductive hart_reachable :: "('d, 'x) hart_env \<Rightarrow> ('d, 'x) RVCPU \<Rightarrow> bool" for env where
  created: "from_decoder extensions units vm = Some cpu \<Longrightarrow> extensions \<le> mask 25
     \<Longrightarrow> vm = from_ram_and_mmio io \<Longrightarrow> irq_out io = [] \<Longrightarrow> hart_reachable env cpu"
| executed: "hart_reachable env cpu \<Longrightarrow> step_impl env cpu = Some cpu' \<Longrightarrow> hart_reachable env cpu'"
| interrupted: "hart_reachable env cpu \<Longrightarrow> try_take_interrupt cpu = Some (taken, cpu') \<Longrightarrow> hart_reachable env cpu'"
| counted: "hart_reachable env cpu \<Longrightarrow> increment_mcycle_by n cpu = Some cpu' \<Longrightarrow> hart_reachable env cpu'"
| driven: "hart_reachable env cpu \<Longrightarrow> handle_irq nr level cpu = Some cpu' \<Longrightarrow> hart_reachable env cpu'"

lemma from_decoder_wf:
  assumes "from_decoder extensions units (from_ram_and_mmio io) = Some cpu" "extensions \<le> mask 25" "irq_out io = []"
  shows "cpu_wf cpu \<and> cpl (csr cpu) = PrivM \<and> pc cpu = BASE_ADDR"
proof -
  have c: "csr_wf (CsrRegFile_new\<lparr>ctx := (ctx CsrRegFile_new)\<lparr>extension := extensions\<rparr>\<rparr>)"
    using csr_wf_new by (simp add: csr_wf_def)
  have "(2 :: u64) \<le> mask 2" by (simp add: mask_eq_exp_minus_1 word_le_nat_alt)
  then show ?thesis
    using assms c
    by (auto simp: from_decoder_def Let_def csr_simps cpu_wf_def RegFile_new_def REGFILE_CNT_def DEFAULT_PC_VALUE_def
        from_ram_and_mmio_def PageTableWalker_new_def Cache_new_def TLB_SIZE_def)
qed

lemma execute_priv:
  assumes "ext_ok (env_ext env)" "cpu_wf cpu" "execute env i info cpu = Some (r, cpu')"
  shows "cpl (csr cpu') \<le> cpl (csr cpu)"
proof -
  obtain cpu1 where e: "get_exec_func (env_ops env) (env_ext env) i info cpu = Some (r, cpu1)" "csr cpu' = csr cpu1"
    using assms(3) by (auto simp: execute_def bind_eq_Some_conv split: if_splits)
  have m: "p \<le> PrivM" "PrivU \<le> p" for p by (cases p; simp add: less_eq_PrivilegeLevel_def)+
  consider "i = System I_MRET" | "i = System I_SRET" | "i \<notin> {System I_MRET, System I_SRET}" by blast
  then have "cpl (csr cpu1) \<le> cpl (csr cpu)"
  proof cases
    case 1
    then show ?thesis using e(1) m by (cases "cpl (csr cpu) = PrivM") (auto simp: exec_mret_def)
  next
    case 2
    show ?thesis
    proof (cases "cpl (csr cpu) < PrivS \<or> cpl (csr cpu1) = cpl (csr cpu)")
      case True
      then show ?thesis using e(1) 2 by (auto simp: exec_sret_def)
    next
      case False
      then obtain cpu2 where s: "sret cpu = Some cpu2" "count_instr cpu2 = Some (r, cpu1)"
        using e(1) 2 by (auto simp: exec_sret_def bind_eq_Some_conv split: if_splits)
      have c2: "cpu_at (cpl (csr cpu2)) cpu2" using sret_wf [OF assms(2) s(1)] by (simp add: cpu_at_def)
      have "cpl (csr cpu1) = cpl (csr cpu2)"
        using on_csr_count_wf [OF c2] s(2) by (auto simp: count_instr_def cpu_at_def)
      then show ?thesis using False m s(1) sret_eq [OF cpu_wfD(1) [OF assms(2)]] by auto
    qed
  next
    case 3
    have "cpu_at (cpl (csr cpu)) cpu" using assms(2) by (simp add: cpu_at_def)
    then have "cpu_at (cpl (csr cpu)) cpu1" by (rule keepsD [OF keeps_get_exec_func [OF assms(1) 3] _ e(1)])
    then show ?thesis by (simp add: cpu_at_def)
  qed
  then show ?thesis using e(2) by simp
qed

lemma finish_execute_entry:
  assumes "cpu_wf cpu" "finish_execute env rst cpu = Some cpu'"
  shows "cpl (csr cpu') \<le> cpl (csr cpu) \<or> (\<exists>cpu1 e tval. cpu_wf cpu1 \<and> cpl (csr cpu1) = cpl (csr cpu) \<and> take_exception e tval cpu1 = Some cpu')"
proof (cases "rst = Err Ex_IllegalInstruction")
  case True
  obtain q cpu1 where q: "ifetch env cpu = Some (q, cpu1)"
    using True assms(2) by (auto simp: finish_execute_def bind_eq_Some_conv)
  then obtain raw where f: "take_exception Ex_IllegalInstruction (ucast (raw :: RawInstr)) cpu1 = Some cpu'"
    using True assms(2) by (cases q) (auto simp: finish_execute_def)
  have "cpu_at (cpl (csr cpu)) cpu" using assms(1) by (simp add: cpu_at_def)
  then have "cpu_at (cpl (csr cpu)) cpu1" by (rule keepsD [OF keeps_ifetch_at(2) _ q])
  then show ?thesis using f by (auto simp: cpu_at_def)
next
  case False
  show ?thesis
  proof (cases rst)
    case (Ok u)
    then show ?thesis using assms(2) by (simp add: finish_execute_def)
  next
    case (Err e)
    have "cpu_wf (cpu\<lparr>pending_tval := None\<rparr>)" "csr (cpu\<lparr>pending_tval := None\<rparr>) = csr cpu" using assms(1) by simp_all
    then show ?thesis using Err False assms(2) unfolding finish_execute_def Let_def by fastforce
  qed
qed

text \<open>
  C1.  Whatever instructions a hart executes, whatever interrupts it takes and however its inputs are driven, it
  stays well formed: \<open>x0\<close> reads as zero, the register file has its thirty-two registers, the control registers keep
  their descriptions, and the caches keep their sizes.
\<close>

theorem hart_invariant:
  assumes "ext_ok (env_ext env)" "hart_reachable env cpu"
  shows "cpu_wf cpu"
  using assms(2)
proof induction
  case (created extensions units vm cpu io)
  then show ?case using from_decoder_wf [of extensions units io cpu] by simp
next
  case (executed cpu cpu')
  show ?case by (rule step_impl_wf [OF assms(1) executed(3,2)])
next
  case (interrupted cpu taken cpu')
  show ?case by (rule try_take_interrupt_wf [OF interrupted(3,2)])
next
  case (counted cpu n cpu')
  show ?case by (rule increment_mcycle_wf [OF counted(3,2)])
next
  case (driven cpu nr level cpu')
  then have "cpu_at (cpl (csr cpu)) cpu" by (simp add: cpu_at_def)
  then show ?case by (rule cpu_atD(1) [OF handle_irq_wf [OF _ driven(2)]])
qed

theorem hart_invariant_witness:
  "\<exists>cpu cpu'. from_decoder 0x1105 () (from_ram_and_mmio empty_board) = Some cpu
     \<and> handle_irq MachineTimer True cpu = Some cpu' \<and> cpu_wf cpu'"
proof -
  have io: "irq_out empty_board = []" by (simp add: empty_board_def from_mmio_items_def)
  have ext: "(0x1105 :: u64) \<le> mask 25" "(2 :: u64) \<le> mask 2" by (simp_all add: mask_eq_exp_minus_1 word_le_nat_alt)
  have "csr_wf (CsrRegFile_new\<lparr>ctx := (ctx CsrRegFile_new)\<lparr>extension := 0x1105\<rparr>\<rparr>)"
    using csr_wf_new by (simp add: csr_wf_def)
  then obtain cpu where c: "from_decoder 0x1105 () (from_ram_and_mmio empty_board) = Some cpu"
    using ext by (simp add: from_decoder_def Let_def csr_simps)
  then have r: "hart_reachable example_env cpu" by (intro created [OF _ ext(1) refl io])
  have "csr_wf (csr cpu)" using from_decoder_wf [OF c ext(1) io] by auto
  then obtain cpu' where i: "handle_irq MachineTimer True cpu = Some cpu'"
    by (simp add: on_csr_def csr_simps)
  show ?thesis using c i hart_invariant [OF example_ext_ok driven [OF r i]] by blast
qed

text \<open>
  C3.  Privilege is gained only by entering a trap handler: a step that ends at a higher level than it began
  ends in M-mode at the address in \<open>mtvec\<close>, or in S-mode at the address in \<open>stvec\<close>.  In particular no
  instruction of the integer, atomic, compressed and privileged sets raises the level by itself.
\<close>

theorem privilege_gate:
  assumes "ext_ok (env_ext env)" "cpu_wf cpu" "step_impl env cpu = Some cpu'" "cpl (csr cpu) < cpl (csr cpu')"
  shows "(cpl (csr cpu') = PrivM \<and> pc cpu' = csr_val (csr cpu') 0x305 AND NOT 3)
    \<or> (cpl (csr cpu') = PrivS \<and> pc cpu' = csr_val (csr cpu') 0x105 AND NOT 3)"
proof -
  obtain d cpu1 where d: "decode_at_checked env (pc cpu) cpu = Some (d, cpu1)"
    using assms(3) by (auto simp: step_impl_def bind_eq_Some_conv)
  have "cpu_at (cpl (csr cpu)) cpu" using assms(2) by (simp add: cpu_at_def)
  then have "cpu_at (cpl (csr cpu)) cpu1" by (rule keepsD [OF keeps_decode _ d])
  then have c1: "cpu_wf cpu1" "cpl (csr cpu1) = cpl (csr cpu)" by (simp_all add: cpu_at_def)
  have entry: ?thesis if "cpu_wf x" "take_exception e tval x = Some cpu'" for x e tval
    using take_exception_entry [OF cpu_wfD(1) [OF that(1)] that(2)] by blast
  show ?thesis
  proof (cases d)
    case (Err e)
    then have "take_exception (ex_cause e) (ex_tval e) cpu1 = Some cpu'" using assms(3) d by (simp add: step_impl_def)
    then show ?thesis by (rule entry [OF c1(1)])
  next
    case (Ok v)
    then obtain rst cpu2 where x: "execute env (dec_instr v) (dec_info v) cpu1 = Some (rst, cpu2)"
        "finish_execute env rst cpu2 = Some cpu'"
      using assms(3) d by (auto simp: step_impl_def bind_eq_Some_conv)
    have c2: "cpu_wf cpu2" "cpl (csr cpu2) \<le> cpl (csr cpu)"
      using execute_wf [OF assms(1) c1(1) x(1)] execute_priv [OF assms(1) c1(1) x(1)] c1(2) by simp_all
    then have "\<not> cpl (csr cpu') \<le> cpl (csr cpu2)" using assms(4) by (meson leD order_trans)
    then obtain y e tval where "cpu_wf y" "take_exception e tval y = Some cpu'"
      using finish_execute_entry [OF c2(1) x(2)] by (elim disjE exE conjE) simp_all
    then show ?thesis by (rule entry)
  qed
qed

theorem privilege_gate_witness:
  "\<exists>cpu'. step_impl example_env ecall_cpu = Some cpu' \<and> cpl (csr ecall_cpu) < cpl (csr cpu')
     \<and> pc cpu' = csr_val (csr cpu') 0x305 AND NOT 3"
proof -
  obtain cpu' where s: "step_impl example_env ecall_cpu = Some cpu'" "cpl (csr cpu') = PrivM"
    using ecall_cpu_step by blast
  then have "cpl (csr ecall_cpu) < cpl (csr cpu')" by (simp add: ecall_cpu_wf(2) less_PrivilegeLevel_def)
  then show ?thesis using privilege_gate [OF example_ext_ok ecall_cpu_wf(1) s(1)] s by auto
qed

section \<open>Batches\<close>

lemma noop_hook [simp]:
  "before_step NoopExecutionHook h cpu = ((), (), cpu)" "on_interrupt_taken NoopExecutionHook h p = ((), ())"
  "after_step NoopExecutionHook u h cpu = (False, (), cpu)"
  by (simp_all add: NoopExecutionHook_def)

lemma noop_batch_loop:
  "map_option (\<lambda>(_, _, cpu). cpu) (batch_loop env NoopExecutionHook n executed () cpu) = no_interrupt_loop env n cpu"
proof (induction n arbitrary: executed cpu)
  case (Suc n)
  then show ?case
    by (cases "step_impl env cpu"; cases "Option.bind (step_impl env cpu) increment_mcycle")
       auto
qed simp

lemma no_interrupt_loop_add:
  "no_interrupt_loop env (m + n) cpu = Option.bind (no_interrupt_loop env m cpu) (no_interrupt_loop env n)"
proof (induction m arbitrary: cpu)
  case (Suc m)
  then show ?case
    by (cases "step_impl env cpu"; cases "Option.bind (step_impl env cpu) increment_mcycle") auto
qed simp

text \<open>
  C35.  A batch may be cut anywhere: running \<open>a + b\<close> cycles is running \<open>a\<close> cycles and then \<open>b\<close> cycles in
  which no interrupt is taken, a panic in either part included.  So interrupts are looked at once, at the
  beginning of a batch, and a batch without hook always runs the number of cycles it was asked for.
\<close>

theorem batch_split:
  assumes "a \<noteq> 0" "unat a + unat b < 2 ^ 64"
  shows "step_batch env (a + b) cpu = Option.bind (step_batch env a cpu) (step_batch_no_interrupt env b)"
proof -
  have n: "unat (a + b) = unat a + unat b" using assms(2) by (simp add: unat_word_ariths)
  have a: "0 < unat a" "a + b \<noteq> 0" using assms n by (auto simp: unat_gt_0 unat_eq_zero)
  have loop: "map_option (\<lambda>(_, _, cpu). cpu) (batch_loop env NoopExecutionHook (k + unat b) e () x) =
      Option.bind (map_option (\<lambda>(_, _, cpu). cpu) (batch_loop env NoopExecutionHook k e () x)) (step_batch_no_interrupt env b)" for k e x
    by (simp add: noop_batch_loop no_interrupt_loop_add step_batch_no_interrupt_def [abs_def])
  show ?thesis
  proof (cases "try_take_interrupt cpu")
    case (Some t)
    obtain taken cpu1 where t: "t = (taken, cpu1)" by force
    have "unat a + unat b - Suc 0 = unat a - Suc 0 + unat b" using a by simp
    note later = loop [of "unat a - Suc 0" 1, folded this]
    show ?thesis
      using Some t a assms(1)
      by (cases taken; cases "increment_mcycle cpu1")
         (simp_all add: step_batch_def step_batch_with_hook_def Let_def n loop later)
  qed (use a assms(1) in \<open>simp add: step_batch_def step_batch_with_hook_def\<close>)
qed

theorem batch_split_witness:
  "step_batch example_env 2 ecall_cpu = Option.bind (step_batch example_env 1 ecall_cpu) (step_batch_no_interrupt example_env 1)"
  using batch_split [of 1 1 example_env ecall_cpu] by simp

lemma batch_loop_cycles:
  assumes "batch_loop env hook n executed h cpu = Some (res, h', cpu')" "unat executed + n < 2 ^ 64"
  shows "unat executed \<le> unat (batch_cycles res) \<and> unat (batch_cycles res) \<le> unat executed + n
    \<and> (hook_stopped res \<or> unat (batch_cycles res) = unat executed + n) \<and> (0 < n \<longrightarrow> unat executed < unat (batch_cycles res))"
  using assms
proof (induction n arbitrary: executed h cpu)
  case (Suc n)
  have u: "unat (executed + 1) = Suc (unat executed)" using Suc.prems(2) by (simp add: unat_word_ariths)
  obtain ct h1 cpu1 where b: "before_step hook h cpu = (ct, h1, cpu1)" by (metis prod_cases3)
  then obtain cpu2 cpu3 where s: "step_impl env cpu1 = Some cpu2" "increment_mcycle cpu2 = Some cpu3"
    using Suc.prems(1) by (auto simp: bind_eq_Some_conv)
  obtain stop h4 cpu4 where a: "after_step hook ct h1 cpu3 = (stop, h4, cpu4)" by (metis prod_cases3)
  show ?case
  proof (cases stop)
    case True
    then show ?thesis using Suc.prems(1) b s a u by auto
  next
    case False
    then have "batch_loop env hook n (executed + 1) h4 cpu4 = Some (res, h', cpu')"
      using Suc.prems(1) b s a by simp
    from Suc.IH [OF this] show ?thesis using Suc.prems(2) u by auto
  qed
qed auto

text \<open>
  A batch with a hook never runs more cycles than it was asked for, reports the number it ran, and runs
  fewer only because the hook stopped it; a non-empty batch runs at least one cycle.
\<close>

theorem batch_bounds:
  assumes "step_batch_with_hook env hook cycles h cpu = Some (res, h', cpu')"
  shows "batch_cycles res \<le> cycles \<and> (hook_stopped res \<or> batch_cycles res = cycles)
    \<and> (cycles \<noteq> 0 \<longrightarrow> batch_cycles res \<noteq> 0)"
proof -
  have "unat (batch_cycles res) \<le> unat cycles \<and> (hook_stopped res \<or> unat (batch_cycles res) = unat cycles)
      \<and> (cycles \<noteq> 0 \<longrightarrow> 0 < unat (batch_cycles res))"
  proof (cases "cycles = 0")
    case False
    have c: "0 < unat cycles" "unat cycles < 2 ^ 64" using False unsigned_less [of cycles] by (simp_all add: unat_gt_0)
    obtain taken cpu1 where t: "try_take_interrupt cpu = Some (taken, cpu1)"
      using assms False by (auto simp: step_batch_with_hook_def bind_eq_Some_conv)
    show ?thesis
    proof (cases taken)
      case None
      then show ?thesis using batch_loop_cycles [of env hook "unat cycles" 0 h cpu1 res h' cpu'] assms t False c
        by (auto simp: step_batch_with_hook_def)
    next
      case (Some nr)
      obtain ct h1 where i: "on_interrupt_taken hook h (pc cpu) = (ct, h1)" by force
      then obtain cpu2 where m: "increment_mcycle cpu1 = Some cpu2"
        using assms False t Some by (auto simp: step_batch_with_hook_def bind_eq_Some_conv)
      obtain stop h3 cpu3 where a: "after_step hook ct h1 cpu2 = (stop, h3, cpu3)" by (metis prod_cases3)
      show ?thesis
        using batch_loop_cycles [of env hook "unat cycles - 1" 1 h3 cpu3 res h' cpu'] assms t Some False i m a c
        by (cases stop) (auto simp: step_batch_with_hook_def)
    qed
  qed (use assms in \<open>auto simp: step_batch_with_hook_def\<close>)
  then show ?thesis
    unfolding word_le_nat_alt by (metis unsigned_word_eqI unsigned_0 less_irrefl)
qed

theorem batch_bounds_witness:
  "\<exists>res cpu'. step_batch_with_hook example_env NoopExecutionHook 1 () ecall_cpu = Some (res, (), cpu') \<and> batch_cycles res = 1"
proof -
  obtain cpu1 where s: "step_impl example_env ecall_cpu = Some cpu1" "csr_wf (csr cpu1)" using ecall_cpu_step by blast
  then obtain cpu2 where m: "increment_mcycle cpu1 = Some cpu2"
    using increment_mcycle_eq [of cpu1 1] by (simp add: increment_mcycle_def)
  have "has_interrupt (csr ecall_cpu) = Some None"
    using ecall_cpu_wf(3)
    by (simp add: has_interrupt_def csr_simps) (simp add: ecall_cpu_def icache_put_def example_cpu_def csr_val_new desc_defs)
  then have "\<exists>res. step_batch_with_hook example_env NoopExecutionHook 1 () ecall_cpu = Some (res, (), cpu2)"
    using s m by (simp add: step_batch_with_hook_def try_take_interrupt_def)
  then obtain res where r: "step_batch_with_hook example_env NoopExecutionHook 1 () ecall_cpu = Some (res, (), cpu2)" ..
  have "batch_cycles res \<le> 1 \<and> batch_cycles res \<noteq> 0" using batch_bounds [OF r] by simp
  then have "batch_cycles res = 1" by (metis word_le_nat_alt unsigned_1 le_Suc_eq One_nat_def le_zero_eq unat_eq_zero word_unat_eq_iff)
  then show ?thesis using r by blast
qed

section \<open>Fetching\<close>

text \<open>
  C40.  A decoded instruction is served again from the instruction cache: once decoding at an address has
  succeeded, decoding there gives the same instruction without any access to memory, with whatever contents
  the memory and the control registers have by then.  So neither the page permissions nor the privilege
  level take part in fetching an instruction that is still cached.
\<close>

theorem cached_fetch_unchecked:
  assumes "cpu_wf cpu" "decode_at_checked env addr cpu = Some (Ok d, cpu1)"
  shows "\<exists>ic. decode_at_checked env addr (cpu1\<lparr>csr := c, memory := vm\<rparr>) =
    Some (Ok d, cpu1\<lparr>csr := c, memory := vm, icache := ic\<rparr>)"
proof -
  obtain hit ic where c: "Cache_get (direct_get 1 8192) (icache cpu) addr = (hit, ic)" by force
  have ic: "Caches.policy ic = Caches.policy (icache cpu)" "hit = direct_get 1 8192 (Caches.policy (icache cpu)) addr"
    using c by (auto simp: Cache_get_def Let_def)
  have "direct_get 1 8192 (Caches.policy (icache cpu1)) addr = Some d"
  proof (cases hit)
    case (Some v)
    then show ?thesis using assms(2) c ic by (auto simp: decode_at_checked_def)
  next
    case None
    then obtain raw cpu2 where f: "ifetch_at env addr (cpu\<lparr>icache := ic\<rparr>) = Some (Ok raw, cpu2)" "cpu1 = icache_put addr d cpu2"
      using assms(2) c by (auto simp: decode_at_checked_def bind_q_def split: option.splits result.splits)
    have "cpu_wf (cpu\<lparr>icache := ic\<rparr>)" using assms(1) ic(1) by (simp add: cpu_wf_def)
    then have "cpu_wf cpu2" by (rule keepsD [OF keeps_cpu_wf [OF keeps_ifetch_at(1)] _ f(1)])
    then have "direct_inv 8192 (Caches.policy (icache cpu2))" by (simp add: cpu_wf_def)
    then show ?thesis using icache_laws.get_put_same by (simp add: f(2) icache_put_def Cache_put_def)
  qed
  then show ?thesis
    by (auto simp: decode_at_checked_def Cache_get_def Let_def)
qed

theorem cached_fetch_unchecked_witness:
  "\<exists>cpu1 cpu2. decode_at_checked example_env BASE_ADDR ecall_cpu = Some (Ok example_ecall, cpu1)
     \<and> decode_at_checked example_env BASE_ADDR (cpu1\<lparr>csr := CsrRegFile_new, memory := from_ram_and_mmio empty_board\<rparr>) =
         Some (Ok example_ecall, cpu2)"
  using ecall_cpu_decode cached_fetch_unchecked [OF ecall_cpu_wf(1)] by blast

end
