(* ===== verification/InstrSpec.thy ===== *)
theory InstrSpec
  imports Executor
begin

text \<open>
  What single instructions do to a well-formed processor, from \<open>RVCPU::execute\<close> of \<open>isa/riscv/executor.rs\<close> down to
  the registers and the memory: the register to register instructions, the protection of the control
  registers, the jumps, and loads after stores.
\<close>

section \<open>Counting and registers\<close>

lemma field_put_all: "field_put 0 64 v w = (v :: u64)"
  by (rule bit_word_eqI) (simp add: bit_field_put)

lemma le_mask_all: "v \<le> (mask 64 :: u64)"
  using unsigned_less [of v, where 'a = nat] by (simp add: mask_eq_exp_minus_1 word_le_nat_alt)

lemma field_get_all: "field_get 0 64 w = (w :: u64)"
  by (rule bit_word_eqI) (simp add: bit_field_get)

lemma minstret_eq:
  "csr_wf c \<Longrightarrow> Minstret_wrapping_add n c = Some (csr_put 0xB02 (csr_val c 0xB02 + n) c)"
  using csr_set_wf [of c "0xB02" Minstret_desc 64 "csr_val c 0xB02 + n" "- 1" 0]
  by (simp add: Minstret_wrapping_add_def csr_simps field_put_all le_mask_all field_get_all)

definition retired :: "u64 \<Rightarrow> ('d, 'x) RVCPU \<Rightarrow> ('d, 'x) RVCPU" where
  "retired next_pc cpu = cpu\<lparr>pc := next_pc, csr := csr_put 0xB02 (csr_val (csr cpu) 0xB02 + 1) (csr cpu)\<rparr>"

lemma retire_eq: "csr_wf (csr cpu) \<Longrightarrow> retire np cpu = Some (Ok (), retired np cpu)"
  by (simp add: retire_def on_csr_def write_pc_def minstret_eq retired_def)

definition set_reg :: "u8 \<Rightarrow> u64 \<Rightarrow> ('d, 'x) RVCPU \<Rightarrow> ('d, 'x) RVCPU" where
  "set_reg i v cpu = cpu\<lparr>reg_file := (if i = 0 then reg_file cpu else (reg_file cpu)[unat i := v])\<rparr>"

definition get_reg :: "u8 \<Rightarrow> ('d, 'x) RVCPU \<Rightarrow> u64" where
  "get_reg i cpu = reg_file cpu ! unat i"

lemma write_reg_eq:
  "length (reg_file cpu) = 32 \<Longrightarrow> i < 32 \<Longrightarrow> write_reg i v cpu = Some (Ok (), set_reg i v cpu)"
  by (auto simp: write_reg_def RegFile_write_def set_reg_def word_less_nat_alt)

lemma with_regs_eq:
  "length (reg_file cpu) = 32 \<Longrightarrow> i < 32 \<Longrightarrow> j < 32 \<Longrightarrow> with_regs i j k cpu = k (get_reg i cpu) (get_reg j cpu) cpu"
  by (simp add: with_regs_def RegFile_read_def get_reg_def word_less_nat_alt)

lemma csr_set_reg [simp]: "csr (set_reg i v cpu) = csr cpu" "pc (set_reg i v cpu) = pc cpu" "memory (set_reg i v cpu) = memory cpu"
  by (simp_all add: set_reg_def)

lemma zero_reg: "length (reg_file cpu) = 32 \<Longrightarrow> reg_file cpu ! 0 = 0 \<Longrightarrow> cpu\<lparr>reg_file := (reg_file cpu)[0 := 0]\<rparr> = cpu"
  by (cases "reg_file cpu") auto

lemma zero_reg_set:
  assumes "cpu_wf cpu" "i < 32"
  shows "(reg_file (set_reg i v cpu))[0 := 0] = reg_file (set_reg i v cpu)"
proof -
  have "(reg_file (set_reg i v cpu)) ! 0 = 0" "length (reg_file (set_reg i v cpu)) = 32"
    using cpu_wfD(2,4) [OF assms(1)] by (auto simp: set_reg_def unat_eq_zero)
  then show ?thesis by (cases "reg_file (set_reg i v cpu)") auto
qed

section \<open>Register to register instructions\<close>

fun alu_fun :: "RiscvInstr \<Rightarrow> (u64, u64) exec_fun option" where
  "alu_fun (Arith i) = Some (exec_of_arith i)"
| "alu_fun (Shift i) = Some (exec_of_shift i)"
| "alu_fun (BitOp i) = Some (exec_of_bit i)"
| "alu_fun _ = None"

lemma alu_ok:
  assumes "alu_fun i = Some f"
  shows "\<exists>v. f a b = Ok v"
  using assms
proof (cases i)
  case (Arith x)
  then show ?thesis using assms
    by (cases x) (auto simp: ExecAdd_def ExecAddw_def ExecSub_def ExecSubw_def ExecMulLow_def ExecMulHighSigned_def
        ExecMulHighUnsigned_def ExecMulHighSignedUnsigned_def ExecDivSigned_def ExecDivUnsigned_def ExecRemSigned_def
        ExecRemUnsigned_def ExecMulw_def ExecDivw_def ExecDivuw_def ExecRemw_def ExecRemuw_def Let_def)
next
  case (Shift x)
  then show ?thesis using assms
    by (cases x) (auto simp: ExecSLL_def ExecSRL_def ExecSRA_def ExecSRAW_def ExecSLLW_def ExecSRLW_def Let_def)
next
  case (BitOp x)
  then show ?thesis using assms
    by (cases x) (auto simp: ExecSignedLess_word_def ExecUnsignedLess_word_def ExecAnd_def ExecOr_def ExecXor_def)
qed simp_all

text \<open>
  C7.  An arithmetic, shift or bit instruction, with two registers or with an immediate, always completes: it
  writes the result of its calculator to \<open>rd\<close> (nothing for \<open>x0\<close>), advances the program counter by four, adds one to
  \<open>minstret\<close>, and changes nothing else.
\<close>

theorem alu_instruction_effect:
  assumes "cpu_wf cpu" "alu_fun i = Some f" "rs1 < 32" "rs2 < 32" "rd < 32"
  shows "\<exists>v w. f (get_reg rs1 cpu) (get_reg rs2 cpu) = Ok v \<and> f (get_reg rs1 cpu) imm = Ok w
    \<and> execute env i (Info_R rs1 rs2 rd) cpu = Some (Ok (), retired (pc cpu + 4) (set_reg rd v cpu))
    \<and> execute env i (Info_I rs1 rd imm) cpu = Some (Ok (), retired (pc cpu + 4) (set_reg rd w cpu))"
proof -
  obtain v w where v: "f (get_reg rs1 cpu) (get_reg rs2 cpu) = Ok v" "f (get_reg rs1 cpu) imm = Ok w"
    using alu_ok [OF assms(2)] by blast
  have g: "get_exec_func (env_ops env) (env_ext env) i = exec_arith f" using assms(2) by (cases i) auto
  note wf = cpu_wfD(1,2) [OF assms(1)]
  have len: "reg_file (retired p (set_reg rd x cpu)) \<noteq> []" "(reg_file (retired p (set_reg rd x cpu)))[0 := 0] = reg_file (set_reg rd x cpu)" for p x
    using wf(2) zero_reg_set [OF assms(1,5), of x] by (auto simp: retired_def set_reg_def)
  have "retired p (set_reg rd x cpu)\<lparr>reg_file := reg_file (set_reg rd x cpu)\<rparr> = retired p (set_reg rd x cpu)" for p x
    by (simp add: retired_def)
  then show ?thesis
    using assms(3-5) wf v len
    by (simp add: execute_def g exec_arith_def normal_exec_def bind_q_def with_regs_eq of_result_def write_reg_eq retire_eq)
qed

theorem alu_instruction_effect_witness:
  "execute example_env (Arith I_ADD) (Info_I 0 5 7) ecall_cpu = Some (Ok (), retired (BASE_ADDR + 4) (set_reg 5 7 ecall_cpu))"
proof -
  have "get_reg 0 ecall_cpu = 0" "pc ecall_cpu = BASE_ADDR"
    by (simp_all add: get_reg_def ecall_cpu_def icache_put_def example_cpu_def RegFile_new_def REGFILE_CNT_def DEFAULT_PC_VALUE_def)
  then show ?thesis
    using alu_instruction_effect [OF ecall_cpu_wf(1), of "Arith I_ADD" ExecAdd 0 0 5 7 example_env] by (auto simp: ExecAdd_def)
qed

section \<open>Protection of the control registers\<close>

lemma truncate_csr_number: "unat (truncate_to_bits (imm :: u64) 12) < 4096"
proof -
  have "unat (take_bit 12 imm) = unat imm mod 4096"
    by (simp only: unsigned_take_bit_eq) (simp add: take_bit_eq_mod)
  then show ?thesis by (simp add: truncate_to_bits_eq)
qed

lemma write_priv_denied:
  assumes "csr_wf c" "unat a < 4096" "a \<ge> 0xC00 \<or> priv_code (cpl c) < unat (take_bit 2 (drop_bit 8 a))"
  shows "is_write_priv_legal a c = Some False"
  using assms priv_table_legal_iff [OF assms(2), of "cpl c"]
  by (auto simp: is_read_priv_legal_def is_write_priv_legal_def csr_simps)

text \<open>
  C10.  No register instruction writes a control register that its number declares read-only or reserves for a
  higher privilege level: \<open>CSRRW\<close> and \<open>CSRRWI\<close>, and the set and clear forms with a non-zero operand, raise an illegal
  instruction exception and leave the whole processor as it was, \<open>rd\<close> and \<open>minstret\<close> included.
\<close>

theorem csr_write_protected:
  assumes "cpu_wf cpu" "rs1 < 32"
    and "i \<in> {I_CSRRW, I_CSRRWI} \<or> (i \<in> {I_CSRRS, I_CSRRC} \<and> get_reg rs1 cpu \<noteq> 0) \<or> (i \<in> {I_CSRRSI, I_CSRRCI} \<and> rs1 \<noteq> 0)"
    and "a = truncate_to_bits imm 12" "a \<ge> 0xC00 \<or> priv_code (cpl (csr cpu)) < unat (take_bit 2 (drop_bit 8 a))"
  shows "execute env (System i) (Info_I rs1 rd imm) cpu = Some (Err Ex_IllegalInstruction, cpu)"
proof -
  note wf = cpu_wfD(1,2,4) [OF assms(1)]
  have "is_write_priv_legal (truncate_to_bits imm 12) (csr cpu) = Some False"
    using write_priv_denied [OF wf(1) truncate_csr_number] assms(4,5) by blast
  then have r: "require_write_priv (truncate_to_bits imm 12) cpu = Some (Err Ex_IllegalInstruction, cpu)"
    by (simp add: require_write_priv_def)
  have u: "(ucast rs1 :: u64) \<noteq> 0" if "rs1 \<noteq> 0"
  proof
    assume "(ucast rs1 :: u64) = 0"
    then have "\<not> bit (ucast rs1 :: u64) n" for n by simp
    then have "rs1 = 0" by (intro bit_word_eqI) (simp add: bit_ucast_iff)
    then show False using that by simp
  qed
  have "get_exec_func (env_ops env) (env_ext env) (System i) (Info_I rs1 rd imm) cpu = Some (Err Ex_IllegalInstruction, cpu)"
    using assms(3)
    by (elim disjE conjE insertE)
       (use r wf(2) assms(2) u in \<open>simp_all add: exec_csrw_def exec_csr_bit_def csr_operand_def with_regs_eq Let_def bind_q_def\<close>)
  then show ?thesis using zero_reg [OF wf(2,3)] wf(2) by (auto simp: execute_def)
qed

theorem csr_write_protected_witness:
  "execute example_env (System I_CSRRW) (Info_I 0 0 0x300) ecall_cpu = Some (Err Ex_IllegalInstruction, ecall_cpu)"
proof -
  have "unat (take_bit 2 (drop_bit 8 (0x300 :: u64))) = 3" by (simp add: take_bit_eq_mask mask_eq_exp_minus_1)
  moreover have "truncate_to_bits (0x300 :: u64) 12 = 0x300" by (simp add: truncate_to_bits_def)
  ultimately show ?thesis
    using csr_write_protected [OF ecall_cpu_wf(1), of 0 I_CSRRW "0x300" "0x300" example_env 0] ecall_cpu_wf(2) by simp
qed

section \<open>Jumps\<close>

text \<open>The contract of a control transfer: link, go to the target, or trap when the target is misaligned.\<close>

definition transfer :: "u8 \<Rightarrow> u64 \<Rightarrow> ('d, 'x) RVCPU \<Rightarrow> (unit, Exception) result \<times> ('d, 'x) RVCPU" where
  "transfer rd target cpu =
     (if \<not> bit (csr_val (csr cpu) 0x301) 2 \<and> target AND 3 \<noteq> 0
      then (Err Ex_InstructionMisaligned, cpu\<lparr>pending_tval := Some target\<rparr>)
      else (Ok (), retired target (set_reg rd (pc cpu + 4) cpu)))"

lemma misa_c_eq: "csr_wf c \<Longrightarrow> Misa_c_enabled c = Some (bit (csr_val c 0x301) 2)"
proof -
  have "(field_get 0 25 w AND 4 \<noteq> 0) = bit w 2" for w :: u64
  proof -
    have "(v AND push_bit k 1 \<noteq> 0) = bit v k" for v :: u64 and k by simp
    from this [of "field_get 0 25 w" 2] have "(field_get 0 25 w AND 4 \<noteq> 0) = bit (field_get 0 25 w) 2"
      by (simp add: push_bit_eq_mult)
    then show ?thesis by (simp add: bit_field_get numeral_2_eq_2)
  qed
  then show "csr_wf c \<Longrightarrow> Misa_c_enabled c = Some (bit (csr_val c 0x301) 2)"
    by (simp add: Misa_c_enabled_def csr_simps)
qed

text \<open>
  C9.  \<open>JAL\<close>, \<open>JALR\<close> and taken branches all transfer control the same way: without compressed instructions a target
  that is not a multiple of four raises an exception that reports the target and changes neither the program
  counter nor the link register; otherwise the link register receives the address of the following instruction,
  read before it is overwritten, and execution continues at the target.  A branch not taken just advances.
\<close>

theorem control_transfer:
  assumes "cpu_wf cpu" "rs1 < 32" "rs2 < 32" "rd < 32"
  shows "execute env (System I_JAL) (Info_J rd imm) cpu = Some (transfer rd (pc cpu + imm) cpu)
    \<and> execute env (System I_JALR) (Info_I rs1 rd imm) cpu = Some (transfer rd ((get_reg rs1 cpu + imm) AND NOT 1) cpu)
    \<and> execute env (Branch b) (Info_B rs1 rs2 imm) cpu =
        Some (if exec_of_branch b (get_reg rs1 cpu) (get_reg rs2 cpu) then transfer 0 (pc cpu + imm) cpu
              else (Ok (), retired (pc cpu + 4) cpu))"
proof -
  note wf = cpu_wfD(1,2,4) [OF assms(1)]
  have z: "cpu\<lparr>reg_file := (reg_file cpu)[0 := 0]\<rparr> = cpu" using zero_reg [OF wf(2,3)] .
  have z': "(reg_file cpu)[0 := 0] = reg_file cpu" using wf(2,3) by (cases "reg_file cpu") auto
  have set: "(reg_file (set_reg r v cpu))[0 := 0] = reg_file (set_reg r v cpu)" "reg_file (set_reg r v cpu) \<noteq> []" if "r < 32" for r v
    using zero_reg_set [OF assms(1) that] wf(2) by (auto simp: set_reg_def)
  have id: "set_reg 0 v cpu = cpu" for v by (simp add: set_reg_def)
  have len: "reg_file cpu \<noteq> []" using wf(2) by auto
  note d = execute_def exec_jal_def exec_jalr_def exec_branch_def transfer_def check_jump_alignment_def misa_c_eq [OF wf(1)]
    Let_def bind_q_def with_regs_eq [OF wf(2)] write_reg_eq [OF wf(2)] retire_eq
  show ?thesis using assms(2-4) z z' set len wf(1) by (auto simp: d id retired_def)
qed

theorem control_transfer_witness:
  "execute example_env (System I_JAL) (Info_J 1 6) ecall_cpu =
     Some (Err Ex_InstructionMisaligned, ecall_cpu\<lparr>pending_tval := Some (BASE_ADDR + 6)\<rparr>)"
proof -
  have "csr_val (csr ecall_cpu) 0x301 = 0" "pc ecall_cpu = BASE_ADDR"
    by (simp_all add: ecall_cpu_def icache_put_def example_cpu_def csr_val_new desc_defs DEFAULT_PC_VALUE_def)
  then show ?thesis
    using control_transfer [OF ecall_cpu_wf(1), of 0 0 1 example_env 6 I_BEQ] by (simp add: transfer_def BASE_ADDR_def)
qed

section \<open>Loads and stores\<close>

lemma direct_access:
  assumes "csr_wf c" "effective_priv c = PrivM"
  shows "resolve_data_policy c access se = Some Direct"
  using determine_data_access_privilege_wf [OF assms(1)] assms
  by (cases access) (simp_all add: resolve_data_policy_def csr_simps Let_def)

lemma drain_quiet: "irq_out (mmio (memory cpu)) = [] \<Longrightarrow> drain_irqs cpu = Some cpu"
  by (cases cpu; cases "memory cpu"; cases "mmio (memory cpu)") (simp add: drain_irqs_def Let_def)

abbreviation cpu_ram :: "('d, 'x) RVCPU \<Rightarrow> Ram" where
  "cpu_ram cpu \<equiv> ram (mmio (memory cpu))"

definition with_ram :: "Ram \<Rightarrow> ('d, 'x) RVCPU \<Rightarrow> ('d, 'x) RVCPU" where
  "with_ram r cpu = cpu\<lparr>memory := (memory cpu)\<lparr>mmio := (mmio (memory cpu))\<lparr>ram := r\<rparr>\<rparr>\<rparr>"

lemma with_ram_simps [simp]:
  "csr (with_ram r cpu) = csr cpu" "pc (with_ram r cpu) = pc cpu" "reg_file (with_ram r cpu) = reg_file cpu"
  "cpu_ram (with_ram r cpu) = r" "irq_out (mmio (memory (with_ram r cpu))) = irq_out (mmio (memory cpu))"
  by (simp_all add: with_ram_def)

lemma machine_write:
  assumes "csr_wf (csr cpu)" "effective_priv (csr cpu) = PrivM" "irq_out (mmio (memory cpu)) = []" "BASE_ADDR \<le> a"
    and "ram_write (a - BASE_ADDR) v (cpu_ram cpu) = (Ok (), r)"
  shows "cpu_write ops a v cpu = Some (Ok (), with_ram r cpu)"
  using assms
  by (simp add: cpu_write_def data_access_def direct_access on_memory_def write_with_policy_def bind_q_def on_mmio_def
      write_by_type_def drain_quiet finish_memory_access_def with_ram_def)

lemma machine_read:
  assumes "csr_wf (csr cpu)" "effective_priv (csr cpu) = PrivM" "irq_out (mmio (memory cpu)) = []" "BASE_ADDR \<le> a"
    and "ram_read (cpu_ram cpu) (a - BASE_ADDR) = Ok v"
  shows "cpu_read ops a cpu = Some (Ok v, cpu)"
  using assms
  by (simp add: cpu_read_def data_access_def direct_access on_memory_def read_with_policy_def bind_q_def on_mmio_def
      read_by_type_def drain_quiet finish_memory_access_def)

lemma retired_simps [simp]:
  "reg_file (retired p cpu) = reg_file cpu" "memory (retired p cpu) = memory cpu" "pc (retired p cpu) = p"
  "csr (retired p cpu) = csr_put 0xB02 (csr_val (csr cpu) 0xB02 + 1) (csr cpu)"
  by (simp_all add: retired_def)

lemma effective_priv_retired [simp]: "effective_priv (csr_put 0xB02 v c) = effective_priv c"
  by (simp add: effective_priv_def)

lemma ram_written_back:
  assumes "machine_int TYPE('a::len)" "aligned_base r" "contains_access TYPE('a) off" "check_align TYPE('a) off"
  shows "\<exists>r'. ram_write off (v :: 'a word) r = (Ok (), r') \<and> ram_read r' off = Ok v"
proof -
  obtain q r' where w: "ram_write off v r = (q, r')" by fastforce
  then have q: "q = Ok ()" "bytes_at r' (unat off) (size_of TYPE('a)) = to_bytes v"
    using assms by (auto simp: ram_write_eq Let_def bytes_at_splice_same)
  have "aligned_base r'" using assms by (simp add: ram_write_aligned_base [OF w])
  then show ?thesis using w q assms by (simp add: ram_read_eq of_bytes_to_bytes machine_int_dvd)
qed

text \<open>
  C8.  With effective privilege M, so without translation, a store to an aligned address of the memory that is in
  range (not of a device) followed by a load of the same width from the same address, through the
  registers and the program counter as two consecutive instructions, gives back the low bits of the stored
  register, sign extended or zero extended as the load demands; both instructions complete and are counted.
\<close>

theorem store_then_load:
  assumes "machine_int TYPE('a::len)" "cpu_wf cpu" "effective_priv (csr cpu) = PrivM" "aligned_base (cpu_ram cpu)"
    and "rs1 < 32" "rs2 < 32" "rd < 32" "a = wrapping_add_as_signed (get_reg rs1 cpu) imm" "BASE_ADDR \<le> a"
    and "contains_access TYPE('a) (a - BASE_ADDR)" "check_align TYPE('a) (a - BASE_ADDR)"
  shows "\<exists>cpu1 cpu2. exec_store ops TYPE('a) (Info_S rs1 rs2 imm) cpu = Some (Ok (), cpu1)
    \<and> exec_load ops TYPE('a) sext (Info_I rs1 rd imm) cpu1 = Some (Ok (), cpu2)
    \<and> cpu2 = retired (pc cpu + 8) (set_reg rd
        (let v = ucast (get_reg rs2 cpu) :: 'a word in if sext then sign_extend (ucast v) (size_of TYPE('a) * 8) else ucast v)
        cpu1)"
proof -
  note wf = cpu_wfD(1,2) [OF assms(2)]
  have quiet: "irq_out (mmio (memory cpu)) = []" using assms(2) by (simp add: cpu_wf_def)
  let ?v = "ucast (get_reg rs2 cpu) :: 'a word"
  obtain r where r: "ram_write (a - BASE_ADDR) ?v (cpu_ram cpu) = (Ok (), r)" "ram_read r (a - BASE_ADDR) = Ok ?v"
    using ram_written_back [OF assms(1,4,10,11)] by blast
  let ?cpu1 = "retired (pc cpu + 4) (with_ram r cpu)"
  have "exec_store ops TYPE('a) (Info_S rs1 rs2 imm) cpu = Some (Ok (), ?cpu1)"
    using machine_write [OF wf(1) assms(3) quiet assms(9) r(1), of ops] assms(5,6,8) wf
    by (simp add: exec_store_def normal_exec_def bind_q_def with_regs_eq retire_eq)
  moreover have "cpu_read ops a ?cpu1 = Some (Ok ?v, ?cpu1)"
    using r(2) wf(1) assms(3,9) quiet by (intro machine_read) simp_all
  moreover have "get_reg rs1 ?cpu1 = get_reg rs1 cpu" by (simp add: get_reg_def)
  ultimately show ?thesis
    using assms(5,7,8) wf
    by (simp add: exec_load_def normal_exec_def handle_load_def bind_q_def with_regs_eq write_reg_eq retire_eq Let_def add.assoc)
qed

theorem store_then_load_witness:
  "\<exists>cpu1 cpu2. exec_store (env_ops example_env) TYPE(32) (Info_S 5 6 0)
       ((example_cpu CsrRegFile_new)\<lparr>reg_file := RegFile_new[5 := BASE_ADDR + 16, 6 := 0x80000001]\<rparr>) = Some (Ok (), cpu1)
    \<and> exec_load (env_ops example_env) TYPE(32) False (Info_I 5 7 0) cpu1 = Some (Ok (), cpu2)
    \<and> get_reg 7 cpu2 = 0x80000001"
proof -
  let ?cpu = "(example_cpu CsrRegFile_new)\<lparr>reg_file := RegFile_new[5 := BASE_ADDR + 16, 6 := 0x80000001]\<rparr>"
  have wf: "cpu_wf ?cpu"
    using example_cpu_wf [OF csr_wf_new] by (simp add: cpu_wf_def RegFile_new_def REGFILE_CNT_def)
  have e: "effective_priv (csr ?cpu) = PrivM"
    by (simp add: effective_priv_def example_cpu_def csr_val_new desc_defs)
  have al: "aligned_base (cpu_ram ?cpu)"
    by (simp add: example_cpu_def from_ram_and_mmio_def empty_board_def from_mmio_items_def aligned_base_def Ram_new_def)
  have r: "get_reg 5 ?cpu = BASE_ADDR + 16" "get_reg 6 ?cpu = 0x80000001"
    by (simp_all add: get_reg_def RegFile_new_def REGFILE_CNT_def)
  then have a: "BASE_ADDR + 16 = wrapping_add_as_signed (get_reg 5 ?cpu) 0" "BASE_ADDR \<le> BASE_ADDR + 16"
    "contains_access TYPE(32) (BASE_ADDR + 16 - BASE_ADDR)" "check_align TYPE(32) (BASE_ADDR + 16 - BASE_ADDR)"
    by (simp_all add: wrapping_add_as_signed_def BASE_ADDR_def contains_access_def check_align_def ALIGN_ILST_def SIZE_def size_of_def)
  obtain cpu1 where c: "exec_store (env_ops example_env) TYPE(32) (Info_S 5 6 0) ?cpu = Some (Ok (), cpu1)"
      "exec_load (env_ops example_env) TYPE(32) False (Info_I 5 7 0) cpu1 =
         Some (Ok (), retired (pc ?cpu + 8) (set_reg 7 0x80000001 cpu1))"
    using store_then_load [where 'a = 32, OF _ wf e al _ _ _ a, of 6 7 "env_ops example_env" False] r(2)
    by (auto simp: Let_def)
  have "cpu_wf cpu1" by (rule keepsD [OF keeps_cpu_wf [OF keeps_integer(3)] wf c(1)])
  then have "length (reg_file cpu1) = 32" by auto
  then show ?thesis using c by (simp add: get_reg_def set_reg_def)
qed

end
