(* ===== verification/Decoder.thy ===== *)
theory Decoder
  imports Instr BitUtils "HOL-Library.Monad_Syntax"
begin

text \<open>
  The instruction decoder, \<open>isa/riscv/decoder\<close>: the operand fields (\<open>decode_info\<close>,
  \<open>decode_compressed_info\<close>), the two decoders that search a list of masks (\<open>mask_decoder.rs\<close>,
  \<open>compress_decoder.rs\<close>), the table indexed by opcode and function fields (\<open>funct_decoder.rs\<close>), and their combination in
  \<open>mod.rs\<close>; also \<open>create_decode_mask\<close> of \<open>isa/utils.rs\<close>.

  The list of instruction descriptions is generated by the build and is an argument here.  \<open>None\<close> is a panic or
  the undefined behaviour of \<open>debug_unreachable!\<close>.
\<close>

section \<open>Masks\<close>

record DecodeMask =
  mask_key :: u32
  mask_bits :: u32

definition matches :: "DecodeMask \<Rightarrow> u32 \<Rightarrow> bool" where
  "matches m instr \<longleftrightarrow> instr AND mask_bits m = mask_key m"

fun mask_of_pattern :: "string \<Rightarrow> nat \<times> u32 \<times> u32 \<Rightarrow> (nat \<times> u32 \<times> u32) option" where
  "mask_of_pattern [] acc = Some acc"
| "mask_of_pattern (ch # rest) (len, key, msk) =
     (if ch \<in> {CHR ''0'', CHR ''1'', CHR ''?'', CHR ''-''}
      then mask_of_pattern rest
        (len + 1, push_bit 1 key OR of_bool (ch = CHR ''1''), push_bit 1 msk OR of_bool (ch = CHR ''0'' \<or> ch = CHR ''1''))
      else None)"

definition create_decode_mask :: "string \<Rightarrow> DecodeMask option" where
  "create_decode_mask pattern =
     do { (len, key, msk) \<leftarrow> mask_of_pattern pattern (0, 0, 0);
          if len \<le> 32 \<and> len mod 8 = 0 then Some \<lparr>mask_key = key, mask_bits = msk\<rparr> else None }"

record RVInstrDesc =
  rv_instr :: RiscvInstr
  rv_format :: InstrFormat
  rv_mask :: u32
  rv_key :: u32

definition desc_mask :: "RVInstrDesc \<Rightarrow> DecodeMask" where
  "desc_mask d = \<lparr>mask_key = rv_key d, mask_bits = rv_mask d\<rparr>"

definition count_ones :: "u32 \<Rightarrow> nat" where
  "count_ones w = length (filter (bit w) [0..<32])"

definition count_zeros :: "u32 \<Rightarrow> nat" where
  "count_zeros w = 32 - count_ones w"

section \<open>Operands of 32-bit instructions\<close>

definition reg_field :: "u32 \<Rightarrow> nat \<Rightarrow> u8" where
  "reg_field raw low = ucast (drop_bit low raw AND 0x1F)"

definition imm_I :: "RiscvInstr \<Rightarrow> u32 \<Rightarrow> u64" where
  "imm_I instr raw =
     (let imm = ucast (drop_bit 20 raw AND 0xFFF) in
      sign_extend
        (case instr of
           Shift I_SRLI \<Rightarrow> imm AND 0x3F
         | Shift I_SRAI \<Rightarrow> imm AND 0x3F
         | Shift I_SRLIW \<Rightarrow> imm AND 0x1F
         | Shift I_SRAIW \<Rightarrow> imm AND 0x1F
         | _ \<Rightarrow> imm) 12)"

definition imm_S :: "u32 \<Rightarrow> u64" where
  "imm_S raw = sign_extend (ucast (push_bit 5 (drop_bit 25 raw AND 0xFF) OR (drop_bit 7 raw AND 0x1F))) 12"

definition imm_U :: "u32 \<Rightarrow> u64" where
  "imm_U raw = sign_extend (ucast (push_bit 12 (drop_bit 12 raw))) 32"

definition imm_B :: "u32 \<Rightarrow> u64" where
  "imm_B raw =
     sign_extend (ucast (push_bit 12 (drop_bit 31 raw AND 1) OR push_bit 11 (drop_bit 7 raw AND 1)
       OR push_bit 5 (drop_bit 25 raw AND 0x3F) OR push_bit 1 (drop_bit 8 raw AND 0xF))) 13"

definition imm_J :: "u32 \<Rightarrow> u64" where
  "imm_J raw =
     sign_extend (ucast (push_bit 20 (drop_bit 31 raw AND 1) OR push_bit 12 (drop_bit 12 raw AND 0xFF)
       OR push_bit 11 (drop_bit 20 raw AND 1) OR push_bit 1 (drop_bit 21 raw AND 0x3FF))) 21"

definition decode_info :: "u32 \<Rightarrow> RiscvInstr \<Rightarrow> InstrFormat \<Rightarrow> RVInstrInfo option" where
  "decode_info raw instr fmt =
     (let rd = reg_field raw 7; rs1 = reg_field raw 15; rs2 = reg_field raw 20;
          f3 = ucast (drop_bit 12 raw AND 7) in
      case fmt of
        Fmt_V \<Rightarrow> Some (Info_V rs1 rs2 rd (raw AND push_bit 25 1 \<noteq> 0) (ucast (drop_bit 26 raw AND 0x3F)))
      | Fmt_R \<Rightarrow> Some (Info_R rs1 rs2 rd)
      | Fmt_R_rm \<Rightarrow> Some (Info_R_rm rs1 rs2 rd f3)
      | Fmt_R4_rm \<Rightarrow> Some (Info_R4_rm rs1 rs2 (reg_field raw 27) rd f3)
      | Fmt_A \<Rightarrow> Some (Info_A rs1 rs2 rd (drop_bit 25 raw AND 1 \<noteq> 0) (drop_bit 26 raw AND 1 \<noteq> 0))
      | Fmt_I \<Rightarrow> Some (Info_I rs1 rd (imm_I instr raw))
      | Fmt_S \<Rightarrow> Some (Info_S rs1 rs2 (imm_S raw))
      | Fmt_U \<Rightarrow> Some (Info_U rd (imm_U raw))
      | Fmt_B \<Rightarrow> Some (Info_B rs1 rs2 (imm_B raw))
      | Fmt_J \<Rightarrow> Some (Info_J rd (imm_J raw))
      | Fmt_None \<Rightarrow> Some Info_None
      | _ \<Rightarrow> None)"

section \<open>Operands of compressed instructions\<close>

text \<open>A field is a list of entries \<open>(dst_high, dst_low, src_low)\<close>.\<close>

definition extract_field :: "u32 \<Rightarrow> (nat \<times> nat \<times> nat) list \<Rightarrow> u32" where
  "extract_field raw parts =
     foldl (\<lambda>field (dst_high, dst_low, src_low).
       field OR push_bit dst_low (extract_range raw src_low (src_low + dst_high - dst_low))) 0 parts"

definition sign_ext_extract :: "u32 \<Rightarrow> (nat \<times> nat \<times> nat) list \<Rightarrow> u64" where
  "sign_ext_extract raw parts = sign_extend (ucast (extract_field raw parts)) (fold max (map fst parts) 0 + 1)"

definition zero_ext_extract :: "u32 \<Rightarrow> (nat \<times> nat \<times> nat) list \<Rightarrow> u64" where
  "zero_ext_extract raw parts = ucast (extract_field raw parts)"

definition cvt_short_reg :: "u8 \<Rightarrow> u8" where
  "cvt_short_reg reg_idx = reg_idx + 8"

fun imm_CB :: "RiscvInstr \<Rightarrow> u32 \<Rightarrow> u64 option" where
  "imm_CB (CArith I_C_SRLI) raw = Some (sign_ext_extract raw [(5, 5, 12), (4, 0, 2)])"
| "imm_CB (CArith I_C_SRAI) raw = Some (sign_ext_extract raw [(5, 5, 12), (4, 0, 2)])"
| "imm_CB (CArith I_C_ANDI) raw = Some (sign_ext_extract raw [(5, 5, 12), (4, 0, 2)])"
| "imm_CB (CJump I_C_BEQZ) raw = Some (sign_ext_extract raw [(8, 8, 12), (4, 3, 10), (7, 6, 5), (2, 1, 3), (5, 5, 2)])"
| "imm_CB (CJump I_C_BNEZ) raw = Some (sign_ext_extract raw [(8, 8, 12), (4, 3, 10), (7, 6, 5), (2, 1, 3), (5, 5, 2)])"
| "imm_CB _ raw = None"

fun imm_CI :: "RiscvInstr \<Rightarrow> u32 \<Rightarrow> u64" where
  "imm_CI (CArith I_C_ADDI16SP) raw = sign_ext_extract raw [(9, 9, 12), (4, 4, 6), (6, 6, 5), (8, 7, 3), (5, 5, 2)]"
| "imm_CI (CMem I_C_LDSP) raw = zero_ext_extract raw [(5, 5, 12), (4, 3, 5), (8, 6, 2)]"
| "imm_CI (CMem I_C_FLDSP) raw = zero_ext_extract raw [(5, 5, 12), (4, 3, 5), (8, 6, 2)]"
| "imm_CI (CMem I_C_LWSP) raw = zero_ext_extract raw [(5, 5, 12), (4, 2, 4), (7, 6, 2)]"
| "imm_CI (CMem I_C_FLWSP) raw = zero_ext_extract raw [(5, 5, 12), (4, 2, 4), (7, 6, 2)]"
| "imm_CI (CArith I_C_LUI) raw = push_bit 12 (sign_ext_extract raw [(5, 5, 12), (4, 0, 2)])"
| "imm_CI _ raw = sign_ext_extract raw [(5, 5, 12), (4, 0, 2)]"

definition imm_CIW :: "u32 \<Rightarrow> u64" where
  "imm_CIW raw = zero_ext_extract raw [(5, 4, 11), (9, 6, 7), (2, 2, 6), (3, 3, 5)]"

definition imm_CJ :: "u32 \<Rightarrow> u64" where
  "imm_CJ raw =
     sign_ext_extract raw [(11, 11, 12), (4, 4, 11), (9, 8, 9), (10, 10, 8), (6, 6, 7), (7, 7, 6), (3, 1, 3), (5, 5, 2)]"

fun imm_CL_CS :: "RiscvInstr \<Rightarrow> u32 \<Rightarrow> u64 option" where
  "imm_CL_CS (CMem i) raw =
     (if i \<in> {I_C_FLD, I_C_LD, I_C_FSD, I_C_SD} then Some (zero_ext_extract raw [(5, 3, 10), (7, 6, 5)])
      else if i \<in> {I_C_LW, I_C_FLW, I_C_SW, I_C_FSW} then Some (zero_ext_extract raw [(5, 3, 10), (2, 2, 6), (6, 6, 5)])
      else None)"
| "imm_CL_CS _ raw = None"

fun imm_CSS :: "RiscvInstr \<Rightarrow> u32 \<Rightarrow> u64 option" where
  "imm_CSS (CMem i) raw =
     (if i \<in> {I_C_FSDSP, I_C_SDSP} then Some (zero_ext_extract raw [(5, 3, 10), (8, 6, 7)])
      else if i \<in> {I_C_SWSP, I_C_FSWSP} then Some (zero_ext_extract raw [(5, 2, 9), (7, 6, 7)])
      else None)"
| "imm_CSS _ raw = None"

definition decode_compressed_info :: "u32 \<Rightarrow> RiscvInstr \<Rightarrow> InstrFormat \<Rightarrow> RVInstrInfo option" where
  "decode_compressed_info raw instr fmt =
     (let rs2 = ucast (extract_range raw 2 6); rd_rs1 = ucast (extract_range raw 7 11);
          rd_rs2_short = cvt_short_reg (ucast (extract_range raw 2 4));
          rd_rs1_short = cvt_short_reg (ucast (extract_range raw 7 9)) in
      case fmt of
        Fmt_CA \<Rightarrow> Some (Info_CA rd_rs1_short rd_rs2_short)
      | Fmt_CB \<Rightarrow> map_option (Info_CB rd_rs1_short) (imm_CB instr raw)
      | Fmt_CI \<Rightarrow> Some (Info_CI rd_rs1 (imm_CI instr raw))
      | Fmt_CIW \<Rightarrow> Some (Info_CIW rd_rs2_short (imm_CIW raw))
      | Fmt_CJ \<Rightarrow> Some (Info_CJ (imm_CJ raw))
      | Fmt_CL \<Rightarrow> map_option (Info_CL rd_rs2_short rd_rs1_short) (imm_CL_CS instr raw)
      | Fmt_CS \<Rightarrow> map_option (Info_CS rd_rs1_short rd_rs2_short) (imm_CL_CS instr raw)
      | Fmt_CSS \<Rightarrow> map_option (Info_CSS rs2) (imm_CSS instr raw)
      | Fmt_CR \<Rightarrow> Some (Info_CR rd_rs1 rs2)
      | Fmt_None \<Rightarrow> Some Info_None
      | _ \<Rightarrow> None)"

section \<open>The mask decoders\<close>

type_synonym PartialResult = "RiscvInstr \<times> InstrFormat"

type_synonym MaskDecoder = "(DecodeMask \<times> RiscvInstr \<times> InstrFormat) list"

definition masks_from_isa :: "RVInstrDesc list \<Rightarrow> MaskDecoder" where
  "masks_from_isa instrs =
     sort_key (\<lambda>(m, _, _). count_zeros (mask_bits m)) (map (\<lambda>d. (desc_mask d, rv_instr d, rv_format d)) instrs)"

definition finish_decode ::
  "(u32 \<Rightarrow> RiscvInstr \<Rightarrow> InstrFormat \<Rightarrow> RVInstrInfo option) \<Rightarrow> u64 \<Rightarrow> u32 \<Rightarrow> PartialResult \<Rightarrow> DecodeInstr option" where
  "finish_decode info len raw r =
     (case r of (instr, fmt) \<Rightarrow>
        map_option (\<lambda>i. \<lparr>dec_instr = instr, dec_info = i, dec_len = len\<rparr>) (info raw instr fmt))"

definition mask_search :: "MaskDecoder \<Rightarrow> u32 \<Rightarrow> PartialResult option" where
  "mask_search ms raw = map_option snd (find (\<lambda>(m, _). matches m raw) ms)"

definition MaskDecoder_decode :: "MaskDecoder \<Rightarrow> RawInstr \<Rightarrow> DecodeInstr option option" where
  "MaskDecoder_decode ms raw =
     (case mask_search ms raw of
        None \<Rightarrow> Some None
      | Some r \<Rightarrow> map_option Some (finish_decode decode_info (instr_len raw) raw r))"

definition CompressedDecoder_decode :: "MaskDecoder \<Rightarrow> RawInstr \<Rightarrow> DecodeInstr option option" where
  "CompressedDecoder_decode ms raw =
     (case mask_search ms raw of
        None \<Rightarrow> Some None
      | Some r \<Rightarrow> map_option Some (finish_decode decode_compressed_info 2 raw r))"

section \<open>The table decoder\<close>

text \<open>The arrays of a fixed size are total functions of the index.\<close>

datatype PartialDecode =
    Unknown
  | Complete PartialResult
  | SparseF7 "(u8 \<times> PartialResult) list"
  | DenseF7 "u8 \<Rightarrow> PartialResult option"

definition MAP_LENGTH :: nat where
  "MAP_LENGTH = 8"

fun try_make_dense :: "PartialDecode \<Rightarrow> PartialDecode" where
  "try_make_dense (SparseF7 sparse) =
     (if length sparse < MAP_LENGTH then SparseF7 sparse
      else DenseF7 (foldl (\<lambda>dense (f7, result). dense(f7 := Some result)) (\<lambda>_. None) sparse))"
| "try_make_dense slot = slot"

type_synonym decode_table = "u8 \<Rightarrow> u8 \<Rightarrow> PartialDecode"

definition OPCODE_BITS :: u32 where
  "OPCODE_BITS = 0x7F"

definition F3_BITS :: u32 where
  "F3_BITS = push_bit 12 7"

definition F7_BITS :: u32 where
  "F7_BITS = push_bit 25 0x7F"

definition get_opcode_f3_f7 :: "u32 \<Rightarrow> u8 \<times> u8 \<times> u8" where
  "get_opcode_f3_f7 instr = (ucast (instr AND 0x7F), ucast (drop_bit 12 instr AND 7), ucast (drop_bit 25 instr))"

definition set_slot :: "u8 \<Rightarrow> u8 \<Rightarrow> PartialDecode \<Rightarrow> decode_table \<Rightarrow> decode_table" where
  "set_slot opcode f3 slot t = t(opcode := (t opcode)(f3 := slot))"

definition insert_f3_f7 :: "u8 \<Rightarrow> u8 \<Rightarrow> u8 \<Rightarrow> PartialResult \<Rightarrow> decode_table \<Rightarrow> decode_table option" where
  "insert_f3_f7 opcode f3 f7 result t =
     (case t opcode f3 of
        Unknown \<Rightarrow> Some (set_slot opcode f3 (SparseF7 [(f7, result)]) t)
      | Complete prev \<Rightarrow> None
      | SparseF7 table \<Rightarrow> Some (set_slot opcode f3 (try_make_dense (SparseF7 (table @ [(f7, result)]))) t)
      | DenseF7 table \<Rightarrow> Some (set_slot opcode f3 (DenseF7 (table(f7 := Some result))) t))"

definition table_new :: decode_table where
  "table_new = (\<lambda>_ _. Unknown)"

text \<open>The loop over the values of the function field that a mask leaves open goes down through the submasks of \<open>rev_mask\<close>.\<close>

function insert_submasks ::
  "u8 \<Rightarrow> u8 \<Rightarrow> u8 \<Rightarrow> u8 \<Rightarrow> PartialResult \<Rightarrow> u8 \<Rightarrow> decode_table \<Rightarrow> decode_table option" where
  "insert_submasks opcode f3 rev_mask f7_match result cur t =
     do { t \<leftarrow> insert_f3_f7 opcode f3 (cur OR f7_match) result t;
          if cur = 0 then Some t
          else insert_submasks opcode f3 rev_mask f7_match result (rev_mask AND (cur - 1)) t }"
  by pat_completeness auto
termination
proof (relation "measure (\<lambda>(_, _, _, _, _, cur, _). unat cur)")
  fix rev_mask cur :: u8
  assume "cur \<noteq> 0"
  then have "unat (cur - 1) < unat cur" by (simp add: unat_minus_one unat_gt_0)
  moreover have "rev_mask AND (cur - 1) \<le> cur - 1" by (rule word_and_le1)
  ultimately have "unat (rev_mask AND (cur - 1)) < unat cur" by (simp add: word_le_nat_alt)
  then show "((opcode, f3, rev_mask, f7_match, result, rev_mask AND (cur - 1), t'),
      (opcode, f3, rev_mask, f7_match, result, cur, t)) \<in> measure (\<lambda>(_, _, _, _, _, cur, _). unat cur)"
    for opcode f3 f7_match :: u8 and result :: PartialResult and t t' :: decode_table
    by simp
qed simp

declare insert_submasks.simps [simp del]

fun insert_each :: "u8 \<Rightarrow> u8 list \<Rightarrow> u8 \<Rightarrow> PartialResult \<Rightarrow> decode_table \<Rightarrow> decode_table option" where
  "insert_each opcode [] f7 result t = Some t"
| "insert_each opcode (f3 # f3s) f7 result t =
     do { t \<leftarrow> insert_f3_f7 opcode f3 f7 result t; insert_each opcode f3s f7 result t }"

definition try_insert :: "RVInstrDesc \<Rightarrow> decode_table \<Rightarrow> (bool \<times> decode_table) option" where
  "try_insert desc t =
     (let msk = rv_mask desc; result = (rv_instr desc, rv_format desc) in
      if msk AND NOT (OPCODE_BITS OR F3_BITS OR F7_BITS) \<noteq> 0 then Some (False, t)
      else if msk AND OPCODE_BITS \<noteq> OPCODE_BITS then None
      else
        case get_opcode_f3_f7 (rv_key desc) of (opcode, f3, f7) \<Rightarrow>
        if msk = OPCODE_BITS then Some (True, t(opcode := (\<lambda>i. if i < 8 then Complete result else t opcode i)))
        else if msk = OPCODE_BITS OR F3_BITS then Some (True, set_slot opcode f3 (Complete result) t)
        else if msk = OPCODE_BITS OR F3_BITS OR F7_BITS then map_option (Pair True) (insert_f3_f7 opcode f3 f7 result t)
        else if msk = OPCODE_BITS OR F7_BITS then
          map_option (Pair True) (insert_each opcode [0, 1, 2, 3, 4, 5, 6, 7] f7 result t)
        else if msk AND F3_BITS = F3_BITS \<and> 5 \<le> count_ones (msk AND F7_BITS) then
          let rev_mask = ucast (drop_bit 25 (NOT (msk AND F7_BITS) AND F7_BITS));
              f7_match = ucast (drop_bit 25 (rv_key desc AND F7_BITS)) in
          map_option (Pair True) (insert_submasks opcode f3 rev_mask f7_match result rev_mask t)
        else Some (False, t))"

definition lookup_slot :: "PartialDecode \<Rightarrow> u8 \<Rightarrow> PartialResult option" where
  "lookup_slot slot f7 =
     (case slot of
        Unknown \<Rightarrow> None
      | Complete result \<Rightarrow> Some result
      | SparseF7 table \<Rightarrow> map_option snd (find (\<lambda>(k, _). k = f7) table)
      | DenseF7 table \<Rightarrow> table f7)"

definition recognize_instr :: "decode_table \<Rightarrow> RawInstr \<Rightarrow> PartialResult option" where
  "recognize_instr t instr = (case get_opcode_f3_f7 instr of (opcode, f3, f7) \<Rightarrow> lookup_slot (t opcode f3) f7)"

definition FunctDecoder_decode :: "decode_table \<Rightarrow> RawInstr \<Rightarrow> DecodeInstr option option" where
  "FunctDecoder_decode t raw =
     (case recognize_instr t raw of
        None \<Rightarrow> Some None
      | Some r \<Rightarrow> map_option Some (finish_decode decode_info (instr_len raw) raw r))"

section \<open>The decoder\<close>

record Decoder =
  funct_decoder :: decode_table
  mask_decoder :: MaskDecoder
  compress_decoder :: MaskDecoder
  extension_bits :: u64

definition is_compressed :: "RVInstrDesc \<Rightarrow> bool" where
  "is_compressed desc \<longleftrightarrow> rv_key desc AND 3 \<noteq> 3"

fun split_isa :: "RVInstrDesc list \<Rightarrow> decode_table \<Rightarrow> RVInstrDesc list \<Rightarrow> (decode_table \<times> RVInstrDesc list) option" where
  "split_isa [] t remain = Some (t, remain)"
| "split_isa (desc # descs) t remain =
     do { (ok, t) \<leftarrow> try_insert desc t; split_isa descs t (if ok then remain else remain @ [desc]) }"

definition from_isa :: "RVInstrDesc list \<Rightarrow> u64 \<Rightarrow> Decoder option" where
  "from_isa instrs extensions =
     do { (t, remain) \<leftarrow> split_isa (filter (\<lambda>d. \<not> is_compressed d) instrs) table_new [];
          Some \<lparr>funct_decoder = t, mask_decoder = masks_from_isa remain,
                compress_decoder = masks_from_isa (filter is_compressed instrs), extension_bits = extensions\<rparr> }"

definition decode :: "Decoder \<Rightarrow> RawInstr \<Rightarrow> DecodeInstr option option" where
  "decode d instr =
     (if instr_len instr = 2 then CompressedDecoder_decode (compress_decoder d) instr
      else do { r \<leftarrow> FunctDecoder_decode (funct_decoder d) instr;
                (case r of Some x \<Rightarrow> Some (Some x) | None \<Rightarrow> MaskDecoder_decode (mask_decoder d) instr) })"

end
