(* ===== verification/DecoderSpec.thy ===== *)
theory DecoderSpec
  imports Decoder
begin

text \<open>
  What the decoder of \<open>isa/riscv/decoder\<close> recognizes.  Whatever way the descriptions are distributed over the
  table and the mask lists, a raw instruction is decoded by the matching description with the most fixed
  bits; the operand fields are those of the instruction formats.
\<close>

section \<open>The most specific mask\<close>

lemma find_sort_key:
  assumes "find P (sort_key f xs) = Some x"
  shows "x \<in> set xs \<and> P x \<and> (\<forall>y \<in> set xs. P y \<longrightarrow> f x \<le> f y)"
proof -
  obtain i where i: "i < length (sort_key f xs)" "P (sort_key f xs ! i)" "x = sort_key f xs ! i"
      "\<And>j. j < i \<Longrightarrow> \<not> P (sort_key f xs ! j)"
    using assms by (auto simp: find_Some_iff)
  have "f x \<le> f y" if "y \<in> set xs" "P y" for y
  proof -
    have "y \<in> set (sort_key f xs)" using that(1) by simp
    then obtain j where j: "j < length (sort_key f xs)" "y = sort_key f xs ! j"
      using in_set_conv_nth [of y "sort_key f xs"] by blast
    then have "i \<le> j" using i(4) [of j] that(2) by (cases "j < i") auto
    moreover have "sorted (map f (sort_key f xs))" by (rule sorted_sort_key)
    ultimately show ?thesis using i(3) j sorted_nth_mono [of "map f (sort_key f xs)" i j] by simp
  qed
  moreover have "x \<in> set xs" using nth_mem [OF i(1)] i(3) by simp
  ultimately show ?thesis using i by blast
qed

section \<open>Submasks\<close>

lemma submask_half: "x AND r = x \<Longrightarrow> (x div 2) AND (r div 2) = x div 2 \<and> (odd x \<longrightarrow> odd r)" for x r :: nat
proof -
  assume x: "x AND r = x"
  then have "drop_bit 1 x = drop_bit 1 x AND drop_bit 1 r" by (metis drop_bit_and)
  moreover have "odd x \<longrightarrow> odd r" using even_and_iff [of x r] x by auto
  ultimately show ?thesis by (simp add: drop_bit_eq_div)
qed

lemma submask_pred:
  "s AND r = s \<Longrightarrow> c AND r = c \<Longrightarrow> s < c \<Longrightarrow> s \<le> (c - 1) AND r" for s c r :: nat
proof (induction c arbitrary: s r rule: less_induct)
  case (less c)
  note s2 = submask_half [OF less.prems(1)] and c2 = submask_half [OF less.prems(2)]
  have rec: "(c - 1) AND r = of_bool (odd (c - 1) \<and> odd r) + 2 * (((c - 1) div 2) AND (r div 2))" by (rule and_rec)
  show ?case
  proof (cases "odd c")
    case True
    then have "(c - 1) div 2 = c div 2" "even (c - 1)" "2 * (c div 2) = c - 1" by presburger+
    then show ?thesis using rec c2 less.prems(3) by simp
  next
    case False
    then have h: "(c - 1) div 2 = c div 2 - 1" "odd (c - 1)" "c div 2 < c" "s div 2 < c div 2" using less.prems(3) by presburger+
    have "s div 2 \<le> (c div 2 - 1) AND (r div 2)" using less.IH [OF h(3) _ _ h(4)] s2 c2 by blast
    moreover have "s = s mod 2 + 2 * (s div 2)" by simp
    moreover have "s mod 2 \<le> r mod 2" using s2 by presburger
    moreover have "(c - 1) AND r = r mod 2 + 2 * ((c div 2 - 1) AND (r div 2))"
      unfolding rec h(1) using h(2) by (simp only: of_bool_odd_eq_mod_2 [symmetric]) simp
    ultimately show ?thesis by linarith
  qed
qed

lemma submask_pred_word:
  fixes s c r :: "'a::len word"
  assumes "s AND r = s" "c AND r = c" "s < c"
  shows "s \<le> r AND (c - 1)"
proof -
  have "unat s AND unat r = unat s" "unat c AND unat r = unat c" "unat s < unat c"
    using arg_cong [OF assms(1), of unat] arg_cong [OF assms(2), of unat] assms(3)
    by (simp_all only: unsigned_and_eq word_less_nat_alt)
  then have "unat s \<le> (unat c - 1) AND unat r" by (rule submask_pred)
  moreover have "unat (c - 1) = unat c - 1" using assms(3) by (intro unat_minus_one) auto
  ultimately show ?thesis by (simp add: word_le_nat_alt unsigned_and_eq and.commute)
qed

section \<open>What the table holds\<close>

definition view :: "decode_table \<Rightarrow> u8 \<times> u8 \<times> u8 \<Rightarrow> PartialResult option" where
  "view t k = (case k of (opcode, f3, f7) \<Rightarrow> lookup_slot (t opcode f3) f7)"

fun slot_wf :: "PartialDecode \<Rightarrow> bool" where
  "slot_wf (SparseF7 table) \<longleftrightarrow> distinct (map fst table)"
| "slot_wf _ \<longleftrightarrow> True"

definition table_wf :: "decode_table \<Rightarrow> bool" where
  "table_wf t \<longleftrightarrow> (\<forall>opcode f3. slot_wf (t opcode f3))"

lemma find_key: "map_option snd (find (\<lambda>(k, _). k = x) table) = map_of table x"
  by (induction table) auto

lemma foldl_dense:
  "distinct (map fst table) \<Longrightarrow>
    foldl (\<lambda>dense (f7, result). dense(f7 := Some result)) d table x = (case map_of table x of None \<Rightarrow> d x | Some r \<Rightarrow> Some r)"
proof (induction table arbitrary: d)
  case (Cons e table)
  obtain f7 result where e: "e = (f7, result)" by force
  have "map_of table f7 = None" using Cons.prems by (simp add: e map_of_eq_None_iff)
  then show ?case using Cons by (auto simp: e split: option.splits)
qed simp

lemma lookup_make_dense:
  "distinct (map fst table) \<Longrightarrow> lookup_slot (try_make_dense (SparseF7 table)) f7 = map_of table f7 \<and> slot_wf (try_make_dense (SparseF7 table))"
  by (auto simp: lookup_slot_def find_key foldl_dense split: option.splits)

lemma insert_view:
  assumes "table_wf t" "view t (opcode, f3, f7) = None"
  shows "\<exists>t'. insert_f3_f7 opcode f3 f7 r t = Some t' \<and> table_wf t' \<and> view t' = (view t)((opcode, f3, f7) := Some r)"
proof -
  have new: "table_wf (set_slot opcode f3 slot t) \<and> view (set_slot opcode f3 slot t) = (view t)((opcode, f3, f7) := Some r)"
    if "slot_wf slot" "\<And>x. lookup_slot slot x = (if x = f7 then Some r else lookup_slot (t opcode f3) x)" for slot
    using assms(1) that by (auto simp: table_wf_def set_slot_def view_def fun_eq_iff)
  show ?thesis
  proof (cases "t opcode f3")
    case Unknown
    then show ?thesis using new [of "SparseF7 [(f7, r)]"] by (simp add: insert_f3_f7_def lookup_slot_def)
  next
    case (Complete x)
    then show ?thesis using assms(2) by (simp add: view_def lookup_slot_def)
  next
    case (SparseF7 table)
    have d: "distinct (map fst table)" using assms(1) SparseF7 by (metis table_wf_def slot_wf.simps(1))
    have n: "map_of table f7 = None" using assms(2) SparseF7 by (simp add: view_def lookup_slot_def find_key)
    then have "distinct (map fst (table @ [(f7, r)]))" using d by (simp add: map_of_eq_None_iff)
    note l = lookup_make_dense [OF this]
    show ?thesis using new [of "try_make_dense (SparseF7 (table @ [(f7, r)]))"] l SparseF7 n
      by (auto simp: insert_f3_f7_def lookup_slot_def [of "SparseF7 table"] find_key map_add_def simp del: try_make_dense.simps split: option.splits)
  next
    case (DenseF7 table)
    then show ?thesis using new [of "DenseF7 (table(f7 := Some r))"] by (simp add: insert_f3_f7_def lookup_slot_def)
  qed
qed

lemma insert_each_view:
  assumes "table_wf t" "\<And>f3. f3 \<in> set f3s \<Longrightarrow> view t (opcode, f3, f7) = None" "distinct f3s"
  shows "\<exists>t'. insert_each opcode f3s f7 r t = Some t' \<and> table_wf t'
    \<and> view t' = (\<lambda>k. if k \<in> {opcode} \<times> set f3s \<times> {f7} then Some r else view t k)"
  using assms
proof (induction f3s arbitrary: t)
  case (Cons f3 f3s)
  obtain t1 where t1: "insert_f3_f7 opcode f3 f7 r t = Some t1" "table_wf t1" "view t1 = (view t)((opcode, f3, f7) := Some r)"
    using insert_view [OF Cons.prems(1), of opcode f3 f7 r] Cons.prems(2) by auto
  have "view t1 (opcode, g, f7) = None" if "g \<in> set f3s" for g using that Cons.prems t1(3) by auto
  then obtain t2 where "insert_each opcode f3s f7 r t1 = Some t2" "table_wf t2"
      "view t2 = (\<lambda>k. if k \<in> {opcode} \<times> set f3s \<times> {f7} then Some r else view t1 k)"
    using Cons.IH [OF t1(2)] Cons.prems(3) by auto
  then show ?case using t1 by (auto simp: fun_eq_iff)
qed auto

lemma insert_submasks_view:
  assumes "table_wf t" "cur AND rev_mask = cur" "f7_match AND rev_mask = 0"
    and "\<And>s. s AND rev_mask = s \<Longrightarrow> s \<le> cur \<Longrightarrow> view t (opcode, f3, s OR f7_match) = None"
  shows "\<exists>t'. insert_submasks opcode f3 rev_mask f7_match r cur t = Some t' \<and> table_wf t'
    \<and> view t' = (\<lambda>k. if \<exists>s. s AND rev_mask = s \<and> s \<le> cur \<and> k = (opcode, f3, s OR f7_match) then Some r else view t k)"
  using assms
proof (induction opcode f3 rev_mask f7_match r cur t rule: insert_submasks.induct)
  case (1 opcode f3 rev_mask f7_match r cur t)
  obtain t1 where t1: "insert_f3_f7 opcode f3 (cur OR f7_match) r t = Some t1" "table_wf t1"
      "view t1 = (view t)((opcode, f3, cur OR f7_match) := Some r)"
    using insert_view [OF 1(2), of opcode f3 "cur OR f7_match" r] 1(3,5) by auto
  have inj: "s = u" if "s AND rev_mask = s" "u AND rev_mask = u" "s OR f7_match = u OR f7_match" for s u
  proof -
    have "(s OR f7_match) AND rev_mask = (u OR f7_match) AND rev_mask" using that(3) by simp
    then show ?thesis using that(1,2) 1(4) by (simp add: bit.conj_disj_distrib2)
  qed
  show ?case
  proof (cases "cur = 0")
    case True
    have "s = 0" if "s \<le> 0" for s :: u8 using that by simp
    then show ?thesis using t1 True by (auto simp: insert_submasks.simps fun_eq_iff)
  next
    case False
    let ?next = "rev_mask AND (cur - 1)"
    have less: "?next < cur"
    proof -
      have "cur - 1 < cur" using False by (simp add: word_less_nat_alt unat_minus_one unat_gt_0)
      then show ?thesis using word_and_le1 [of rev_mask "cur - 1"] by simp
    qed
    have sub: "?next AND rev_mask = ?next" by (simp add: and.commute and.left_commute)
    have below: "s \<le> ?next \<longleftrightarrow> s < cur" if "s AND rev_mask = s" for s
      using submask_pred_word [OF that 1(3)] less by auto
    have "view t1 (opcode, f3, s OR f7_match) = None" if "s AND rev_mask = s" "s \<le> ?next" for s
    proof -
      have "s < cur" using below that by blast
      then have "s \<noteq> cur" "s \<le> cur" by auto
      then show ?thesis using t1(3) 1(5) [OF that(1)] inj [OF that(1) 1(3)] by auto
    qed
    then obtain t2 where t2: "insert_submasks opcode f3 rev_mask f7_match r ?next t1 = Some t2" "table_wf t2"
        "view t2 = (\<lambda>k. if \<exists>s. s AND rev_mask = s \<and> s \<le> ?next \<and> k = (opcode, f3, s OR f7_match) then Some r else view t1 k)"
      using 1(1) [OF t1(1) False t1(2) sub 1(4)] by blast
    have ex: "(\<exists>s. s AND rev_mask = s \<and> s \<le> cur \<and> k = (opcode, f3, s OR f7_match)) \<longleftrightarrow>
        (\<exists>s. s AND rev_mask = s \<and> s \<le> ?next \<and> k = (opcode, f3, s OR f7_match)) \<or> k = (opcode, f3, cur OR f7_match)" for k
      using below 1(3) by (metis order_le_less order_refl)
    have "view t2 = (\<lambda>k. if \<exists>s. s AND rev_mask = s \<and> s \<le> cur \<and> k = (opcode, f3, s OR f7_match) then Some r else view t k)"
      unfolding t2(3) t1(3) ex by (rule ext) (simp only: fun_upd_apply split: if_split, blast)
    then show ?thesis using t1(1) t2(1,2) False by (simp add: insert_submasks.simps [of _ _ _ _ _ cur])
  qed
qed

section \<open>Keys of the table\<close>

definition in_range :: "u8 \<times> u8 \<times> u8 \<Rightarrow> bool" where
  "in_range k \<longleftrightarrow> (case k of (opcode, f3, f7) \<Rightarrow> opcode < 128 \<and> f3 < 8 \<and> f7 < 128)"

definition raw_of :: "u8 \<times> u8 \<times> u8 \<Rightarrow> u32" where
  "raw_of k = (case k of (opcode, f3, f7) \<Rightarrow> ucast opcode OR push_bit 12 (ucast f3) OR push_bit 25 (ucast f7))"

lemma bit_below:
  assumes "(x :: u8) < 2 ^ n"
  shows "bit x m \<Longrightarrow> m < n"
proof -
  assume "bit x m"

  have "bit x m \<longleftrightarrow> bit (x AND mask n) m" using less_mask_eq [OF assms] by simp
  then show ?thesis using \<open>bit x m\<close> by (simp add: bit_and_iff bit_mask_iff)
qed

lemma in_range_bits:
  assumes "in_range (opcode, f3, f7)"
  shows "bit opcode m \<Longrightarrow> m < 7" "bit f3 m \<Longrightarrow> m < 3" "bit f7 m \<Longrightarrow> m < 7"
  using assms bit_below [of opcode 7 m] bit_below [of f3 3 m] bit_below [of f7 7 m] by (simp_all add: in_range_def)

lemma seven: "(0x7F :: 'a::len word) = mask 7" "(7 :: 'a::len word) = mask 3"
  by (simp_all add: mask_eq_exp_minus_1)

lemma bit_fields:
  "get_opcode_f3_f7 raw = (opcode, f3, f7) \<Longrightarrow> bit opcode m \<longleftrightarrow> m < 7 \<and> bit raw m"
  "get_opcode_f3_f7 raw = (opcode, f3, f7) \<Longrightarrow> bit f3 m \<longleftrightarrow> m < 3 \<and> bit raw (12 + m)"
  "get_opcode_f3_f7 raw = (opcode, f3, f7) \<Longrightarrow> bit f7 m \<longleftrightarrow> m < 7 \<and> bit raw (25 + m)"
  using bit_imp_le_length [of raw "25 + m"] unfolding get_opcode_f3_f7_def seven
  by (auto simp: bit_ucast_iff bit_and_iff bit_mask_iff bit_drop_bit_eq)

lemma bit_less: "(\<And>m. n \<le> m \<Longrightarrow> \<not> bit (x :: u8) m) \<Longrightarrow> n < 8 \<Longrightarrow> x < 2 ^ n"
proof -
  assume "\<And>m. n \<le> m \<Longrightarrow> \<not> bit x m" "n < 8"
  then have "x AND mask n = x" by (intro bit_word_eqI) (auto simp: bit_and_iff bit_mask_iff not_less [symmetric])
  then show ?thesis using and_mask_less' [of n x] \<open>n < 8\<close> by simp
qed

lemma in_range_get: "in_range (get_opcode_f3_f7 raw)"
proof -
  obtain opcode f3 f7 where k: "get_opcode_f3_f7 raw = (opcode, f3, f7)" by (metis prod_cases3)
  have "opcode < 2 ^ 7" "f3 < 2 ^ 3" "f7 < 2 ^ 7" by (rule bit_less; simp add: bit_fields [OF k])+
  then show ?thesis by (simp add: k in_range_def)
qed

lemma bit_raw_of:
  assumes "in_range (opcode, f3, f7)"
  shows "bit (raw_of (opcode, f3, f7)) n \<longleftrightarrow>
    (n < 7 \<and> bit opcode n) \<or> (12 \<le> n \<and> n < 15 \<and> bit f3 (n - 12)) \<or> (25 \<le> n \<and> n < 32 \<and> bit f7 (n - 25))"
  using in_range_bits [OF assms, of n] in_range_bits [OF assms, of "n - 12"] in_range_bits [OF assms, of "n - 25"]
  by (auto simp: raw_of_def bit_or_iff bit_ucast_iff bit_push_bit_iff dest: bit_imp_le_length)

lemma get_raw_of:
  assumes "in_range k"
  shows "get_opcode_f3_f7 (raw_of k) = k"
proof -
  obtain opcode f3 f7 where k: "k = (opcode, f3, f7)" by (metis prod_cases3)
  obtain opcode' f3' f7' where g: "get_opcode_f3_f7 (raw_of k) = (opcode', f3', f7')" by (metis prod_cases3)
  note b = bit_fields [OF g, unfolded k bit_raw_of [OF assms [unfolded k]]] in_range_bits [OF assms [unfolded k]]
  have "opcode' = opcode" "f3' = f3" "f7' = f7" by (rule bit_word_eqI, use b in auto)+
  then show ?thesis using g k by simp
qed

definition field_mask :: u32 where
  "field_mask = OPCODE_BITS OR F3_BITS OR F7_BITS"

lemma bit_field_masks:
  "bit OPCODE_BITS n \<longleftrightarrow> n < 7" "bit F3_BITS n \<longleftrightarrow> 12 \<le> n \<and> n < 15" "bit F7_BITS n \<longleftrightarrow> 25 \<le> n \<and> n < 32"
  unfolding OPCODE_BITS_def F3_BITS_def F7_BITS_def seven
  by (auto simp: bit_push_bit_iff bit_mask_iff dest: bit_imp_le_length)

lemma raw_of_get:
  assumes "m AND NOT field_mask = 0"
  shows "raw_of (get_opcode_f3_f7 raw) AND m = raw AND m"
proof (rule bit_word_eqI)
  fix n
  assume "n < LENGTH(32)"
  obtain opcode f3 f7 where k: "get_opcode_f3_f7 raw = (opcode, f3, f7)" by (metis prod_cases3)
  have "bit m n \<Longrightarrow> n < 7 \<or> (12 \<le> n \<and> n < 15) \<or> 25 \<le> n"
    using arg_cong [OF assms, of "\<lambda>w. bit w n"] \<open>n < LENGTH(32)\<close>
    by (auto simp: field_mask_def bit_simps bit_field_masks)
  then show "bit (raw_of (get_opcode_f3_f7 raw) AND m) n = bit (raw AND m) n"
    using in_range_get [of raw] \<open>n < LENGTH(32)\<close>
    by (auto simp: k bit_and_iff bit_raw_of bit_fields [OF k])
qed

section \<open>Inserting a description\<close>

lemma word_eq_bits: "v = w \<longleftrightarrow> (\<forall>n. bit v n = bit w n)" for v w :: "'a::len word"
  by (auto intro: bit_word_eqI)

lemma matches_bits: "matches m raw \<longleftrightarrow> (\<forall>n. (bit raw n \<and> bit (mask_bits m) n) = bit (mask_key m) n)"
  by (simp add: matches_def word_eq_bits bit_and_iff)

definition key_ok :: "RVInstrDesc \<Rightarrow> bool" where
  "key_ok d \<longleftrightarrow> rv_key d AND NOT (rv_mask d) = 0"

lemma key_okD: "key_ok d \<Longrightarrow> bit (rv_key d) n \<Longrightarrow> bit (rv_mask d) n"
  unfolding key_ok_def
  by (metis bit_and_iff bit_not_iff bit_0_eq bot_apply bot_bool_def bit_imp_le_length possible_bit_word)

lemma subset_fields: "m AND NOT field_mask = 0 \<Longrightarrow> bit m n \<Longrightarrow> n < 7 \<or> (12 \<le> n \<and> n < 15) \<or> (25 \<le> n \<and> n < 32)"
proof -
  assume m: "m AND NOT field_mask = 0" "bit m n"
  then have "n < 32" using bit_imp_le_length by fastforce
  then show ?thesis using arg_cong [OF m(1), of "\<lambda>w. bit w n"] m(2)
    by (auto simp: field_mask_def bit_simps bit_field_masks)
qed

lemma matches_fields:
  assumes "rv_mask d AND NOT field_mask = 0" "rv_mask d AND OPCODE_BITS = OPCODE_BITS" "key_ok d" "in_range (a, b, c)"
    and "get_opcode_f3_f7 (rv_key d) = (opcode, f3, f7)"
  shows "matches (desc_mask d) (raw_of (a, b, c)) \<longleftrightarrow> a = opcode
    \<and> (\<forall>i < 3. (bit b i \<and> bit (rv_mask d) (12 + i)) = bit (rv_key d) (12 + i))
    \<and> (\<forall>i < 7. (bit c i \<and> bit (rv_mask d) (25 + i)) = bit (rv_key d) (25 + i))" (is "?m \<longleftrightarrow> _ \<and> ?b \<and> ?c")
proof -
  have op: "bit (rv_mask d) n" if "n < 7" for n
    using arg_cong [OF assms(2), of "\<lambda>w. bit w n"] that by (auto simp: bit_and_iff bit_field_masks)
  have "?m \<longleftrightarrow> (\<forall>n. (bit (raw_of (a, b, c)) n \<and> bit (rv_mask d) n) = bit (rv_key d) n)"
    by (simp add: matches_bits desc_mask_def)
  also have "\<dots> \<longleftrightarrow> (\<forall>i < 7. bit a i = bit (rv_key d) i) \<and> ?b \<and> ?c"
  proof
    assume h: "\<forall>n. (bit (raw_of (a, b, c)) n \<and> bit (rv_mask d) n) = bit (rv_key d) n"
    have "i < 7 \<Longrightarrow> bit a i = bit (rv_key d) i" for i using spec [OF h, of i] op by (auto simp: bit_raw_of [OF assms(4)])
    moreover have "i < 3 \<Longrightarrow> (bit b i \<and> bit (rv_mask d) (12 + i)) = bit (rv_key d) (12 + i)" for i
      using spec [OF h, of "12 + i"] by (auto simp: bit_raw_of [OF assms(4)])
    moreover have "i < 7 \<Longrightarrow> (bit c i \<and> bit (rv_mask d) (25 + i)) = bit (rv_key d) (25 + i)" for i
      using spec [OF h, of "25 + i"] by (auto simp: bit_raw_of [OF assms(4)])
    ultimately show "(\<forall>i < 7. bit a i = bit (rv_key d) i) \<and> ?b \<and> ?c" by blast
  next
    assume h: "(\<forall>i < 7. bit a i = bit (rv_key d) i) \<and> ?b \<and> ?c"
    note abc = conjunct1 [OF h] conjunct1 [OF conjunct2 [OF h]] conjunct2 [OF conjunct2 [OF h]]
    show "\<forall>n. (bit (raw_of (a, b, c)) n \<and> bit (rv_mask d) n) = bit (rv_key d) n"
    proof
      fix n
      show "(bit (raw_of (a, b, c)) n \<and> bit (rv_mask d) n) = bit (rv_key d) n"
      proof (cases "bit (rv_mask d) n")
      case True
      then consider "n < 7" | "12 \<le> n" "n < 15" | "25 \<le> n" "n < 32" using subset_fields [OF assms(1)] by blast
      then show ?thesis
        using True abc(1) [rule_format, of n] abc(2) [rule_format, of "n - 12"] abc(3) [rule_format, of "n - 25"]
        by cases (auto simp: bit_raw_of [OF assms(4)])
    next
      case False
      then show ?thesis using key_okD [OF assms(3)] by blast
    qed
    qed
  qed
  also have "(\<forall>i < 7. bit a i = bit (rv_key d) i) \<longleftrightarrow> a = opcode"
    using bit_fields(1) [OF assms(5)] in_range_bits(1) [OF assms(4)] by (auto simp: word_eq_bits)
  finally show ?thesis .
qed

lemma f3_field:
  assumes "in_range (a, b, c)" "get_opcode_f3_f7 (rv_key d) = (opcode, f3, f7)" "key_ok d"
  shows "rv_mask d AND F3_BITS = F3_BITS \<Longrightarrow>
      (\<forall>i < 3. (bit b i \<and> bit (rv_mask d) (12 + i)) = bit (rv_key d) (12 + i)) \<longleftrightarrow> b = f3"
    and "rv_mask d AND F3_BITS = 0 \<Longrightarrow> \<forall>i < 3. (bit b i \<and> bit (rv_mask d) (12 + i)) = bit (rv_key d) (12 + i)"
proof -
  have m: "bit (rv_mask d AND F3_BITS) (12 + i) \<longleftrightarrow> bit (rv_mask d) (12 + i)" if "i < 3" for i
    using that by (simp add: bit_and_iff bit_field_masks)
  show "(\<forall>i < 3. (bit b i \<and> bit (rv_mask d) (12 + i)) = bit (rv_key d) (12 + i)) \<longleftrightarrow> b = f3"
    if "rv_mask d AND F3_BITS = F3_BITS"
    using m [unfolded that bit_field_masks] bit_fields(2) [OF assms(2)] in_range_bits(2) [OF assms(1)] by (auto simp: word_eq_bits)
  show "\<forall>i < 3. (bit b i \<and> bit (rv_mask d) (12 + i)) = bit (rv_key d) (12 + i)" if "rv_mask d AND F3_BITS = 0"
    using m [unfolded that] key_okD [OF assms(3)] by auto
qed

lemma f7_field:
  assumes "in_range (a, b, c)" "get_opcode_f3_f7 (rv_key d) = (opcode, f3, f7)" "key_ok d"
  shows "rv_mask d AND F7_BITS = F7_BITS \<Longrightarrow>
      (\<forall>i < 7. (bit c i \<and> bit (rv_mask d) (25 + i)) = bit (rv_key d) (25 + i)) \<longleftrightarrow> c = f7"
    and "rv_mask d AND F7_BITS = 0 \<Longrightarrow> \<forall>i < 7. (bit c i \<and> bit (rv_mask d) (25 + i)) = bit (rv_key d) (25 + i)"
proof -
  have m: "bit (rv_mask d AND F7_BITS) (25 + i) \<longleftrightarrow> bit (rv_mask d) (25 + i)" if "i < 7" for i
    using that by (simp add: bit_and_iff bit_field_masks)
  show "(\<forall>i < 7. (bit c i \<and> bit (rv_mask d) (25 + i)) = bit (rv_key d) (25 + i)) \<longleftrightarrow> c = f7"
    if "rv_mask d AND F7_BITS = F7_BITS"
    using m [unfolded that bit_field_masks] bit_fields(3) [OF assms(2)] in_range_bits(3) [OF assms(1)] by (auto simp: word_eq_bits)
  show "\<forall>i < 7. (bit c i \<and> bit (rv_mask d) (25 + i)) = bit (rv_key d) (25 + i)" if "rv_mask d AND F7_BITS = 0"
    using m [unfolded that] key_okD [OF assms(3)] by auto
qed

definition open_f7 :: "RVInstrDesc \<Rightarrow> u8" where
  "open_f7 d = ucast (drop_bit 25 (NOT (rv_mask d AND F7_BITS) AND F7_BITS))"

definition fixed_f7 :: "RVInstrDesc \<Rightarrow> u8" where
  "fixed_f7 d = ucast (drop_bit 25 (rv_key d AND F7_BITS))"

lemma bit_open_f7: "bit (open_f7 d) i \<longleftrightarrow> i < 7 \<and> \<not> bit (rv_mask d) (25 + i)"
  by (auto simp: open_f7_def bit_ucast_iff bit_drop_bit_eq bit_and_iff bit_or_iff bit_not_iff bit_field_masks)

lemma bit_fixed_f7: "bit (fixed_f7 d) i \<longleftrightarrow> i < 7 \<and> bit (rv_key d) (25 + i)"
  by (auto simp: fixed_f7_def bit_ucast_iff bit_drop_bit_eq bit_and_iff bit_field_masks)

lemma f7_submask:
  assumes "in_range (a, b, c)" "key_ok d"
  shows "(\<forall>i < 7. (bit c i \<and> bit (rv_mask d) (25 + i)) = bit (rv_key d) (25 + i)) \<longleftrightarrow>
    (\<exists>s. s AND open_f7 d = s \<and> s \<le> open_f7 d \<and> c = s OR fixed_f7 d)" (is "?l \<longleftrightarrow> ?r")
proof
  assume l: ?l
  have "c = (c AND open_f7 d) OR fixed_f7 d"
  proof (rule bit_word_eqI)
    fix i
    show "bit c i = bit ((c AND open_f7 d) OR fixed_f7 d) i"
      using l in_range_bits(3) [OF assms(1)] by (auto simp: bit_or_iff bit_and_iff bit_open_f7 bit_fixed_f7)
  qed
  moreover have "c AND open_f7 d \<le> open_f7 d" by (rule word_and_le1)
  ultimately show ?r by (intro exI [of _ "c AND open_f7 d"]) (simp add: and.assoc)
next
  assume ?r
  then obtain s where s: "s AND open_f7 d = s" "c = s OR fixed_f7 d" by blast
  have "bit s i \<Longrightarrow> \<not> bit (rv_mask d) (25 + i)" for i
    using arg_cong [OF s(1), of "\<lambda>w. bit w i"] by (auto simp: bit_and_iff bit_open_f7)
  then show ?l using key_okD [OF assms(2)] by (auto simp: s(2) bit_or_iff bit_fixed_f7)
qed

definition funct_form :: "u32 \<Rightarrow> bool" where
  "funct_form m \<longleftrightarrow> m AND NOT field_mask = 0 \<and>
     (m \<in> {OPCODE_BITS, OPCODE_BITS OR F3_BITS, OPCODE_BITS OR F3_BITS OR F7_BITS, OPCODE_BITS OR F7_BITS}
      \<or> (m AND F3_BITS = F3_BITS \<and> 5 \<le> count_ones (m AND F7_BITS)))"

lemma field_bits_disjoint:
  "OPCODE_BITS AND F3_BITS = 0" "OPCODE_BITS AND F7_BITS = 0" "(OPCODE_BITS OR F3_BITS) AND F7_BITS = 0"
  "(OPCODE_BITS OR F3_BITS) AND F3_BITS = F3_BITS" "(OPCODE_BITS OR F3_BITS OR F7_BITS) AND F3_BITS = F3_BITS"
  "(OPCODE_BITS OR F3_BITS OR F7_BITS) AND F7_BITS = F7_BITS" "(OPCODE_BITS OR F7_BITS) AND F3_BITS = 0"
  "(OPCODE_BITS OR F7_BITS) AND F7_BITS = F7_BITS"
  by (simp_all add: OPCODE_BITS_def F3_BITS_def F7_BITS_def)

lemma field_bits_distinct:
  "OPCODE_BITS OR F3_BITS \<noteq> OPCODE_BITS" "OPCODE_BITS OR F3_BITS OR F7_BITS \<notin> {OPCODE_BITS, OPCODE_BITS OR F3_BITS}"
  "OPCODE_BITS OR F7_BITS \<notin> {OPCODE_BITS, OPCODE_BITS OR F3_BITS, OPCODE_BITS OR F3_BITS OR F7_BITS}"
  by (simp_all add: OPCODE_BITS_def F3_BITS_def F7_BITS_def)

lemma field_bits_in:
  "OPCODE_BITS AND NOT field_mask = 0" "(OPCODE_BITS OR F3_BITS) AND NOT field_mask = 0"
  "(OPCODE_BITS OR F3_BITS OR F7_BITS) AND NOT field_mask = 0" "(OPCODE_BITS OR F7_BITS) AND NOT field_mask = 0"
  "(OPCODE_BITS OR F3_BITS) AND OPCODE_BITS = OPCODE_BITS"
  "(OPCODE_BITS OR F3_BITS OR F7_BITS) AND OPCODE_BITS = OPCODE_BITS" "(OPCODE_BITS OR F7_BITS) AND OPCODE_BITS = OPCODE_BITS"
  "field_mask AND OPCODE_BITS = OPCODE_BITS"
  by (simp_all add: field_mask_def OPCODE_BITS_def F3_BITS_def F7_BITS_def)

lemma f3_values: "set [0, 1, 2, 3, 4, 5, 6, 7] = {b :: u8. b < 8}"
proof -
  have "b \<in> set [0, 1, 2, 3, 4, 5, 6, 7]" if "b < 8" for b :: u8
  proof -
    have "unat b < 8" using that by (simp add: word_less_nat_alt)
    then have "unat b \<in> {0, 1, 2, 3, 4, 5, 6, 7}" by (simp; presburger)
    then show ?thesis by (simp add: word_unat_eq_iff)
  qed
  then show ?thesis by (auto simp: word_less_nat_alt)
qed

lemma try_insert_view:
  assumes "table_wf t" "key_ok d" "funct_form (rv_mask d)" "rv_mask d AND OPCODE_BITS = OPCODE_BITS"
    and free: "\<And>k. in_range k \<Longrightarrow> matches (desc_mask d) (raw_of k) \<Longrightarrow> view t k = None"
  shows "\<exists>t'. try_insert d t = Some (True, t') \<and> table_wf t' \<and> (\<forall>k. in_range k \<longrightarrow>
    view t' k = (if matches (desc_mask d) (raw_of k) then Some (rv_instr d, rv_format d) else view t k))"
proof -
  let ?r = "(rv_instr d, rv_format d)" and ?m = "rv_mask d"
  obtain opcode f3 f7 where key: "get_opcode_f3_f7 (rv_key d) = (opcode, f3, f7)" by (metis prod_cases3)
  have rk: "in_range (opcode, f3, f7)" using in_range_get [of "rv_key d"] key by simp
  have sub: "?m AND NOT field_mask = 0" using assms(3) by (simp add: funct_form_def)
  note start = key Let_def try_insert_def field_mask_def [symmetric] sub assms(4) field_bits_in
  note mf = matches_fields [OF sub assms(4,2) _ key]
  have fld: "in_range (a, b, c) \<Longrightarrow> in_range (a, b', c') \<longleftrightarrow> b' < 8 \<and> c' < 128" for a b c b' c' by (simp add: in_range_def)
  consider (op) "?m = OPCODE_BITS" | (op3) "?m = OPCODE_BITS OR F3_BITS" | (all) "?m = OPCODE_BITS OR F3_BITS OR F7_BITS"
    | (op7) "?m = OPCODE_BITS OR F7_BITS"
    | (part) "?m \<notin> {OPCODE_BITS, OPCODE_BITS OR F3_BITS, OPCODE_BITS OR F3_BITS OR F7_BITS, OPCODE_BITS OR F7_BITS}"
        "?m AND F3_BITS = F3_BITS" "5 \<le> count_ones (?m AND F7_BITS)"
    using assms(3) by (auto simp: funct_form_def)
  then show ?thesis
  proof cases
    case op
    have m: "matches (desc_mask d) (raw_of (a, b, c)) \<longleftrightarrow> a = opcode" if "in_range (a, b, c)" for a b c
      using mf [OF that] f3_field(2) [OF that key assms(2)] f7_field(2) [OF that key assms(2)] op by (simp add: field_bits_disjoint)
    let ?t = "t(opcode := (\<lambda>i. if i < 8 then Complete ?r else t opcode i))"
    have "table_wf ?t" using assms(1) by (simp add: table_wf_def)
    moreover have "view ?t (a, b, c) = (if a = opcode then Some ?r else view t (a, b, c))" if "in_range (a, b, c)" for a b c
      using that by (simp add: view_def lookup_slot_def in_range_def)
    ultimately show ?thesis using op by (intro exI [of _ ?t]) (auto simp: start m)
  next
    case op3
    have m: "matches (desc_mask d) (raw_of (a, b, c)) \<longleftrightarrow> a = opcode \<and> b = f3" if "in_range (a, b, c)" for a b c
      using mf [OF that] f3_field(1) [OF that key assms(2)] f7_field(2) [OF that key assms(2)] op3 by (simp add: field_bits_disjoint)
    let ?t = "set_slot opcode f3 (Complete ?r) t"
    have "table_wf ?t" using assms(1) by (simp add: table_wf_def set_slot_def)
    moreover have "view ?t (a, b, c) = (if a = opcode \<and> b = f3 then Some ?r else view t (a, b, c))" for a b c
      by (simp add: view_def lookup_slot_def set_slot_def)
    ultimately show ?thesis using op3 field_bits_distinct(1) by (intro exI [of _ ?t]) (auto simp: start m)
  next
    case all
    have m: "matches (desc_mask d) (raw_of (a, b, c)) \<longleftrightarrow> a = opcode \<and> b = f3 \<and> c = f7" if "in_range (a, b, c)" for a b c
      using mf [OF that] f3_field(1) [OF that key assms(2)] f7_field(1) [OF that key assms(2)] all by (simp add: field_bits_disjoint)
    obtain t' where "insert_f3_f7 opcode f3 f7 ?r t = Some t'" "table_wf t'" "view t' = (view t)((opcode, f3, f7) := Some ?r)"
      using insert_view [OF assms(1) free [OF rk]] m [OF rk] by blast
    then show ?thesis using all field_bits_distinct(2) by (intro exI [of _ t']) (auto simp: start m)
  next
    case op7
    have m: "matches (desc_mask d) (raw_of (a, b, c)) \<longleftrightarrow> a = opcode \<and> c = f7" if "in_range (a, b, c)" for a b c
      using mf [OF that] f3_field(2) [OF that key assms(2)] f7_field(1) [OF that key assms(2)] op7 by (simp add: field_bits_disjoint)
    let ?f3s = "[0, 1, 2, 3, 4, 5, 6, 7] :: u8 list"
    note f3s = f3_values
    have "view t (opcode, b, f7) = None" if "b \<in> set ?f3s" for b
      using that f3s rk m [of opcode b f7] free [of "(opcode, b, f7)"] by (auto simp: in_range_def)
    then obtain t' where "insert_each opcode ?f3s f7 ?r t = Some t'" "table_wf t'"
        "view t' = (\<lambda>k. if k \<in> {opcode} \<times> set ?f3s \<times> {f7} then Some ?r else view t k)"
      using insert_each_view [OF assms(1), of ?f3s opcode f7 ?r] by auto
    then show ?thesis using op7 field_bits_distinct(3) f3s by (intro exI [of _ t']) (auto simp: start m in_range_def)
  next
    case part
    have m: "matches (desc_mask d) (raw_of (a, b, c)) \<longleftrightarrow>
        (\<exists>s. s AND open_f7 d = s \<and> s \<le> open_f7 d \<and> (a, b, c) = (opcode, f3, s OR fixed_f7 d))" if "in_range (a, b, c)" for a b c
      using mf [OF that] f3_field(1) [OF that key assms(2) part(2)] f7_submask [OF that assms(2)] by auto
    have "fixed_f7 d AND open_f7 d = 0"
      using key_okD [OF assms(2)] by (intro bit_word_eqI) (auto simp: bit_and_iff bit_open_f7 bit_fixed_f7)
    moreover have "view t (opcode, f3, s OR fixed_f7 d) = None" if "s AND open_f7 d = s" "s \<le> open_f7 d" for s
    proof -
      have "bit (s OR fixed_f7 d) i \<Longrightarrow> i < 7" for i
        using arg_cong [OF that(1), of "\<lambda>w. bit w i"] by (auto simp: bit_or_iff bit_and_iff bit_open_f7 bit_fixed_f7)
      then have "s OR fixed_f7 d < 2 ^ 7" by (intro bit_less) force+
      then have "in_range (opcode, f3, s OR fixed_f7 d)" using rk by (simp add: in_range_def)
      then show ?thesis using free m that by blast
    qed
    ultimately obtain t' where "insert_submasks opcode f3 (open_f7 d) (fixed_f7 d) ?r (open_f7 d) t = Some t'" "table_wf t'"
        "view t' = (\<lambda>k. if \<exists>s. s AND open_f7 d = s \<and> s \<le> open_f7 d \<and> k = (opcode, f3, s OR fixed_f7 d) then Some ?r else view t k)"
      using insert_submasks_view [OF assms(1), of "open_f7 d" "open_f7 d" "fixed_f7 d" opcode f3 ?r] by auto
    moreover have "try_insert d t = map_option (Pair True) (insert_submasks opcode f3 (open_f7 d) (fixed_f7 d) ?r (open_f7 d) t)"
      using part by (simp add: start open_f7_def fixed_f7_def)
    ultimately show ?thesis by (intro exI [of _ t']) (simp add: m)
  qed
qed

lemma try_insert_refuses:
  assumes "\<not> funct_form (rv_mask d)" "rv_mask d AND NOT field_mask = 0 \<Longrightarrow> rv_mask d AND OPCODE_BITS = OPCODE_BITS"
  shows "try_insert d t = Some (False, t)"
  using assms by (auto simp: try_insert_def funct_form_def field_mask_def Let_def split: prod.splits)

section \<open>The decoder of an instruction set\<close>

text \<open>
  What is relied on of the generated descriptions: the key of a description has no bit outside its mask, a mask
  over the table's fields fixes the opcode, and a description that goes to the table overlaps no other
  one of its length.
\<close>

definition clash :: "RVInstrDesc \<Rightarrow> RVInstrDesc \<Rightarrow> bool" where
  "clash d e \<longleftrightarrow> (rv_key d XOR rv_key e) AND rv_mask d AND rv_mask e = 0"

definition isa_ok :: "RVInstrDesc list \<Rightarrow> bool" where
  "isa_ok ds \<longleftrightarrow>
     (\<forall>d \<in> set ds. key_ok d \<and> (rv_mask d AND NOT field_mask = 0 \<longrightarrow> rv_mask d AND OPCODE_BITS = OPCODE_BITS))
     \<and> (\<forall>i < length ds. \<forall>j < length ds. i \<noteq> j \<and> funct_form (rv_mask (ds ! i)) \<longrightarrow> \<not> clash (ds ! i) (ds ! j))"

lemma clash_if_match:
  assumes "matches (desc_mask d) raw" "matches (desc_mask e) raw"
  shows "clash d e"
  unfolding clash_def
proof (rule bit_word_eqI)
  fix n
  show "bit ((rv_key d XOR rv_key e) AND rv_mask d AND rv_mask e) n = bit (0 :: u32) n"
    using assms by (auto simp: matches_bits desc_mask_def bit_and_iff bit_xor_iff)
qed

definition result_of :: "RVInstrDesc \<Rightarrow> PartialResult" where
  "result_of d = (rv_instr d, rv_format d)"

lemma isa_ok_Cons:
  "isa_ok (d # ds) \<Longrightarrow> isa_ok ds"
  "isa_ok (d # ds) \<Longrightarrow> key_ok d"
  "isa_ok (d # ds) \<Longrightarrow> rv_mask d AND NOT field_mask = 0 \<Longrightarrow> rv_mask d AND OPCODE_BITS = OPCODE_BITS"
  "isa_ok (d # ds) \<Longrightarrow> e \<in> set ds \<Longrightarrow> funct_form (rv_mask d) \<Longrightarrow> \<not> clash d e"
proof -
  assume ok: "isa_ok (d # ds)"
  have pair: "i \<noteq> j \<Longrightarrow> i < Suc (length ds) \<Longrightarrow> j < Suc (length ds) \<Longrightarrow> funct_form (rv_mask ((d # ds) ! i)) \<Longrightarrow>
      \<not> clash ((d # ds) ! i) ((d # ds) ! j)" for i j
    using ok unfolding isa_ok_def by simp
  show "isa_ok ds"
    unfolding isa_ok_def using ok pair [of "Suc _" "Suc _"] by (auto simp: isa_ok_def)
  show "key_ok d" "rv_mask d AND NOT field_mask = 0 \<Longrightarrow> rv_mask d AND OPCODE_BITS = OPCODE_BITS"
    using ok by (auto simp: isa_ok_def)
  show "\<not> clash d e" if "e \<in> set ds" "funct_form (rv_mask d)"
  proof -
    obtain j where "j < length ds" "ds ! j = e" using \<open>e \<in> set ds\<close> by (metis in_set_conv_nth)
    then show ?thesis using pair [of 0 "Suc j"] that(2) by simp
  qed
qed

lemma split_isa_view:
  assumes "isa_ok ds" "table_wf t"
    and "\<And>k d. in_range k \<Longrightarrow> d \<in> set ds \<Longrightarrow> funct_form (rv_mask d) \<Longrightarrow> matches (desc_mask d) (raw_of k) \<Longrightarrow> view t k = None"
  shows "\<exists>t'. split_isa ds t remain = Some (t', remain @ filter (\<lambda>d. \<not> funct_form (rv_mask d)) ds) \<and> table_wf t' \<and>
    (\<forall>k. in_range k \<longrightarrow> view t' k = (case find (\<lambda>d. funct_form (rv_mask d) \<and> matches (desc_mask d) (raw_of k)) ds of
        Some d \<Rightarrow> Some (result_of d) | None \<Rightarrow> view t k))"
  using assms
proof (induction ds arbitrary: t remain)
  case (Cons d ds)
  note ok = isa_ok_Cons [OF Cons.prems(1)]
  show ?case
  proof (cases "funct_form (rv_mask d)")
    case False
    have "try_insert d t = Some (False, t)" by (rule try_insert_refuses [OF False ok(3)])
    moreover have pre: "view t k = None" if "in_range k" "e \<in> set ds" "funct_form (rv_mask e)" "matches (desc_mask e) (raw_of k)" for k e
      using that by (intro Cons.prems(3)) simp_all
    obtain t' where "split_isa ds t (remain @ [d]) = Some (t', (remain @ [d]) @ filter (\<lambda>d. \<not> funct_form (rv_mask d)) ds)"
        "table_wf t'" "\<forall>k. in_range k \<longrightarrow> view t' k =
          (case find (\<lambda>d. funct_form (rv_mask d) \<and> matches (desc_mask d) (raw_of k)) ds of Some d \<Rightarrow> Some (result_of d) | None \<Rightarrow> view t k)"
      using Cons.IH [OF ok(1) Cons.prems(2), of "remain @ [d]"] pre by blast
    ultimately show ?thesis using False by simp
  next
    case True
    then have op: "rv_mask d AND OPCODE_BITS = OPCODE_BITS" using ok(3) by (simp add: funct_form_def)
    obtain t1 where t1: "try_insert d t = Some (True, t1)" "table_wf t1" "\<forall>k. in_range k \<longrightarrow>
        view t1 k = (if matches (desc_mask d) (raw_of k) then Some (result_of d) else view t k)"
      using try_insert_view [OF Cons.prems(2) ok(2) True op] Cons.prems(3) [of _ d] True unfolding result_of_def by auto
    have "view t1 k = None" if "in_range k" "e \<in> set ds" "funct_form (rv_mask e)" "matches (desc_mask e) (raw_of k)" for k e
    proof -
      have "\<not> matches (desc_mask d) (raw_of k)" using ok(4) [OF that(2) True] clash_if_match [OF _ that(4)] by blast
      moreover have "view t k = None" using that by (intro Cons.prems(3)) simp_all
      ultimately show ?thesis using spec [OF t1(3), of k] that(1) by simp
    qed
    then obtain t' where t': "split_isa ds t1 remain = Some (t', remain @ filter (\<lambda>d. \<not> funct_form (rv_mask d)) ds)" "table_wf t'"
        "\<forall>k. in_range k \<longrightarrow> view t' k = (case find (\<lambda>d. funct_form (rv_mask d) \<and> matches (desc_mask d) (raw_of k)) ds of
          Some d \<Rightarrow> Some (result_of d) | None \<Rightarrow> view t1 k)"
      using Cons.IH [OF ok(1) t1(2), of remain] by blast
    have "view t' k = (if matches (desc_mask d) (raw_of k) then Some (result_of d) else
        (case find (\<lambda>d. funct_form (rv_mask d) \<and> matches (desc_mask d) (raw_of k)) ds of
          Some d \<Rightarrow> Some (result_of d) | None \<Rightarrow> view t k))" if "in_range k" for k
    proof (cases "matches (desc_mask d) (raw_of k)")
      case m: True
      have "find (\<lambda>d. funct_form (rv_mask d) \<and> matches (desc_mask d) (raw_of k)) ds = None"
        unfolding find_None_iff using ok(4) True m clash_if_match by blast
      then show ?thesis using spec [OF t'(3), of k] spec [OF t1(3), of k] that m by simp
    qed (use spec [OF t'(3), of k] spec [OF t1(3), of k] that in \<open>simp split: option.splits\<close>)
    then show ?thesis using t1(1) t'(1,2) True by (intro exI [of _ t']) simp
  qed
qed simp

lemma sort_key_map: "sort_key f (map g xs) = map g (sort_key (\<lambda>x. f (g x)) xs)"
proof -
  have ins: "insort_key f (g x) (map g ys) = map g (insort_key (\<lambda>x. f (g x)) x ys)" for x ys
    by (induction ys) auto
  show ?thesis by (induction xs) (simp_all add: ins)
qed

lemma find_map: "find P (map g xs) = map_option g (find (\<lambda>x. P (g x)) xs)"
  by (induction xs) auto

lemma find_filter: "(\<And>x. x \<in> set xs \<Longrightarrow> P x \<Longrightarrow> Q x) \<Longrightarrow> find P (filter Q xs) = find P xs"
  by (induction xs) auto

text \<open>The description that decides a raw instruction: of those of its length that match it, the first with the most fixed bits.\<close>

definition chosen :: "RVInstrDesc list \<Rightarrow> u32 \<Rightarrow> RVInstrDesc option" where
  "chosen ds raw = find (\<lambda>d. matches (desc_mask d) raw) (sort_key (\<lambda>d. count_zeros (rv_mask d)) ds)"

lemma mask_search_chosen: "mask_search (masks_from_isa ds) raw = map_option result_of (chosen ds raw)"
  unfolding mask_search_def masks_from_isa_def sort_key_map find_map chosen_def result_of_def
  by (simp add: desc_mask_def split_def option.map_comp comp_def)

lemma chosen_Some:
  assumes "chosen ds raw = Some d"
  shows "d \<in> set ds \<and> matches (desc_mask d) raw
    \<and> (\<forall>e \<in> set ds. matches (desc_mask e) raw \<longrightarrow> count_ones (rv_mask e) \<le> count_ones (rv_mask d))"
proof -
  have le: "count_ones w \<le> 32" for w
    unfolding count_ones_def using length_filter_le [of "bit w" "[0..<32]"] by simp
  show ?thesis using find_sort_key [OF assms [unfolded chosen_def]] le
    unfolding count_zeros_def by (metis diff_le_mono2 diff_diff_cancel)
qed

lemma chosen_None: "chosen ds raw = None \<longleftrightarrow> (\<forall>d \<in> set ds. \<not> matches (desc_mask d) raw)"
  by (auto simp: chosen_def find_None_iff)

lemma recognize_view: "recognize_instr t raw = view t (get_opcode_f3_f7 raw)"
  by (simp add: recognize_instr_def view_def)

lemma matches_raw_of: "funct_form (rv_mask d) \<Longrightarrow> matches (desc_mask d) (raw_of (get_opcode_f3_f7 raw)) = matches (desc_mask d) raw"
  by (simp add: matches_def desc_mask_def raw_of_get funct_form_def)

lemma isa_ok_unique:
  assumes "isa_ok ds" "d \<in> set ds" "e \<in> set ds" "funct_form (rv_mask d)" "matches (desc_mask d) raw" "matches (desc_mask e) raw"
  shows "d = e"
proof (rule ccontr)
  assume "d \<noteq> e"
  then obtain i j where "i < length ds" "ds ! i = d" "j < length ds" "ds ! j = e" "i \<noteq> j"
    using assms(2,3) by (metis in_set_conv_nth)
  then show False using assms(1,4) clash_if_match [OF assms(5,6)] by (auto simp: isa_ok_def)
qed

lemma two_stage:
  assumes "isa_ok ds"
  shows "\<exists>t. split_isa ds table_new [] = Some (t, filter (\<lambda>d. \<not> funct_form (rv_mask d)) ds)
    \<and> (\<forall>raw. (case recognize_instr t raw of Some r \<Rightarrow> Some r
          | None \<Rightarrow> map_option result_of (chosen (filter (\<lambda>d. \<not> funct_form (rv_mask d)) ds) raw))
        = map_option result_of (chosen ds raw))"
proof -
  have new: "table_wf table_new" "view table_new k = None" for k
    by (cases k; simp add: table_wf_def table_new_def view_def lookup_slot_def)+
  obtain t where t: "split_isa ds table_new [] = Some (t, filter (\<lambda>d. \<not> funct_form (rv_mask d)) ds)"
      "\<forall>k. in_range k \<longrightarrow> view t k = (case find (\<lambda>d. funct_form (rv_mask d) \<and> matches (desc_mask d) (raw_of k)) ds of
        Some d \<Rightarrow> Some (result_of d) | None \<Rightarrow> None)"
    using split_isa_view [OF assms new(1) new(2), of "[]", unfolded new(2) append_Nil] by blast
  have rec: "recognize_instr t raw = map_option result_of (find (\<lambda>d. funct_form (rv_mask d) \<and> matches (desc_mask d) raw) ds)" for raw
  proof -
    have "(\<lambda>d. funct_form (rv_mask d) \<and> matches (desc_mask d) (raw_of (get_opcode_f3_f7 raw))) =
        (\<lambda>d. funct_form (rv_mask d) \<and> matches (desc_mask d) raw)" using matches_raw_of by blast
    then show ?thesis using spec [OF t(2), of "get_opcode_f3_f7 raw"] in_range_get
      by (simp add: recognize_view split: option.splits)
  qed
  have "(case recognize_instr t raw of Some r \<Rightarrow> Some r
      | None \<Rightarrow> map_option result_of (chosen (filter (\<lambda>d. \<not> funct_form (rv_mask d)) ds) raw)) = map_option result_of (chosen ds raw)" for raw
  proof (cases "find (\<lambda>d. funct_form (rv_mask d) \<and> matches (desc_mask d) raw) ds")
    case None
    then have "\<And>d. d \<in> set ds \<Longrightarrow> matches (desc_mask d) raw \<Longrightarrow> \<not> funct_form (rv_mask d)" by (auto simp: find_None_iff)
    then have "chosen (filter (\<lambda>d. \<not> funct_form (rv_mask d)) ds) raw = chosen ds raw"
      unfolding chosen_def filter_sort [symmetric] by (intro find_filter) simp
    then show ?thesis using None by (simp add: rec)
  next
    case (Some d)
    then have d: "d \<in> set ds" "funct_form (rv_mask d)" "matches (desc_mask d) raw" by (auto simp: find_Some_iff)
    then obtain e where e: "chosen ds raw = Some e" using chosen_None [of ds raw] by (cases "chosen ds raw") auto
    then have "d = e" using isa_ok_unique [OF assms d(1) _ d(2,3)] chosen_Some by blast
    then show ?thesis using Some e by (simp add: rec)
  qed
  then show ?thesis using t(1) by blast
qed

text \<open>
  C6.  Over any set of descriptions in which those that go to the table overlap no other one of their length, the
  decoder is built without a panic, and a raw instruction is decoded by the matching description of its
  length that fixes the most bits, with the operands of that description's format; it is not recognized only
  when no description of its length matches it.
\<close>

theorem decode_most_specific:
  assumes "isa_ok (filter (\<lambda>d. \<not> is_compressed d) instrs)"
  shows "\<exists>dec. from_isa instrs extensions = Some dec \<and> (\<forall>raw.
    let short = (instr_len raw = 2); ds = filter (\<lambda>d. is_compressed d = short) instrs in
    case chosen ds raw of
      None \<Rightarrow> decode dec raw = Some None \<and> (\<forall>d \<in> set ds. \<not> matches (desc_mask d) raw)
    | Some d \<Rightarrow>
        decode dec raw = map_option Some
          (finish_decode (if short then decode_compressed_info else decode_info) (instr_len raw) raw (rv_instr d, rv_format d))
        \<and> d \<in> set ds \<and> matches (desc_mask d) raw
        \<and> (\<forall>e \<in> set ds. matches (desc_mask e) raw \<longrightarrow> count_ones (rv_mask e) \<le> count_ones (rv_mask d)))"
proof -
  let ?long = "filter (\<lambda>d. \<not> is_compressed d) instrs" and ?c = "filter is_compressed instrs"
  obtain t where t: "split_isa ?long table_new [] = Some (t, filter (\<lambda>d. \<not> funct_form (rv_mask d)) ?long)"
      "\<And>raw. (case recognize_instr t raw of Some r \<Rightarrow> Some r
          | None \<Rightarrow> map_option result_of (chosen (filter (\<lambda>d. \<not> funct_form (rv_mask d)) ?long) raw))
        = map_option result_of (chosen ?long raw)"
    using two_stage [OF assms] by blast
  let ?dec = "\<lparr>funct_decoder = t, mask_decoder = masks_from_isa (filter (\<lambda>d. \<not> funct_form (rv_mask d)) ?long),
    compress_decoder = masks_from_isa ?c, extension_bits = extensions\<rparr>"
  have long: "decode ?dec raw = (case chosen ?long raw of None \<Rightarrow> Some None
      | Some d \<Rightarrow> map_option Some (finish_decode decode_info (instr_len raw) raw (result_of d)))" if "instr_len raw \<noteq> 2" for raw
    using that t(2) [of raw]
    by (cases "recognize_instr t raw"; cases "chosen ?long raw"; cases "chosen (filter (\<lambda>d. \<not> funct_form (rv_mask d)) ?long) raw")
       (auto simp: decode_def FunctDecoder_decode_def MaskDecoder_decode_def mask_search_chosen bind_eq_Some_conv
          split: option.splits bind_splits)
  have short: "decode ?dec raw = (case chosen ?c raw of None \<Rightarrow> Some None
      | Some d \<Rightarrow> map_option Some (finish_decode decode_compressed_info 2 raw (result_of d)))" if "instr_len raw = 2" for raw
    using that by (simp add: decode_def CompressedDecoder_decode_def mask_search_chosen split: option.splits)
  show ?thesis
  proof (intro exI conjI allI)
    show "from_isa instrs extensions = Some ?dec" using t(1) by (simp add: from_isa_def)
    fix raw
    show "let short = (instr_len raw = 2); ds = filter (\<lambda>d. is_compressed d = short) instrs in
      case chosen ds raw of
        None \<Rightarrow> decode ?dec raw = Some None \<and> (\<forall>d \<in> set ds. \<not> matches (desc_mask d) raw)
      | Some d \<Rightarrow>
          decode ?dec raw = map_option Some
            (finish_decode (if short then decode_compressed_info else decode_info) (instr_len raw) raw (rv_instr d, rv_format d))
          \<and> d \<in> set ds \<and> matches (desc_mask d) raw
          \<and> (\<forall>e \<in> set ds. matches (desc_mask e) raw \<longrightarrow> count_ones (rv_mask e) \<le> count_ones (rv_mask d))"
    proof (cases "instr_len raw = 2")
      case True
      then show ?thesis using short [OF True] chosen_Some [of ?c raw] chosen_None [of ?c raw]
        by (cases "chosen ?c raw") (auto simp: result_of_def)
    next
      case False
      then show ?thesis using long [OF False] chosen_Some [of ?long raw] chosen_None [of ?long raw]
        by (cases "chosen ?long raw") (auto simp: result_of_def)
    qed
  qed
qed

definition example_isa :: "RVInstrDesc list" where
  "example_isa =
     [\<lparr>rv_instr = Arith I_ADDI, rv_format = Fmt_I, rv_mask = 0x707F, rv_key = 0x13\<rparr>,
      \<lparr>rv_instr = Arith I_ADD, rv_format = Fmt_R, rv_mask = 0xFE00707F, rv_key = 0x33\<rparr>,
      \<lparr>rv_instr = System I_ECALL, rv_format = Fmt_None, rv_mask = 0xFFFFFFFF, rv_key = 0x73\<rparr>,
      \<lparr>rv_instr = CArith I_C_ADDI, rv_format = Fmt_CI, rv_mask = 0xE003, rv_key = 1\<rparr>,
      \<lparr>rv_instr = CArith I_C_NOP, rv_format = Fmt_CR, rv_mask = 0xEF83, rv_key = 1\<rparr>]"

theorem decode_most_specific_witness:
  "\<exists>dec. from_isa example_isa 0 = Some dec
     \<and> decode dec 0x00108093 = Some (Some \<lparr>dec_instr = Arith I_ADDI, dec_info = Info_I 1 1 1, dec_len = 4\<rparr>)
     \<and> map_option (map_option dec_instr) (decode dec 1) = Some (Some (CArith I_C_NOP))"
proof -
  have ok: "isa_ok (filter (\<lambda>d. \<not> is_compressed d) example_isa)"
    by (simp add: isa_ok_def example_isa_def is_compressed_def key_ok_def clash_def field_mask_def OPCODE_BITS_def F3_BITS_def
        F7_BITS_def All_less_Suc)
  have n: "count_zeros 0x707F = 22" "count_zeros 0xFE00707F = 15" "count_zeros 0xFFFFFFFF = 0" "count_zeros 0xE003 = 27" "count_zeros 0xEF83 = 22"
    by (simp_all add: count_zeros_def count_ones_def upt_conv_Cons)
  have c: "chosen (filter (\<lambda>d. is_compressed d = False) example_isa) 0x00108093 = Some (example_isa ! 0)"
    "chosen (filter (\<lambda>d. is_compressed d = True) example_isa) 1 = Some (example_isa ! 4)"
    by (simp_all add: chosen_def example_isa_def is_compressed_def n matches_def desc_mask_def)
  have f: "instr_len 0x00108093 \<noteq> 2" "instr_len 1 = 2"
    "finish_decode decode_info (instr_len 0x00108093) 0x00108093 (rv_instr (example_isa ! 0), rv_format (example_isa ! 0)) =
       Some \<lparr>dec_instr = Arith I_ADDI, dec_info = Info_I 1 1 1, dec_len = 4\<rparr>"
    "map_option dec_instr (finish_decode decode_compressed_info (instr_len 1) 1 (rv_instr (example_isa ! 4), rv_format (example_isa ! 4))) =
       Some (CArith I_C_NOP)"
    by (simp_all add: instr_len_def finish_decode_def example_isa_def decode_info_def imm_I_def reg_field_def sign_extend_def XLEN_def
        decode_compressed_info_def Let_def)
  obtain dec where dec: "from_isa example_isa 0 = Some dec" and "\<forall>raw.
      let short = (instr_len raw = 2); ds = filter (\<lambda>d. is_compressed d = short) example_isa in
      case chosen ds raw of
        None \<Rightarrow> decode dec raw = Some None \<and> (\<forall>d \<in> set ds. \<not> matches (desc_mask d) raw)
      | Some d \<Rightarrow>
          decode dec raw = map_option Some
            (finish_decode (if short then decode_compressed_info else decode_info) (instr_len raw) raw (rv_instr d, rv_format d))
          \<and> d \<in> set ds \<and> matches (desc_mask d) raw
          \<and> (\<forall>e \<in> set ds. matches (desc_mask e) raw \<longrightarrow> count_ones (rv_mask e) \<le> count_ones (rv_mask d))"
    using decode_most_specific [OF ok, of 0] by blast
  note all = spec [OF this(2), unfolded Let_def]
  have "decode dec 0x00108093 = Some (Some \<lparr>dec_instr = Arith I_ADDI, dec_info = Info_I 1 1 1, dec_len = 4\<rparr>)"
    using all [of "0x00108093"] f(1,3) c(1) by simp
  moreover have "map_option (map_option dec_instr) (decode dec 1) = Some (Some (CArith I_C_NOP))"
    using all [of 1] f(2,4) c(2) by (auto simp: option.map_comp comp_def)
  ultimately show ?thesis using dec by blast
qed

section \<open>Immediates\<close>

lemma numeral_masks:
  "(0x1F :: u32) = mask 5" "(0x3F :: u32) = mask 6" "(0xF :: u32) = mask 4" "(0xFF :: u32) = mask 8"
  "(0x3FF :: u32) = mask 10" "(0xFFF :: u32) = mask 12"
  by (simp_all add: mask_eq_exp_minus_1)

lemma bit_ucast_up: "bit (ucast (w :: u32) :: u64) n \<longleftrightarrow> bit w n"
  by (auto simp: bit_ucast_iff dest: bit_imp_le_length)

lemma bit_and_one: "bit (w AND 1) n \<longleftrightarrow> n = 0 \<and> bit w 0" for w :: "'a::len word"
  by (auto simp: bit_and_iff bit_1_iff)

lemma bit_extract:
  assumes "l \<le> r" "r < 32"
  shows "bit (extract_range (w :: u32) l r) n \<longleftrightarrow> n \<le> r - l \<and> bit w (l + n)"
  using assms by (auto simp: extract_range_eq bit_take_bit_iff bit_drop_bit_eq)

lemma bit_push_u32: "bit (push_bit m (w :: u32)) n \<longleftrightarrow> m \<le> n \<and> n < 32 \<and> bit w (n - m)"
  by (auto simp: bit_push_bit_iff)

lemma sign_widths:
  "bit (sign_extend v 12) k \<longleftrightarrow> k < 64 \<and> bit v (if k < 12 then k else 11)"
  "bit (sign_extend v 13) k \<longleftrightarrow> k < 64 \<and> bit v (if k < 13 then k else 12)"
  "bit (sign_extend v 21) k \<longleftrightarrow> k < 64 \<and> bit v (if k < 21 then k else 20)"
  "bit (sign_extend v 32) k \<longleftrightarrow> k < 64 \<and> bit v (if k < 32 then k else 31)"
  "bit (sign_extend v 9) k \<longleftrightarrow> k < 64 \<and> bit v (if k < 9 then k else 8)"
  by (simp_all add: bit_sign_extend)

lemmas imm_bits = sign_widths bit_ucast_up bit_or_iff bit_and_one bit_push_u32 bit_drop_bit_eq bit_and_iff bit_mask_iff

lemma imm_B_bit:
  "bit (imm_B raw) n \<longleftrightarrow> n < 64 \<and> (if n = 0 then False else if n \<le> 4 then bit raw (7 + n) else if n \<le> 10 then bit raw (20 + n)
     else if n = 11 then bit raw 7 else bit raw 31)"
  unfolding imm_B_def numeral_masks
  by (cases "n < 13"; cases "n = 12") (simp_all only: imm_bits, auto)

lemma imm_J_bit:
  "bit (imm_J raw) n \<longleftrightarrow> n < 64 \<and> (if n = 0 then False else if n \<le> 10 then bit raw (20 + n) else if n = 11 then bit raw 20
     else if n \<le> 19 then bit raw n else bit raw 31)"
  unfolding imm_J_def numeral_masks
  by (cases "n < 21"; cases "n = 20") (simp_all only: imm_bits, auto simp: bit_1_iff)

lemma imm_S_bit:
  "bit (imm_S raw) n \<longleftrightarrow> n < 64 \<and> (if n \<le> 4 then bit raw (7 + n) else if n \<le> 10 then bit raw (20 + n) else bit raw 31)"
  unfolding imm_S_def numeral_masks
  by (cases "n < 12"; cases "n = 11") (simp_all only: imm_bits, auto)

lemma imm_U_bit:
  "bit (imm_U raw) n \<longleftrightarrow> n < 64 \<and> (if n < 12 then False else if n \<le> 30 then bit raw n else bit raw 31)"
  unfolding imm_U_def
  by (cases "n < 32"; cases "n = 31") (simp_all only: imm_bits, auto)

lemma imm_I_bit:
  assumes "i \<notin> {Shift I_SRLI, Shift I_SRAI, Shift I_SRLIW, Shift I_SRAIW}"
  shows "bit (imm_I i raw) n \<longleftrightarrow> n < 64 \<and> (if n \<le> 10 then bit raw (20 + n) else bit raw 31)"
proof -
  have "imm_I i raw = sign_extend (ucast (drop_bit 20 raw AND 0xFFF)) 12"
    using assms by (auto simp: imm_I_def Let_def split: RiscvInstr.splits ShiftInstr.splits)
  then show ?thesis
    unfolding numeral_masks by (cases "n < 12"; cases "n = 11") (simp_all only: imm_bits, auto)
qed

lemma bit_extract_field:
  "bit (extract_field raw parts) n \<longleftrightarrow> n < 32 \<and> (\<exists>(hi, lo, src) \<in> set parts. lo \<le> n \<and> bit (extract_range raw src (src + hi - lo)) (n - lo))"
proof -
  define P where "P p \<longleftrightarrow> n < 32 \<and> (case p of (hi, lo, src) \<Rightarrow> lo \<le> n \<and> bit (extract_range raw src (src + hi - lo)) (n - lo))" for p
  define g where "g f p = (case p of (hi, lo, src) \<Rightarrow> f OR push_bit lo (extract_range raw src (src + hi - lo)))" for f :: u32 and p
  have g: "bit (g f p) n \<longleftrightarrow> bit f n \<or> P p" for f p
    by (cases p) (simp add: P_def g_def bit_or_iff bit_push_u32 conj_commute conj_left_commute)
  have "bit (foldl g f parts) n \<longleftrightarrow> bit f n \<or> (\<exists>p \<in> set parts. P p)" for f
    by (induction parts arbitrary: f) (simp_all add: g)
  moreover have "extract_field raw parts = foldl g 0 parts"
    by (simp add: extract_field_def g_def [abs_def])
  ultimately show ?thesis by (auto simp: P_def)
qed

lemma imm_CJ_bit:
  "bit (imm_CJ raw) n \<longleftrightarrow> n < 64 \<and> (if n = 0 then False else if n \<le> 3 then bit raw (2 + n) else if n = 4 then bit raw 11
     else if n = 5 then bit raw 2 else if n = 6 then bit raw 7 else if n = 7 then bit raw 6 else if n \<le> 9 then bit raw (1 + n)
     else if n = 10 then bit raw 8 else bit raw 12)"
proof -
  have "n \<in> {0, 1, 2, 3, 4, 5, 6, 7, 8, 9, 10, 11} \<or> 12 \<le> n"
    by (simp; presburger)
  then show ?thesis
    by (elim disjE insertE emptyE) (simp_all add: imm_CJ_def sign_ext_extract_def sign_widths bit_ucast_up bit_extract_field bit_extract numeral_2_eq_2 [symmetric])
qed

lemma imm_CB_bit:
  "bit (sign_ext_extract raw [(8, 8, 12), (4, 3, 10), (7, 6, 5), (2, 1, 3), (5, 5, 2)]) n \<longleftrightarrow> n < 64 \<and> (if n = 0 then False
     else if n \<le> 2 then bit raw (2 + n) else if n \<le> 4 then bit raw (7 + n) else if n = 5 then bit raw 2
     else if n \<le> 7 then bit raw (n - 1) else bit raw 12)"
proof -
  have "n \<in> {0, 1, 2, 3, 4, 5, 6, 7, 8} \<or> 9 \<le> n"
    by (simp; presburger)
  then show ?thesis
    by (elim disjE insertE emptyE) (simp_all add: sign_ext_extract_def sign_widths bit_ucast_up bit_extract_field bit_extract numeral_2_eq_2 [symmetric])
qed

text \<open>
  The immediates of the branch, jump, store, upper and register-immediate formats, and the targets of the
  compressed jumps and branches, are assembled bit by bit as the instruction formats prescribe and sign
  extended from their top bit.
\<close>

theorem immediate_fields:
  "(bit (imm_B raw) n \<longleftrightarrow> n < 64 \<and> (if n = 0 then False else if n \<le> 4 then bit raw (7 + n) else if n \<le> 10 then bit raw (20 + n)
     else if n = 11 then bit raw 7 else bit raw 31))
   \<and> (bit (imm_J raw) n \<longleftrightarrow> n < 64 \<and> (if n = 0 then False else if n \<le> 10 then bit raw (20 + n) else if n = 11 then bit raw 20
     else if n \<le> 19 then bit raw n else bit raw 31))
   \<and> (bit (imm_S raw) n \<longleftrightarrow> n < 64 \<and> (if n \<le> 4 then bit raw (7 + n) else if n \<le> 10 then bit raw (20 + n) else bit raw 31))
   \<and> (bit (imm_U raw) n \<longleftrightarrow> n < 64 \<and> (if n < 12 then False else if n \<le> 30 then bit raw n else bit raw 31))
   \<and> (bit (imm_I (Arith I_ADDI) raw) n \<longleftrightarrow> n < 64 \<and> (if n \<le> 10 then bit raw (20 + n) else bit raw 31))
   \<and> (bit (imm_CJ raw) n \<longleftrightarrow> n < 64 \<and> (if n = 0 then False else if n \<le> 3 then bit raw (2 + n) else if n = 4 then bit raw 11
     else if n = 5 then bit raw 2 else if n = 6 then bit raw 7 else if n = 7 then bit raw 6 else if n \<le> 9 then bit raw (1 + n)
     else if n = 10 then bit raw 8 else bit raw 12))
   \<and> map_option (\<lambda>v. bit v n) (imm_CB (CJump I_C_BEQZ) raw) = Some (n < 64 \<and> (if n = 0 then False
     else if n \<le> 2 then bit raw (2 + n) else if n \<le> 4 then bit raw (7 + n) else if n = 5 then bit raw 2
     else if n \<le> 7 then bit raw (n - 1) else bit raw 12))"
  by (intro conjI imm_B_bit imm_J_bit imm_S_bit imm_U_bit imm_I_bit imm_CJ_bit) (simp, simp only: imm_CB.simps option.map imm_CB_bit)

end
