(* ===== verification/HartDevices.thy ===== *)
theory HartDevices
  imports Executor
begin

text \<open>
  What the devices of a board keep, the whole hart keeps: an invariant of the device arena that every read, write
  and synchronisation of a device preserves holds after every instruction, interrupt and batch.  The hart reaches
  the devices through the memory map only, and never changes the map.
\<close>

section \<open>The contract of the devices\<close>

definition arena_inv :: "MemoryMapItem list \<Rightarrow> ('d list \<Rightarrow> bool) \<Rightarrow> 'd VirtAddrManager \<Rightarrow> bool" where
  "arena_inv M D vm \<longleftrightarrow> mmio_map (mmio vm) = M \<and> (\<exists>a. devices (mmio vm) = Some a \<and> D (arena_devices a))"

definition hart_inv :: "MemoryMapItem list \<Rightarrow> ('d list \<Rightarrow> bool) \<Rightarrow> ('d, 'x) RVCPU \<Rightarrow> bool" where
  "hart_inv M D cpu \<longleftrightarrow> arena_inv M D (memory cpu)"

lemma hart_inv_update [simp]:
  "hart_inv M D (cpu\<lparr>pc := p\<rparr>) = hart_inv M D cpu" "hart_inv M D (cpu\<lparr>pending_tval := t\<rparr>) = hart_inv M D cpu"
  "hart_inv M D (cpu\<lparr>csr := c\<rparr>) = hart_inv M D cpu" "hart_inv M D (cpu\<lparr>icache := ic\<rparr>) = hart_inv M D cpu"
  "hart_inv M D (cpu\<lparr>reg_file := rf\<rparr>) = hart_inv M D cpu" "hart_inv M D (cpu\<lparr>time_addr := ta\<rparr>) = hart_inv M D cpu"
  "hart_inv M D (flush_icache cpu) = hart_inv M D cpu" "hart_inv M D (flush_tlb cpu) = hart_inv M D cpu"
  by (simp_all add: hart_inv_def arena_inv_def flush_icache_def flush_tlb_def vm_flush_tlb_def)

lemma arena_inv_ram [simp]: "arena_inv M D (vm\<lparr>mmio := (mmio vm)\<lparr>ram := r\<rparr>\<rparr>) = arena_inv M D vm"
  by (simp add: arena_inv_def)

lemma keeps_at2: "(\<And>a b. keeps I (f a b)) \<Longrightarrow> keeps I (\<lambda>s. f (g s) (h s) s)"
  unfolding keeps_def by blast

lemma keeps_hart_frame:
  assumes "\<And>cpu r cpu'. f cpu = Some (r, cpu') \<Longrightarrow> memory cpu' = memory cpu"
  shows "keeps (hart_inv M D) f"
  using assms by (fastforce simp: keeps_def hart_inv_def)

section \<open>Operations that leave the memory alone\<close>

lemma on_csr_memory: "on_csr f cpu = Some cpu' \<Longrightarrow> memory cpu' = memory cpu"
  by (auto simp: on_csr_def)

lemma handle_irq_memory: "handle_irq nr level cpu = Some cpu' \<Longrightarrow> memory cpu' = memory cpu"
  by (cases nr) (auto dest: on_csr_memory)

lemma apply_irqs_memory: "apply_irqs evs cpu = Some cpu' \<Longrightarrow> memory cpu' = memory cpu"
  by (induction evs cpu rule: apply_irqs.induct) (auto simp: bind_eq_Some_conv dest: handle_irq_memory)

lemma trap_signal_memory:
  "send_trap_signal_m_mode cause v cpu = Some cpu' \<Longrightarrow> memory cpu' = memory cpu"
  "send_trap_signal_s_mode cause v cpu = Some cpu' \<Longrightarrow> memory cpu' = memory cpu"
  "mret cpu = Some cpu' \<Longrightarrow> memory cpu' = memory cpu" "sret cpu = Some cpu' \<Longrightarrow> memory cpu' = memory cpu"
  by (auto simp: send_trap_signal_m_mode_def send_trap_signal_s_mode_def mret_def sret_def write_pc_def bind_eq_Some_conv)

lemma try_send_trap_signal_memory: "try_send_trap_signal cause v cpu = Some (taken, cpu') \<Longrightarrow> memory cpu' = memory cpu"
  by (auto simp: try_send_trap_signal_def Let_def bind_eq_Some_conv dest: trap_signal_memory split: if_splits Trap.splits)

lemma take_trap_memory:
  "take_exception e v cpu = Some cpu' \<Longrightarrow> memory cpu' = memory cpu"
  "try_take_interrupt cpu = Some (taken, cpu') \<Longrightarrow> memory cpu' = memory cpu"
  by (auto simp: take_exception_def try_take_interrupt_def bind_eq_Some_conv dest: try_send_trap_signal_memory
      split: option.splits)

lemma increment_mcycle_memory: "increment_mcycle_by n cpu = Some cpu' \<Longrightarrow> memory cpu' = memory cpu"
  by (auto simp: increment_mcycle_by_def bind_eq_Some_conv)

lemma keeps_hart_small [keeps_rules]:
  "keeps (hart_inv M D) (write_reg i v)" "keeps (hart_inv M D) (retire np)" "keeps (hart_inv M D) (check_jump_alignment t)"
  "keeps (hart_inv M D) (count_unless_minstret a)" "keeps (hart_inv M D) count_instr" "keeps (hart_inv M D) advance_pc"
  "keeps (hart_inv M D) (require_write_priv a)"
  by (rule keeps_hart_frame; auto simp: write_reg_def retire_def write_pc_def check_jump_alignment_def count_unless_minstret_def
      count_instr_def advance_pc_def require_write_priv_def bind_eq_Some_conv dest: on_csr_memory split: if_splits)+

lemma apply_satp_hart: "hart_inv M D cpu \<Longrightarrow> apply_satp cpu = Some cpu' \<Longrightarrow> hart_inv M D cpu'"
  by (auto simp: apply_satp_def bind_eq_Some_conv hart_inv_def arena_inv_def flush_icache_def vm_set_mode_def
      vm_flush_tlb_def set_root_ppn_def)

lemma keeps_hart_write_csr [keeps_rules]: "keeps (hart_inv M D) (write_csr addr v)"
proof (rule keepsI)
  fix cpu r and cpu' :: "('a, 'b) RVCPU"
  assume "hart_inv M D cpu" "write_csr addr v cpu = Some (r, cpu')"
  then show "hart_inv M D cpu'"
    using apply_satp_hart [of M D "cpu\<lparr>csr := c\<rparr>" for c]
    by (auto simp: write_csr_def bind_eq_Some_conv split: if_splits)
qed

section \<open>Accesses to the devices\<close>

text \<open>A batch keeps what its instructions, its interrupt and its cycle counter keep.\<close>

lemma batch_loop_invariant:
  assumes "\<And>c c'. P c \<Longrightarrow> step_impl env c = Some c' \<Longrightarrow> P c'" "\<And>c c'. P c \<Longrightarrow> increment_mcycle c = Some c' \<Longrightarrow> P c'"
  shows "P cpu \<Longrightarrow> batch_loop env NoopExecutionHook n executed h cpu = Some (b, h', cpu') \<Longrightarrow> P cpu'"
proof (induction n arbitrary: executed h cpu)
  case (Suc n)
  then obtain cpu1 cpu2 where s: "step_impl env cpu = Some cpu1" "increment_mcycle cpu1 = Some cpu2"
      "batch_loop env NoopExecutionHook n (executed + 1) () cpu2 = Some (b, h', cpu')"
    by (auto simp: NoopExecutionHook_def bind_eq_Some_conv)
  show ?case by (rule Suc.IH [OF assms(2) [OF assms(1) [OF Suc.prems(1) s(1)] s(2)] s(3)])
qed simp

lemma step_batch_invariant:
  assumes step: "\<And>c c'. P c \<Longrightarrow> step_impl env c = Some c' \<Longrightarrow> P c'"
    and interrupt: "\<And>c taken c'. P c \<Longrightarrow> try_take_interrupt c = Some (taken, c') \<Longrightarrow> P c'"
    and count: "\<And>c c'. P c \<Longrightarrow> increment_mcycle c = Some c' \<Longrightarrow> P c'"
    and inv: "P cpu" and s: "step_batch env cycles cpu = Some cpu'"
  shows "P cpu'"
proof (cases "cycles = 0")
  case False
  have loop: "P c'" if "P c" "batch_loop env NoopExecutionHook n e h c = Some (b, h', c')" for n e h c b h' c'
    by (rule batch_loop_invariant [of P env, OF step count that])
  from False obtain taken cpu1 where t: "try_take_interrupt cpu = Some (taken, cpu1)"
    using s by (auto simp: step_batch_def step_batch_with_hook_def Let_def bind_eq_Some_conv)
  show ?thesis
  proof (cases taken)
    case None
    then show ?thesis using False s t loop [OF interrupt [OF inv t]]
      by (auto simp: step_batch_def step_batch_with_hook_def Let_def)
  next
    case (Some nr)
    then obtain cpu2 where c: "increment_mcycle cpu1 = Some cpu2"
        "map_option (\<lambda>(_, _, cpu). cpu) (batch_loop env NoopExecutionHook (unat cycles - 1) 1 () cpu2) = Some cpu'"
      using False s t by (auto simp: step_batch_def step_batch_with_hook_def Let_def NoopExecutionHook_def bind_eq_Some_conv)
    then show ?thesis using loop [OF count [OF interrupt [OF inv t] c(1)]] by auto
  qed
qed (use inv s in \<open>simp add: step_batch_def step_batch_with_hook_def\<close>)


locale device_contract =
  fixes ops :: "'d device_ops" and D :: "'d list \<Rightarrow> bool"
  assumes read_keeps: "D ds \<Longrightarrow> dev_read ops h ds r a n = Some (res, ds', r', evs) \<Longrightarrow> D ds'"
    and write_keeps: "D ds \<Longrightarrow> dev_write ops h ds r a n v = Some (res', ds', r', evs) \<Longrightarrow> D ds'"
    and sync_keeps: "D ds \<Longrightarrow> dev_sync ops h ds r = Some (ds', r', evs) \<Longrightarrow> D ds'"
begin

lemma read_by_type_inv:
  "arena_inv M D vm \<Longrightarrow> read_by_type ops p (mmio vm) = Some (r, io) \<Longrightarrow> arena_inv M D (vm\<lparr>mmio := io\<rparr>)"
  by (auto simp: arena_inv_def read_by_type_def read_from_device_def Let_def bind_eq_Some_conv dest: read_keeps
      split: if_splits result.splits)

lemma write_by_type_inv:
  "arena_inv M D vm \<Longrightarrow> write_by_type ops p v (mmio vm) = Some (r, io) \<Longrightarrow> arena_inv M D (vm\<lparr>mmio := io\<rparr>)"
  by (auto simp: arena_inv_def write_by_type_def write_to_device_def Let_def bind_eq_Some_conv dest: write_keeps
      split: if_splits result.splits prod.splits)

lemma keeps_arena_mmio [keeps_rules]:
  "keeps (arena_inv M D) (on_mmio (read_by_type ops p))" "keeps (arena_inv M D) (on_mmio (write_by_type ops p v))"
  unfolding keeps_def on_mmio_def using read_by_type_inv write_by_type_inv by auto

lemma keeps_arena_reservation [keeps_rules]:
  "keeps (arena_inv M D) (on_mmio (mmio_load_reserved p))"
  "keeps (arena_inv M D) (\<lambda>vm. map_option (\<lambda>(res, vm'). (res, vm_clear_reservation vm')) (on_mmio (mmio_store_conditional p v) vm))"
  "keeps (arena_inv M D) (\<lambda>vm. Some (q, vm_clear_reservation vm))"
  by (auto simp: keeps_def on_mmio_def arena_inv_def mmio_load_reserved_def mmio_store_conditional_def vm_clear_reservation_def
      mmio_clear_reservation_def split: if_splits prod.splits)

lemma keeps_arena_translate [keeps_rules]:
  "keeps (arena_inv M D) (vm_translate_vaddr va check effect)" "keeps (arena_inv M D) (translate_with_policy va pol)"
  by (cases pol; auto simp: keeps_def vm_translate_vaddr_def arena_inv_def)+

lemma keeps_arena_access [keeps_rules]:
  "keeps (arena_inv M D) (read_with_policy ops addr pol)" "keeps (arena_inv M D) (write_with_policy ops addr v pol)"
  "keeps (arena_inv M D) (load_reserved_with_policy addr pol)" "keeps (arena_inv M D) (store_conditional_with_policy addr v pol)"
  "keeps (arena_inv M D) (read_by_paddr ops addr)"
  unfolding read_with_policy_def write_with_policy_def load_reserved_with_policy_def
    store_conditional_with_policy_def read_by_paddr_def
  by (intro keeps_rules)+

lemma keeps_arena_amo [keeps_rules]: "keeps (arena_inv M D) (fetch_and_op_amo_with_policy addr rhs pol f)"
proof (rule keepsI)
  fix vm r and vm' :: "'d VirtAddrManager"
  assume "arena_inv M D vm" "fetch_and_op_amo_with_policy addr rhs pol f vm = Some (r, vm')"
  then show "arena_inv M D vm'"
    using keepsD [OF keeps_arena_translate(2)]
    by (fastforce simp: fetch_and_op_amo_with_policy_def split: option.splits prod.splits result.splits if_splits)
qed

lemma keeps_hart_on_memory [keeps_rules]:
  assumes "keeps (arena_inv M D) f"
  shows "keeps (hart_inv M D) (on_memory f)"
proof (rule keepsI)
  fix cpu r and cpu' :: "('d, 'e) RVCPU"
  assume inv: "hart_inv M D cpu" and m: "on_memory f cpu = Some (r, cpu')"
  then obtain vm where vm: "f (memory cpu) = Some (r, vm)" "drain_irqs (cpu\<lparr>memory := vm\<rparr>) = Some cpu'"
    by (auto simp: on_memory_def bind_eq_Some_conv)
  then have "arena_inv M D vm" using keepsD [OF assms] inv by (simp add: hart_inv_def)
  moreover have "memory cpu' = vm\<lparr>mmio := (mmio vm)\<lparr>irq_out := []\<rparr>\<rparr>"
    using vm(2) by (auto simp: drain_irqs_def Let_def dest: apply_irqs_memory)
  ultimately show "hart_inv M D cpu'" by (simp add: hart_inv_def arena_inv_def)
qed

lemma keeps_hart_data_access [keeps_rules]:
  assumes "\<And>pol. keeps (arena_inv M D) (f pol)"
  shows "keeps (hart_inv M D) (data_access access addr f)"
proof (rule keepsI)
  fix cpu r and cpu' :: "('d, 'e) RVCPU"
  assume inv: "hart_inv M D cpu" and d: "data_access access addr f cpu = Some (r, cpu')"
  then obtain pol q cpu1 where m: "on_memory (f pol) cpu = Some (q, cpu1)" "(r, cpu') = finish_memory_access addr q cpu1"
    by (auto simp: data_access_def bind_eq_Some_conv)
  have "hart_inv M D cpu1" by (rule keepsD [OF keeps_hart_on_memory [OF assms] inv m(1)])
  then show "hart_inv M D cpu'" using m(2) by (auto simp: finish_memory_access_def split: result.splits)
qed

lemma keeps_hart_access [keeps_rules]:
  "keeps (hart_inv M D) (cpu_read ops addr)" "keeps (hart_inv M D) (cpu_write ops addr v)"
  "keeps (hart_inv M D) (cpu_load_reserved addr)" "keeps (hart_inv M D) (cpu_store_conditional addr v)"
  unfolding cpu_read_def cpu_write_def cpu_load_reserved_def cpu_store_conditional_def by (intro keeps_rules)+

lemma keeps_hart_other [keeps_rules]:
  "keeps (hart_inv M D) (fetch_and_op_amo addr v f)" "keeps (hart_inv M D) (read_for_ifetch ops addr)"
  "keeps (hart_inv M D) (read_csr ops addr)"
  using keepsD [OF keeps_hart_on_memory [OF keeps_arena_amo]] keepsD [OF keeps_hart_on_memory [OF keeps_arena_access(1)]]
    keepsD [OF keeps_hart_on_memory [OF keeps_arena_access(5)]]
  unfolding keeps_def fetch_and_op_amo_def read_for_ifetch_def read_csr_def
  by (fastforce simp: bind_eq_Some_conv split: if_splits option.splits)+

lemma keeps_hart_at [keeps_rules]: "keeps (hart_inv M D) (\<lambda>cpu. retire (f cpu) cpu)"
  by (rule keeps_at) (rule keeps_hart_small)

lemma keeps_hart_exec [keeps_rules]:
  "keeps (hart_inv M D) f \<Longrightarrow> keeps (hart_inv M D) (normal_exec f)"
  "keeps (hart_inv M D) f \<Longrightarrow> keeps (hart_inv M D) (normal_compress_exec f)"
  unfolding normal_exec_def normal_compress_exec_def by (intro keeps_rules; assumption)+

lemma keeps_hart_memory [keeps_rules]:
  "keeps (hart_inv M D) (handle_load ops T sext rd addr)" "keeps (hart_inv M D) (handle_store ops U addr v)"
  unfolding handle_load_def handle_store_def by (intro keeps_rules)+

lemma keeps_hart_operand [keeps_rules]:
  "(\<And>v. keeps (hart_inv M D) (k v)) \<Longrightarrow> keeps (hart_inv M D) (csr_operand uimm rs1 k)"
  unfolding csr_operand_def by (intro keeps_rules; assumption?)

lemma keeps_hart_csr_instr [keeps_rules]:
  "keeps (hart_inv M D) (exec_csrw ops uimm info)" "keeps (hart_inv M D) (exec_csr_bit ops is_set uimm info)"
  unfolding exec_csrw_def exec_csr_bit_def Let_def by (cases info; simp only: RVInstrInfo.case; intro keeps_rules)+

lemma keeps_hart_jump_to [keeps_rules]:
  "keeps (hart_inv M D) (\<lambda>cpu. bind_q (check_jump_alignment (t cpu)) (\<lambda>_. bind_q (write_reg rd (l cpu)) (\<lambda>_. retire (t cpu))) cpu)"
  by (rule keeps_at2 [where f = "\<lambda>t l. bind_q (check_jump_alignment t) (\<lambda>_. bind_q (write_reg rd l) (\<lambda>_. retire t))"]) (intro keeps_rules)

lemma keeps_hart_branch_to [keeps_rules]:
  "keeps (hart_inv M D) (\<lambda>cpu. bind_q (check_jump_alignment (t cpu)) (\<lambda>_. retire (t cpu)) cpu)"
  by (rule keeps_at [where f = "\<lambda>t. bind_q (check_jump_alignment t) (\<lambda>_. retire t)"]) (intro keeps_rules)

lemma keeps_hart_link_to [keeps_rules]:
  "keeps (hart_inv M D) (\<lambda>cpu. bind_q (if link then write_reg 1 (l cpu) else ret_ok ()) (\<lambda>_. retire (t cpu)) cpu)"
  by (rule keeps_at2 [where f = "\<lambda>t l. bind_q (if link then write_reg 1 l else ret_ok ()) (\<lambda>_. retire t)"]) (intro keeps_rules)

lemma keeps_hart_auipc_to [keeps_rules]:
  "keeps (hart_inv M D) (\<lambda>cpu. bind_q (write_reg rd (l cpu)) (\<lambda>_ cpu. retire (n cpu) cpu) cpu)"
  by (rule keeps_at [where f = "\<lambda>l. bind_q (write_reg rd l) (\<lambda>_ cpu. retire (n cpu) cpu)"]) (intro keeps_rules)

lemma keeps_hart_jump [keeps_rules]:
  "keeps (hart_inv M D) (exec_jal info)" "keeps (hart_inv M D) (exec_jalr info)" "keeps (hart_inv M D) (exec_branch f info)"
  "keeps (hart_inv M D) (exec_auipc info)" "keeps (hart_inv M D) (exec_lui info)"
  "keeps (hart_inv M D) (exec_compress_jump link info)" "keeps (hart_inv M D) (exec_compress_jump_reg link info)"
  "keeps (hart_inv M D) (exec_compress_branch h info)"
  unfolding exec_jal_def exec_jalr_def exec_branch_def exec_auipc_def exec_lui_def exec_compress_jump_def
    exec_compress_jump_reg_def exec_compress_branch_def Let_def
  by (cases info; simp only: RVInstrInfo.case; intro keeps_rules)+

lemma keeps_hart_integer [keeps_rules]:
  "keeps (hart_inv M D) (exec_arith f info)" "keeps (hart_inv M D) (exec_load ops T sext info)" "keeps (hart_inv M D) (exec_store ops U info)"
  unfolding exec_arith_def exec_load_def exec_store_def
  by (cases info; simp only: RVInstrInfo.case; intro keeps_rules)+

lemma keeps_hart_nop [keeps_rules]: "keeps (hart_inv M D) (exec_nop info)" "keeps (hart_inv M D) (exec_compress_nop info)"
  unfolding exec_nop_def exec_compress_nop_def by (intro keeps_rules)+

lemma keeps_hart_atomic [keeps_rules]:
  "keeps (hart_inv M D) (exec_atomic_memory_operation f info)" "keeps (hart_inv M D) (exec_lr T sext info)" "keeps (hart_inv M D) (exec_sc U info)"
  unfolding exec_atomic_memory_operation_def exec_lr_def exec_sc_def
  by (cases info; simp only: RVInstrInfo.case; intro keeps_rules)+

lemma keeps_hart_compressed [keeps_rules]:
  "keeps (hart_inv M D) (exec_compress_arith f info)" "keeps (hart_inv M D) (exec_compress_load_sp ops T sext info)"
  "keeps (hart_inv M D) (exec_compress_load ops T sext info)" "keeps (hart_inv M D) (exec_compress_store_sp ops T info)"
  "keeps (hart_inv M D) (exec_compress_store ops T info)"
  "keeps (hart_inv M D) (exec_compress_mv info)" "keeps (hart_inv M D) (exec_compress_li info)" "keeps (hart_inv M D) (exec_addi4spn info)"
  unfolding exec_compress_arith_def exec_compress_load_sp_def exec_compress_load_def exec_compress_store_sp_def
    exec_compress_store_def exec_compress_mv_def exec_compress_li_def exec_addi4spn_def
  by (cases info; simp only: RVInstrInfo.case; intro keeps_rules)+

lemma keeps_hart_flush [keeps_rules]:
  "keeps (hart_inv M D) (\<lambda>cpu. retire (p cpu) (flush_tlb (flush_icache cpu)))"
  "keeps (hart_inv M D) (\<lambda>cpu. retire (p cpu) (flush_icache (flush_tlb cpu)))"
  by (rule keepsI, rule keepsD [OF keeps_hart_small(2), rotated], assumption, simp)+

lemma keeps_hart_privileged [keeps_rules]:
  "keeps (hart_inv M D) (exec_sfence_vma info)" "keeps (hart_inv M D) (exec_fence_i info)"
  "keeps (hart_inv M D) (exec_ecall info)" "keeps (hart_inv M D) (exec_ebreak info)" "keeps (hart_inv M D) (exec_illegal info)"
proof -
  show "keeps (hart_inv M D) (exec_sfence_vma info)" "keeps (hart_inv M D) (exec_fence_i info)"
    unfolding exec_sfence_vma_def exec_fence_i_def Let_def by (intro keeps_cond keeps_test keeps_rules)+
  show "keeps (hart_inv M D) (exec_ecall info)" "keeps (hart_inv M D) (exec_ebreak info)" "keeps (hart_inv M D) (exec_illegal info)"
    by (auto simp: keeps_def exec_ecall_def exec_ebreak_def exec_illegal_def ret_err_def split: PrivilegeLevel.splits)
qed

lemma keeps_hart_return [keeps_rules]: "keeps (hart_inv M D) (exec_mret info)" "keeps (hart_inv M D) (exec_sret info)"
  unfolding exec_mret_def exec_sret_def
  by (intro keeps_cond keeps_test keeps_rules; simp add: hart_inv_def trap_signal_memory)+

lemma keeps_hart_instr:
  assumes "\<And>i info. keeps (hart_inv M D) (ext i info)"
  shows "keeps (hart_inv M D) (get_exec_func ops ext i info)"
proof (cases i)
  case (Load x) then show ?thesis by (cases x; simp only: get_exec_func.simps exec_of_load.simps; intro keeps_rules)
next
  case (Store x) then show ?thesis by (cases x; simp only: get_exec_func.simps exec_of_store.simps; intro keeps_rules)
next
  case (System x) then show ?thesis by (cases x; simp only: get_exec_func.simps exec_of_system.simps; intro keeps_rules)
next
  case (Atomic x) then show ?thesis by (cases x; simp only: get_exec_func.simps exec_of_atomic.simps; intro keeps_rules)
next
  case (CArith x) then show ?thesis by (cases x; simp only: get_exec_func.simps exec_of_carith.simps; intro keeps_rules)
next
  case (CMem x) then show ?thesis by (cases x; simp only: get_exec_func.simps exec_of_cmem.simps; intro keeps_rules assms)
next
  case (CJump x) then show ?thesis by (cases x; simp only: get_exec_func.simps exec_of_cjump.simps; intro keeps_rules)
qed (simp_all only: get_exec_func.simps, (intro keeps_rules assms)+)

end

section \<open>Steps and batches\<close>

text \<open>A hart over these devices: its extension instructions, which are parameters, keep the invariant.\<close>

definition ext_keeps :: "MemoryMapItem list \<Rightarrow> ('d list \<Rightarrow> bool) \<Rightarrow> ('d, 'x) hart_env \<Rightarrow> bool" where
  "ext_keeps M D env \<longleftrightarrow> (\<forall>i info. keeps (hart_inv M D) (env_ext env i info))"

context device_contract
begin

lemma keeps_hart_fetch_half:
  fixes env :: "('d, 'x) hart_env"
  assumes "env_ops env = ops"
  shows "keeps (hart_inv M D) (fetch_half env addr)"
proof (rule keepsI)
  fix cpu r and cpu' :: "('d, 'x) RVCPU"
  assume inv: "hart_inv M D cpu" and f: "fetch_half env addr cpu = Some (r, cpu')"
  obtain q cpu1 where m: "read_for_ifetch ops addr cpu = Some (q :: (u16, MemError) result, cpu1)"
    using f assms by (auto simp: fetch_half_def bind_eq_Some_conv)
  then have "cpu' = cpu1" using f assms by (cases q) (auto simp: fetch_half_def bind_eq_Some_conv)
  then show "hart_inv M D cpu'" by (simp only: keepsD [OF keeps_hart_other(2) inv m])
qed

lemma keeps_hart_fetch:
  assumes "env_ops env = ops"
  shows "keeps (hart_inv M D) (ifetch_at env addr)" and "keeps (hart_inv M D) (ifetch env)"
proof -
  show k: "keeps (hart_inv M D) (ifetch_at env addr)" for addr
    unfolding ifetch_at_def Let_def by (intro keeps_rules keeps_hart_fetch_half assms)
  show "keeps (hart_inv M D) (ifetch env)" unfolding ifetch_def by (rule keeps_at) (rule k)
qed

lemma keeps_hart_decode:
  fixes env :: "('d, 'x) hart_env"
  assumes "env_ops env = ops"
  shows "keeps (hart_inv M D) (decode_at_checked env addr)"
proof (rule keepsI)
  fix cpu r and cpu' :: "('d, 'x) RVCPU"
  assume inv: "hart_inv M D cpu" and d: "decode_at_checked env addr cpu = Some (r, cpu')"
  obtain hit ic where c: "Cache_get (direct_get 1 8192) (icache cpu) addr = (hit, ic)" by force
  have k: "keeps (hart_inv M D) (\<lambda>cpu :: ('d, 'x) RVCPU. case env_decode env raw of
      None \<Rightarrow> Some (Err \<lparr>ex_cause = Ex_IllegalInstruction, ex_tval = ucast raw\<rparr>, cpu)
    | Some decoded \<Rightarrow> Some (Ok decoded, icache_put addr decoded cpu))" for raw
    by (rule keepsI) (auto simp: icache_put_def split: option.splits)
  show "hart_inv M D cpu'"
  proof (cases hit)
    case (Some v)
    then show ?thesis using d c inv by (auto simp: decode_at_checked_def)
  next
    case None
    show ?thesis
      by (rule keepsD [OF keeps_bind [OF keeps_hart_fetch(1) [OF assms] k], of "cpu\<lparr>icache := ic\<rparr>"])
        (use d c None inv in \<open>simp_all add: decode_at_checked_def\<close>)
  qed
qed

lemma finish_execute_hart:
  fixes env :: "('d, 'x) hart_env"
  assumes env: "env_ops env = ops" and "hart_inv M D cpu" "finish_execute env rst cpu = Some cpu'"
  shows "hart_inv M D cpu'"
proof (cases "rst = Err Ex_IllegalInstruction")
  case True
  obtain q cpu1 where q: "ifetch env cpu = Some (q, cpu1)"
    using True assms(3) by (auto simp: finish_execute_def bind_eq_Some_conv)
  have "hart_inv M D cpu1" by (rule keepsD [OF keeps_hart_fetch(2) [OF env] assms(2) q])
  moreover have "memory cpu' = memory cpu1"
    using True assms(3) q take_trap_memory(1) by (cases q) (auto simp: finish_execute_def)
  ultimately show ?thesis by (simp add: hart_inv_def)
next
  case False
  then have "memory cpu' = memory cpu"
    using assms(3) by (auto simp: finish_execute_def Let_def dest: take_trap_memory split: result.splits if_splits)
  then show ?thesis using assms(2) by (simp add: hart_inv_def)
qed

lemma step_hart:
  fixes env :: "('d, 'x) hart_env"
  assumes env: "env_ops env = ops" "ext_keeps M D env" and "hart_inv M D cpu" "step_impl env cpu = Some cpu'"
  shows "hart_inv M D cpu'"
proof -
  have frame: "hart_inv M D c'" if "hart_inv M D c" "memory c' = memory c" for c c' :: "('d, 'x) RVCPU"
    using that by (simp add: hart_inv_def)
  obtain d cpu1 where d: "decode_at_checked env (pc cpu) cpu = Some (d, cpu1)"
    using assms(4) by (auto simp: step_impl_def bind_eq_Some_conv)
  have inv: "hart_inv M D cpu1" by (rule keepsD [OF keeps_hart_decode [OF env(1)] assms(3) d])
  show ?thesis
  proof (cases d)
    case (Err e)
    then show ?thesis using assms(4) d frame [OF inv] by (auto simp: step_impl_def dest: take_trap_memory)
  next
    case (Ok v)
    then obtain rst cpu2 cpu3 where e: "get_exec_func ops (env_ext env) (dec_instr v) (dec_info v) cpu1 = Some (rst, cpu2)"
        "cpu3 = cpu2\<lparr>reg_file := (reg_file cpu2)[0 := 0]\<rparr>" "finish_execute env rst cpu3 = Some cpu'"
      using assms(4) d env(1) by (auto simp: step_impl_def execute_def bind_eq_Some_conv split: if_splits)
    have k: "keeps (hart_inv M D) (get_exec_func ops (env_ext env) (dec_instr v) (dec_info v))"
      by (rule keeps_hart_instr) (use env(2) in \<open>simp add: ext_keeps_def\<close>)
    have inv3: "hart_inv M D cpu3" using keepsD [OF k inv e(1)] e(2) by simp
    then show ?thesis using e(3) by (rule finish_execute_hart [OF env(1)])
  qed
qed

lemma step_batch_hart:
  fixes cpu cpu' :: "('d, 'x) RVCPU"
  assumes env: "env_ops env = ops" "ext_keeps M D env" and inv: "hart_inv M D cpu" and s: "step_batch env cycles cpu = Some cpu'"
  shows "hart_inv M D cpu'"
proof (rule step_batch_invariant [of "hart_inv M D", OF step_hart [OF env] _ _ inv s])
  fix c c' :: "('d, 'x) RVCPU" and taken
  assume "hart_inv M D c" "try_take_interrupt c = Some (taken, c')"
  then show "hart_inv M D c'" using take_trap_memory(2) by (fastforce simp: hart_inv_def)
next
  fix c c' :: "('d, 'x) RVCPU"
  assume "hart_inv M D c" "increment_mcycle c = Some c'"
  then show "hart_inv M D c'" using increment_mcycle_memory by (fastforce simp: hart_inv_def increment_mcycle_def)
qed

lemma sync_items_inv:
  "arena_inv M D vm \<Longrightarrow> sync_items ops items (mmio vm) = Some io \<Longrightarrow> arena_inv M D (vm\<lparr>mmio := io\<rparr>)"
proof (induction items arbitrary: vm)
  case Nil
  then show ?case by (simp add: arena_inv_def)
next
  case (Cons item items)
  then obtain a ds r evs where a: "devices (mmio vm) = Some a" "D (arena_devices a)"
      "dev_sync ops (item_device item) (arena_devices a) (ram (mmio vm)) = Some (ds, r, evs)"
      "sync_items ops items ((mmio vm)\<lparr>ram := r, devices := Some (a\<lparr>arena_devices := ds\<rparr>), irq_out := irq_out (mmio vm) @ evs\<rparr>) = Some io"
    by (auto simp: arena_inv_def bind_eq_Some_conv)
  have "arena_inv M D (vm\<lparr>mmio := (mmio vm)\<lparr>ram := r, devices := Some (a\<lparr>arena_devices := ds\<rparr>), irq_out := irq_out (mmio vm) @ evs\<rparr>\<rparr>)"
    using Cons.prems(1) sync_keeps [OF a(2,3)] by (simp add: arena_inv_def)
  from Cons.IH [OF this] show ?case using a(4) by simp
qed

lemma power_off_hart: "hart_inv M D cpu \<Longrightarrow> power_off ops cpu = Some cpu' \<Longrightarrow> hart_inv M D cpu'"
  using sync_items_inv [of M "memory cpu"]
  by (fastforce simp: power_off_def vm_sync_def mmio_sync_def drain_irqs_def Let_def bind_eq_Some_conv hart_inv_def arena_inv_def
      dest: apply_irqs_memory)

end

end
