(* ===== verification/Plic.thy ===== *)
theory Plic
  imports Mmio "HOL-Library.Product_Lexorder"
begin

unbundle bit_operations_syntax

text \<open>
  The platform-level interrupt controller, \<open>src/device/plic/types.rs\<close> and \<open>src/device/plic/mod.rs\<close>.

  The set of claimed sources is a \<open>BitSet\<close> of the \<open>bit_set\<close> package; its operations are the argument
  \<open>bs\<close> of the operations that use it, and \<open>bitset_laws\<close> states what its documentation promises.  The
  sampling of a peripheral, \<open>PlicDevice::irq_level\<close>, is the argument \<open>poll\<close>: it is given the handle of
  the device, all devices and the memory.
\<close>

section \<open>Registers\<close>

abbreviation (input) VIRT_MAX_INTERRUPTS :: nat where "VIRT_MAX_INTERRUPTS \<equiv> 64"
abbreviation (input) VIRT_MAX_CONTEXTS :: nat where "VIRT_MAX_CONTEXTS \<equiv> 16"
abbreviation (input) INTERRUPTS_PER_REGISTER :: nat where "INTERRUPTS_PER_REGISTER \<equiv> 32"
abbreviation (input) PLIC_INTERRUPT_WORDS :: nat where "PLIC_INTERRUPT_WORDS \<equiv> 2"
abbreviation (input) REGISTER_BYTES :: u64 where "REGISTER_BYTES \<equiv> 4"
abbreviation (input) INTERRUPT_SOURCE_ZERO :: u32 where "INTERRUPT_SOURCE_ZERO \<equiv> 0"
abbreviation (input) NO_PENDING_INTERRUPT :: u32 where "NO_PENDING_INTERRUPT \<equiv> 0"
abbreviation (input) PENDING_BIT_OFFSET :: u64 where "PENDING_BIT_OFFSET \<equiv> 0x1000"
abbreviation (input) CONTEXT_ENABLE_BIT_OFFSET :: u64 where "CONTEXT_ENABLE_BIT_OFFSET \<equiv> 0x2000"
abbreviation (input) CONTEXT_ENABLE_BIT_SIZE :: u64 where "CONTEXT_ENABLE_BIT_SIZE \<equiv> 0x80"
abbreviation (input) CONTEXT_CONFIG_OFFSET :: u64 where "CONTEXT_CONFIG_OFFSET \<equiv> 0x200000"
abbreviation (input) CONTEXT_CONFIG_SIZE :: u64 where "CONTEXT_CONFIG_SIZE \<equiv> 0x1000"
abbreviation (input) PLIC_SIZE :: u64 where "PLIC_SIZE \<equiv> 0x4000000"

type_synonym PeriphIrqId = u32
type_synonym PLICBitReg = "u32 list"

record PLICContext =
  enable :: PLICBitReg
  priority_threshold :: u32

datatype PlicRegister =
    PlicPriority PeriphIrqId
  | PlicPending nat
  | PlicEnable nat nat
  | PlicThreshold nat
  | PlicClaimComplete nat

definition interrupt_word_and_mask :: "PeriphIrqId \<Rightarrow> nat \<times> u32" where
  "interrupt_word_and_mask interrupt_id =
     (unat interrupt_id div INTERRUPTS_PER_REGISTER, push_bit (unat interrupt_id mod INTERRUPTS_PER_REGISTER) 1)"

definition bitreg_set :: "PeriphIrqId \<Rightarrow> PLICBitReg \<Rightarrow> PLICBitReg option" where
  "bitreg_set interrupt_id bits =
     (let (index, m) = interrupt_word_and_mask interrupt_id in
      do { w \<leftarrow> nth_opt bits index; upd_opt bits index (w OR m) })"

definition bitreg_clear :: "PeriphIrqId \<Rightarrow> PLICBitReg \<Rightarrow> PLICBitReg option" where
  "bitreg_clear interrupt_id bits =
     (let (index, m) = interrupt_word_and_mask interrupt_id in
      do { w \<leftarrow> nth_opt bits index; upd_opt bits index (w AND NOT m) })"

definition bitreg_get :: "PeriphIrqId \<Rightarrow> PLICBitReg \<Rightarrow> bool option" where
  "bitreg_get interrupt_id bits =
     (let (index, m) = interrupt_word_and_mask interrupt_id in
      do { w \<leftarrow> nth_opt bits index; Some (w AND m \<noteq> 0) })"

definition bitreg_take :: "PeriphIrqId \<Rightarrow> PLICBitReg \<Rightarrow> (bool \<times> PLICBitReg) option" where
  "bitreg_take interrupt_id bits =
     (let (index, m) = interrupt_word_and_mask interrupt_id in
      do { old \<leftarrow> nth_opt bits index;
           bits' \<leftarrow> upd_opt bits index (old AND NOT m);
           Some (old AND m \<noteq> 0, bits') })"

section \<open>The claimed sources\<close>

record 'b BitSet =
  bs_new :: 'b
  bs_contains :: "'b \<Rightarrow> nat \<Rightarrow> bool"
  bs_insert :: "'b \<Rightarrow> nat \<Rightarrow> 'b"
  bs_remove :: "'b \<Rightarrow> nat \<Rightarrow> bool \<times> 'b"

definition bitset_laws :: "'b BitSet \<Rightarrow> bool" where
  "bitset_laws bs \<longleftrightarrow>
     (\<forall>i. \<not> bs_contains bs (bs_new bs) i)
     \<and> (\<forall>s i j. bs_contains bs (bs_insert bs s i) j \<longleftrightarrow> i = j \<or> bs_contains bs s j)
     \<and> (\<forall>s i. fst (bs_remove bs s i) = bs_contains bs s i)
     \<and> (\<forall>s i j. bs_contains bs (snd (bs_remove bs s i)) j \<longleftrightarrow> i \<noteq> j \<and> bs_contains bs s j)"

section \<open>Arbitration\<close>

record 'b PLICLayout =
  priority :: "u32 list"
  pending :: PLICBitReg
  source_level :: PLICBitReg
  contexts :: "PLICContext list"
  priority_order :: "PeriphIrqId list"
  interrupt_sources_busy :: 'b

definition PLICContext_new :: PLICContext where
  "PLICContext_new = \<lparr>enable = replicate PLIC_INTERRUPT_WORDS 0, priority_threshold = 0\<rparr>"

definition PLICLayout_new :: "'b BitSet \<Rightarrow> 'b PLICLayout" where
  "PLICLayout_new bs =
     \<lparr>priority = replicate VIRT_MAX_INTERRUPTS 0, pending = replicate PLIC_INTERRUPT_WORDS 0,
      source_level = replicate PLIC_INTERRUPT_WORDS 0, contexts = replicate VIRT_MAX_CONTEXTS PLICContext_new,
      priority_order = map of_nat [0..<VIRT_MAX_INTERRUPTS], interrupt_sources_busy = bs_new bs\<rparr>"

definition is_valid_interrupt_id :: "PeriphIrqId \<Rightarrow> bool" where
  "is_valid_interrupt_id interrupt_id \<longleftrightarrow>
     interrupt_id \<noteq> INTERRUPT_SOURCE_ZERO \<and> unat interrupt_id < VIRT_MAX_INTERRUPTS"

text \<open>\<open>Reverse\<close> of an unsigned key is its complement.\<close>

definition priority_key :: "u32 list \<Rightarrow> PeriphIrqId \<Rightarrow> u32 \<times> u32" where
  "priority_key prio interrupt_id = (NOT (prio ! unat interrupt_id), interrupt_id)"

definition sort_priority_order :: "'b PLICLayout \<Rightarrow> 'b PLICLayout option" where
  "sort_priority_order l =
     (if \<forall>i \<in> set (priority_order l). unat i < length (priority l)
      then Some (l\<lparr>priority_order := sort_key (priority_key (priority l)) (priority_order l)\<rparr>)
      else None)"

definition write_priority :: "PeriphIrqId \<Rightarrow> u32 \<Rightarrow> 'b PLICLayout \<Rightarrow> 'b PLICLayout option" where
  "write_priority interrupt_id v l =
     do { old \<leftarrow> nth_opt (priority l) (unat interrupt_id);
          if v \<noteq> old then
            do { p \<leftarrow> upd_opt (priority l) (unat interrupt_id) v; sort_priority_order (l\<lparr>priority := p\<rparr>) }
          else Some l }"

definition set_source_level :: "'b BitSet \<Rightarrow> PeriphIrqId \<Rightarrow> bool \<Rightarrow> 'b PLICLayout \<Rightarrow> 'b PLICLayout option" where
  "set_source_level bs interrupt_id level l =
     (if level then
        do { sl \<leftarrow> bitreg_set interrupt_id (source_level l);
             p \<leftarrow> bitreg_get interrupt_id (pending l);
             if \<not> p \<and> \<not> bs_contains bs (interrupt_sources_busy l) (unat interrupt_id) then
               do { pend \<leftarrow> bitreg_set interrupt_id (pending l); Some (l\<lparr>source_level := sl, pending := pend\<rparr>) }
             else Some (l\<lparr>source_level := sl\<rparr>) }
      else
        do { sl \<leftarrow> bitreg_clear interrupt_id (source_level l); Some (l\<lparr>source_level := sl\<rparr>) })"

definition write_enable_word :: "nat \<Rightarrow> nat \<Rightarrow> u32 \<Rightarrow> 'b PLICLayout \<Rightarrow> 'b PLICLayout option" where
  "write_enable_word context_id word_index v l =
     (let (zero_word, zero_mask) = interrupt_word_and_mask INTERRUPT_SOURCE_ZERO;
          v = (if word_index = zero_word then v AND NOT zero_mask else v) in
      do { c \<leftarrow> nth_opt (contexts l) context_id;
           e \<leftarrow> upd_opt (enable c) word_index v;
           cs \<leftarrow> upd_opt (contexts l) context_id (c\<lparr>enable := e\<rparr>);
           Some (l\<lparr>contexts := cs\<rparr>) })"

definition is_enabled :: "nat \<Rightarrow> PeriphIrqId \<Rightarrow> 'b PLICLayout \<Rightarrow> bool option" where
  "is_enabled context_id interrupt_id l =
     do { c \<leftarrow> nth_opt (contexts l) context_id; bitreg_get interrupt_id (enable c) }"

definition write_priority_threshold :: "nat \<Rightarrow> u32 \<Rightarrow> 'b PLICLayout \<Rightarrow> 'b PLICLayout option" where
  "write_priority_threshold context_id v l =
     do { c \<leftarrow> nth_opt (contexts l) context_id;
          cs \<leftarrow> upd_opt (contexts l) context_id (c\<lparr>priority_threshold := v\<rparr>);
          Some (l\<lparr>contexts := cs\<rparr>) }"

fun find_in_order ::
  "'b BitSet \<Rightarrow> 'b PLICLayout \<Rightarrow> nat \<Rightarrow> bool \<Rightarrow> u32 \<Rightarrow> PeriphIrqId list \<Rightarrow> PeriphIrqId option option" where
  "find_in_order bs l context_id apply_threshold threshold [] = Some None"
| "find_in_order bs l context_id apply_threshold threshold (interrupt_id # ids) =
     (if interrupt_id = INTERRUPT_SOURCE_ZERO then find_in_order bs l context_id apply_threshold threshold ids
      else
        do { prio \<leftarrow> nth_opt (priority l) (unat interrupt_id);
             if prio = 0 then Some None
             else if apply_threshold \<and> prio \<le> threshold then
               find_in_order bs l context_id apply_threshold threshold ids
             else if bs_contains bs (interrupt_sources_busy l) (unat interrupt_id) then
               find_in_order bs l context_id apply_threshold threshold ids
             else
               do { en \<leftarrow> is_enabled context_id interrupt_id l;
                    hit \<leftarrow> (if en then bitreg_get interrupt_id (pending l) else Some False);
                    if hit then Some (Some interrupt_id)
                    else find_in_order bs l context_id apply_threshold threshold ids } })"

definition find_pending_interrupt ::
  "'b BitSet \<Rightarrow> nat \<Rightarrow> bool \<Rightarrow> 'b PLICLayout \<Rightarrow> PeriphIrqId option option" where
  "find_pending_interrupt bs context_id apply_threshold l =
     do { c \<leftarrow> nth_opt (contexts l) context_id;
          find_in_order bs l context_id apply_threshold (priority_threshold c) (priority_order l) }"

definition read_claim :: "'b BitSet \<Rightarrow> nat \<Rightarrow> 'b PLICLayout \<Rightarrow> (PeriphIrqId \<times> 'b PLICLayout) option" where
  "read_claim bs context_id l =
     do { found \<leftarrow> find_pending_interrupt bs context_id False l;
          case found of
            None \<Rightarrow> Some (NO_PENDING_INTERRUPT, l)
          | Some interrupt_id \<Rightarrow>
              do { (_, pend) \<leftarrow> bitreg_take interrupt_id (pending l);
                   Some (interrupt_id,
                     l\<lparr>pending := pend, interrupt_sources_busy := bs_insert bs (interrupt_sources_busy l) (unat interrupt_id)\<rparr>) } }"

definition write_complete :: "'b BitSet \<Rightarrow> nat \<Rightarrow> PeriphIrqId \<Rightarrow> 'b PLICLayout \<Rightarrow> 'b PLICLayout option" where
  "write_complete bs context_id interrupt_id l =
     (if \<not> is_valid_interrupt_id interrupt_id then Some l
      else
        do { en \<leftarrow> is_enabled context_id interrupt_id l;
             if \<not> en then Some l
             else
               let (removed, busy) = bs_remove bs (interrupt_sources_busy l) (unat interrupt_id);
                   l = l\<lparr>interrupt_sources_busy := busy\<rparr> in
               if removed then
                 do { high \<leftarrow> bitreg_get interrupt_id (source_level l);
                      if high then do { pend \<leftarrow> bitreg_set interrupt_id (pending l); Some (l\<lparr>pending := pend\<rparr>) }
                      else Some l }
               else Some l })"

section \<open>Memory-mapped access\<close>

definition decode_register :: "u64 \<Rightarrow> PlicRegister option" where
  "decode_register inner_addr =
     (if inner_addr mod REGISTER_BYTES \<noteq> 0 then None
      else if inner_addr < PENDING_BIT_OFFSET then
        (let interrupt_id = ucast (inner_addr div REGISTER_BYTES) in
         if is_valid_interrupt_id interrupt_id then Some (PlicPriority interrupt_id) else None)
      else if inner_addr < CONTEXT_ENABLE_BIT_OFFSET then
        (let word_index = unat ((inner_addr - PENDING_BIT_OFFSET) div REGISTER_BYTES) in
         if word_index < PLIC_INTERRUPT_WORDS then Some (PlicPending word_index) else None)
      else if inner_addr < CONTEXT_CONFIG_OFFSET then
        (let context_id = unat ((inner_addr - CONTEXT_ENABLE_BIT_OFFSET) div CONTEXT_ENABLE_BIT_SIZE);
             word_index = unat ((inner_addr - CONTEXT_ENABLE_BIT_OFFSET) mod CONTEXT_ENABLE_BIT_SIZE div REGISTER_BYTES) in
         if context_id < VIRT_MAX_CONTEXTS \<and> word_index < PLIC_INTERRUPT_WORDS
         then Some (PlicEnable context_id word_index) else None)
      else if inner_addr < PLIC_SIZE then
        (let context_id = unat ((inner_addr - CONTEXT_CONFIG_OFFSET) div CONTEXT_CONFIG_SIZE);
             register_index = unat ((inner_addr - CONTEXT_CONFIG_OFFSET) mod CONTEXT_CONFIG_SIZE div REGISTER_BYTES) in
         if VIRT_MAX_CONTEXTS \<le> context_id then None
         else if register_index = 0 then Some (PlicThreshold context_id)
         else if register_index = 1 then Some (PlicClaimComplete context_id)
         else None)
      else None)"

fun read_register :: "'b BitSet \<Rightarrow> PlicRegister \<Rightarrow> 'b PLICLayout \<Rightarrow> (u32 \<times> 'b PLICLayout) option" where
  "read_register bs (PlicPriority interrupt_id) l = map_option (\<lambda>v. (v, l)) (nth_opt (priority l) (unat interrupt_id))"
| "read_register bs (PlicPending word_index) l = map_option (\<lambda>v. (v, l)) (nth_opt (pending l) word_index)"
| "read_register bs (PlicEnable context_id word_index) l =
     do { c \<leftarrow> nth_opt (contexts l) context_id; v \<leftarrow> nth_opt (enable c) word_index; Some (v, l) }"
| "read_register bs (PlicThreshold context_id) l =
     do { c \<leftarrow> nth_opt (contexts l) context_id; Some (priority_threshold c, l) }"
| "read_register bs (PlicClaimComplete context_id) l = read_claim bs context_id l"

fun write_register :: "'b BitSet \<Rightarrow> PlicRegister \<Rightarrow> u32 \<Rightarrow> 'b PLICLayout \<Rightarrow> 'b PLICLayout option" where
  "write_register bs (PlicPriority interrupt_id) v l = write_priority interrupt_id v l"
| "write_register bs (PlicEnable context_id word_index) v l = write_enable_word context_id word_index v l"
| "write_register bs (PlicThreshold context_id) v l = write_priority_threshold context_id v l"
| "write_register bs (PlicClaimComplete context_id) v l = write_complete bs context_id v l"
| "write_register bs (PlicPending _) v l = Some l"

record 'b PLIC =
  layout :: "'b PLICLayout"
  riscv_irq_line :: "Interrupt option list"
  riscv_irq_level :: "bool option list"
  peripheral_irq_devices :: "ErasedDeviceHandle option list"

definition PLIC_new :: "'b BitSet \<Rightarrow> 'b PLIC" where
  "PLIC_new bs =
     \<lparr>layout = PLICLayout_new bs, riscv_irq_line = replicate VIRT_MAX_CONTEXTS None,
      riscv_irq_level = replicate VIRT_MAX_CONTEXTS None, peripheral_irq_devices = replicate VIRT_MAX_INTERRUPTS None\<rparr>"

type_synonym 'd poll = "ErasedDeviceHandle \<Rightarrow> 'd list \<Rightarrow> Ram \<Rightarrow> (bool \<times> 'd list) option"

fun sync_levels ::
  "'b BitSet \<Rightarrow> 'd poll \<Rightarrow> Ram \<Rightarrow> nat \<Rightarrow> ErasedDeviceHandle option list \<Rightarrow> 'b PLICLayout \<times> 'd list
    \<Rightarrow> ('b PLICLayout \<times> 'd list) option" where
  "sync_levels bs poll r interrupt_id [] (l, ds) = Some (l, ds)"
| "sync_levels bs poll r interrupt_id (None # hs) (l, ds) = sync_levels bs poll r (Suc interrupt_id) hs (l, ds)"
| "sync_levels bs poll r interrupt_id (Some h # hs) (l, ds) =
     do { (level, ds) \<leftarrow> poll h ds r;
          l \<leftarrow> set_source_level bs (of_nat interrupt_id) level l;
          sync_levels bs poll r (Suc interrupt_id) hs (l, ds) }"

definition sync_peripheral_irq_levels ::
  "'b BitSet \<Rightarrow> 'd poll \<Rightarrow> Ram \<Rightarrow> 'b PLIC \<times> 'd list \<Rightarrow> ('b PLIC \<times> 'd list) option" where
  "sync_peripheral_irq_levels bs poll r = (\<lambda>(p, ds).
     do { (l, ds) \<leftarrow> sync_levels bs poll r 0 (peripheral_irq_devices p) (layout p, ds);
          Some (p\<lparr>layout := l\<rparr>, ds) })"

fun is_claim :: "PlicRegister \<Rightarrow> bool" where
  "is_claim (PlicClaimComplete _) = True"
| "is_claim _ = False"

definition PLIC_read_impl ::
  "'b BitSet \<Rightarrow> 'd poll \<Rightarrow> Ram \<Rightarrow> nat \<Rightarrow> u64 \<Rightarrow> ('b PLIC \<times> 'd list, u32, MemError) prog" where
  "PLIC_read_impl bs poll r len inner_addr s =
     (if len \<noteq> 4 then Some (Err LoadFault, s)
      else
        case decode_register inner_addr of
          None \<Rightarrow> Some (Err LoadFault, s)
        | Some reg \<Rightarrow>
            do { (p, ds) \<leftarrow> (if is_claim reg then sync_peripheral_irq_levels bs poll r s else Some s);
                 (v, l) \<leftarrow> read_register bs reg (layout p);
                 Some (Ok v, p\<lparr>layout := l\<rparr>, ds) })"

definition PLIC_write_impl ::
  "'b BitSet \<Rightarrow> 'd poll \<Rightarrow> Ram \<Rightarrow> nat \<Rightarrow> u64 \<Rightarrow> u32 \<Rightarrow> ('b PLIC \<times> 'd list, unit, MemError) prog" where
  "PLIC_write_impl bs poll r len inner_addr v s =
     (if len \<noteq> 4 then Some (Err StoreFault, s)
      else
        case decode_register inner_addr of
          None \<Rightarrow> Some (Err StoreFault, s)
        | Some (PlicPending _) \<Rightarrow> Some (Err StoreFault, s)
        | Some reg \<Rightarrow>
            do { (p, ds) \<leftarrow> (if is_claim reg then sync_peripheral_irq_levels bs poll r s else Some s);
                 l \<leftarrow> write_register bs reg v (layout p);
                 Some (Ok (), p\<lparr>layout := l\<rparr>, ds) })"

section \<open>Interrupt lines\<close>

definition register_device :: "ErasedDeviceHandle \<Rightarrow> PeriphIrqId \<Rightarrow> 'b PLIC \<Rightarrow> 'b PLIC option" where
  "register_device h interrupt_id p =
     (if is_valid_interrupt_id interrupt_id
      then map_option (\<lambda>hs. p\<lparr>peripheral_irq_devices := hs\<rparr>) (upd_opt (peripheral_irq_devices p) (unat interrupt_id) (Some h))
      else None)"

definition set_context_irq_line :: "nat \<Rightarrow> bool \<Rightarrow> 'b PLIC \<Rightarrow> ('b PLIC \<times> irq_event list) option" where
  "set_context_irq_line context_id level p =
     do { old \<leftarrow> nth_opt (riscv_irq_level p) context_id;
          if old = Some level then Some (p, [])
          else
            do { lv \<leftarrow> upd_opt (riscv_irq_level p) context_id (Some level);
                 irq_line \<leftarrow> nth_opt (riscv_irq_line p) context_id;
                 Some (p\<lparr>riscv_irq_level := lv\<rparr>, (case irq_line of None \<Rightarrow> [] | Some nr \<Rightarrow> [(nr, level)])) } }"

definition refresh_context_irq_line ::
  "'b BitSet \<Rightarrow> nat \<Rightarrow> 'b PLIC \<Rightarrow> (PeriphIrqId option \<times> 'b PLIC \<times> irq_event list) option" where
  "refresh_context_irq_line bs context_id p =
     do { pending_interrupt \<leftarrow> find_pending_interrupt bs context_id True (layout p);
          (p, evs) \<leftarrow> set_context_irq_line context_id (pending_interrupt \<noteq> None) p;
          Some (pending_interrupt, p, evs) }"

fun refresh_contexts :: "'b BitSet \<Rightarrow> nat list \<Rightarrow> 'b PLIC \<Rightarrow> ('b PLIC \<times> irq_event list) option" where
  "refresh_contexts bs [] p = Some (p, [])"
| "refresh_contexts bs (context_id # cs) p =
     (if context_id < VIRT_MAX_CONTEXTS then
        do { (_, p, evs) \<leftarrow> refresh_context_irq_line bs context_id p;
             (p, evs') \<leftarrow> refresh_contexts bs cs p;
             Some (p, evs @ evs') }
      else refresh_contexts bs cs p)"

definition update_context_irq_lines ::
  "'b BitSet \<Rightarrow> 'd poll \<Rightarrow> Ram \<Rightarrow> nat list \<Rightarrow> 'b PLIC \<times> 'd list \<Rightarrow> ('b PLIC \<times> 'd list \<times> irq_event list) option" where
  "update_context_irq_lines bs poll r context_ids s =
     do { (p, ds) \<leftarrow> sync_peripheral_irq_levels bs poll r s;
          (p, evs) \<leftarrow> refresh_contexts bs context_ids p;
          Some (p, ds, evs) }"

definition update_context_irq_line ::
  "'b BitSet \<Rightarrow> 'd poll \<Rightarrow> Ram \<Rightarrow> nat \<Rightarrow> 'b PLIC \<times> 'd list \<Rightarrow> (PeriphIrqId option \<times> ('b PLIC \<times> 'd list) \<times> irq_event list) option" where
  "update_context_irq_line bs poll r context_id s =
     (if VIRT_MAX_CONTEXTS \<le> context_id then Some (None, s, [])
      else
        do { (p, ds) \<leftarrow> sync_peripheral_irq_levels bs poll r s;
             (found, p, evs) \<leftarrow> refresh_context_irq_line bs context_id p;
             Some (found, (p, ds), evs) })"

definition PLIC_set_irq_line :: "'b BitSet \<Rightarrow> Interrupt \<Rightarrow> nat \<Rightarrow> 'b PLIC \<Rightarrow> ('b PLIC \<times> irq_event list) option" where
  "PLIC_set_irq_line bs line context_id p =
     (if context_id < VIRT_MAX_CONTEXTS then
        do { ls \<leftarrow> upd_opt (riscv_irq_line p) context_id (Some line);
             lv \<leftarrow> upd_opt (riscv_irq_level p) context_id None;
             (_, p, evs) \<leftarrow> refresh_context_irq_line bs context_id (p\<lparr>riscv_irq_line := ls, riscv_irq_level := lv\<rparr>);
             Some (p, evs) }
      else None)"

end
