(* ===== verification/PlicSpec.thy ===== *)
theory PlicSpec
  imports Plic
begin

unbundle bit_operations_syntax

text \<open>
  What the interrupt controller promises: arbitration by priority, the life cycle of a request, the
  levels of the lines to the processor, and which sources may overtake a waiting request, and how often.
\<close>

section \<open>Bit registers\<close>

definition bitof :: "PLICBitReg \<Rightarrow> PeriphIrqId \<Rightarrow> bool" where
  "bitof bits i = bit (bits ! (unat i div 32)) (unat i mod 32)"

lemma word_index_bound: "unat i < VIRT_MAX_INTERRUPTS \<Longrightarrow> length bits = PLIC_INTERRUPT_WORDS \<Longrightarrow> unat i div 32 < length bits"
  by simp

lemma same_slot: "unat i div 32 = unat j div 32 \<and> unat i mod 32 = unat j mod 32 \<longleftrightarrow> i = (j :: u32)"
  by (metis div_mult_mod_eq word_unat_eq_iff)

lemma word_mask_bits:
  "bit (w OR 2 ^ k :: u32) n \<longleftrightarrow> bit w n \<or> (n = k \<and> k < 32)"
  "bit (w AND NOT (2 ^ k) :: u32) n \<longleftrightarrow> bit w n \<and> n \<noteq> k"
  by (auto simp: bit_or_iff bit_and_iff bit_not_iff bit_exp_iff dest: bit_imp_le_length)

lemma bitreg_get_eq:
  assumes "unat i < VIRT_MAX_INTERRUPTS" "length bits = PLIC_INTERRUPT_WORDS"
  shows "bitreg_get i bits = Some (bitof bits i)"
  using word_index_bound [OF assms]
  by (simp add: bitreg_get_def interrupt_word_and_mask_def bitof_def bit_mask_and_eq_zero_iff)

lemma bitof_update:
  assumes "unat i < VIRT_MAX_INTERRUPTS" "length bits = PLIC_INTERRUPT_WORDS" "unat j < VIRT_MAX_INTERRUPTS"
  shows "bitof (bits[unat i div 32 := bits ! (unat i div 32) OR push_bit (unat i mod 32) 1]) j \<longleftrightarrow> j = i \<or> bitof bits j"
    and "bitof (bits[unat i div 32 := bits ! (unat i div 32) AND NOT (push_bit (unat i mod 32) 1)]) j \<longleftrightarrow> j \<noteq> i \<and> bitof bits j"
  using assms same_slot [of i j] by (auto simp: bitof_def nth_list_update word_mask_bits)

lemma bitreg_set_eq:
  assumes "unat i < VIRT_MAX_INTERRUPTS" "length bits = PLIC_INTERRUPT_WORDS"
  obtains bits' where "bitreg_set i bits = Some bits'" "length bits' = PLIC_INTERRUPT_WORDS"
    "\<And>j. unat j < VIRT_MAX_INTERRUPTS \<Longrightarrow> bitof bits' j \<longleftrightarrow> j = i \<or> bitof bits j"
  using that bitof_update(1) [OF assms] assms
  by (simp add: bitreg_set_def interrupt_word_and_mask_def word_index_bound)

lemma bitreg_clear_eq:
  assumes "unat i < VIRT_MAX_INTERRUPTS" "length bits = PLIC_INTERRUPT_WORDS"
  obtains bits' where "bitreg_clear i bits = Some bits'" "length bits' = PLIC_INTERRUPT_WORDS"
    "\<And>j. unat j < VIRT_MAX_INTERRUPTS \<Longrightarrow> bitof bits' j \<longleftrightarrow> j \<noteq> i \<and> bitof bits j"
  using that bitof_update(2) [OF assms] assms
  by (simp add: bitreg_clear_def interrupt_word_and_mask_def word_index_bound)

lemma bitreg_take_eq: "bitreg_take i bits = do { b \<leftarrow> bitreg_get i bits; bits' \<leftarrow> bitreg_clear i bits; Some (b, bits') }"
  by (auto simp: bitreg_take_def bitreg_get_def bitreg_clear_def interrupt_word_and_mask_def split: Option.bind_splits)

section \<open>Well-formed layouts\<close>

definition ids :: "PeriphIrqId set" where
  "ids = {i. unat i < VIRT_MAX_INTERRUPTS}"

definition order_ok :: "'b PLICLayout \<Rightarrow> bool" where
  "order_ok l \<longleftrightarrow> set (priority_order l) = ids \<and> distinct (priority_order l)
     \<and> sorted (map (priority_key (priority l)) (priority_order l))"

definition layout_shape :: "'b PLICLayout \<Rightarrow> bool" where
  "layout_shape l \<longleftrightarrow> length (priority l) = VIRT_MAX_INTERRUPTS
     \<and> length (pending l) = PLIC_INTERRUPT_WORDS \<and> length (source_level l) = PLIC_INTERRUPT_WORDS
     \<and> length (contexts l) = VIRT_MAX_CONTEXTS \<and> (\<forall>c \<in> set (contexts l). length (enable c) = PLIC_INTERRUPT_WORDS)"

definition claimed :: "'b BitSet \<Rightarrow> 'b PLICLayout \<Rightarrow> PeriphIrqId \<Rightarrow> bool" where
  "claimed bs l i = bs_contains bs (interrupt_sources_busy l) (unat i)"

definition layout_wf :: "'b BitSet \<Rightarrow> 'b PLICLayout \<Rightarrow> bool" where
  "layout_wf bs l \<longleftrightarrow> bitset_laws bs \<and> layout_shape l \<and> order_ok l
     \<and> (\<forall>i \<in> ids. \<not> (claimed bs l i \<and> bitof (pending l) i))"

definition enabled :: "'b PLICLayout \<Rightarrow> nat \<Rightarrow> PeriphIrqId \<Rightarrow> bool" where
  "enabled l c i = bitof (enable (contexts l ! c)) i"

definition prio :: "'b PLICLayout \<Rightarrow> PeriphIrqId \<Rightarrow> u32" where
  "prio l i = priority l ! unat i"

text \<open>A source a context may be notified of, or may claim, in the terms of the architecture.\<close>

definition eligible :: "'b BitSet \<Rightarrow> 'b PLICLayout \<Rightarrow> nat \<Rightarrow> bool \<Rightarrow> PeriphIrqId \<Rightarrow> bool" where
  "eligible bs l c apply_threshold i \<longleftrightarrow>
     i \<in> ids \<and> i \<noteq> 0 \<and> prio l i \<noteq> 0 \<and> (apply_threshold \<longrightarrow> priority_threshold (contexts l ! c) < prio l i)
     \<and> \<not> claimed bs l i \<and> enabled l c i \<and> bitof (pending l) i"

lemma is_enabled_eq:
  assumes "layout_shape l" "c < VIRT_MAX_CONTEXTS" "i \<in> ids"
  shows "is_enabled c i l = Some (enabled l c i)"
  using assms by (simp add: is_enabled_def enabled_def layout_shape_def ids_def bitreg_get_eq)

lemma find_in_order_eq:
  assumes "layout_shape l" "c < VIRT_MAX_CONTEXTS" "set xs \<subseteq> ids" "sorted (map (priority_key (priority l)) xs)"
    and "thr = priority_threshold (contexts l ! c)"
  shows "find_in_order bs l c b thr xs = Some (find (eligible bs l c b) xs)"
  using assms(3,4)
proof (induction xs)
  case (Cons i xs)
  have i: "unat i < VIRT_MAX_INTERRUPTS" "i \<in> ids" using Cons.prems by (simp_all add: ids_def)
  have IH: "find_in_order bs l c b thr xs = Some (find (eligible bs l c b) xs)" using Cons by simp
  have get: "bitreg_get i (pending l) = Some (bitof (pending l) i)" "nth_opt (priority l) (unat i) = Some (prio l i)"
    using i assms(1) by (simp_all add: bitreg_get_eq layout_shape_def prio_def)
  have low: "prio l j = 0" if "j \<in> set xs" "prio l i = 0" for j
  proof -
    have "priority_key (priority l) i \<le> priority_key (priority l) j" using Cons.prems that by simp
    then have "NOT (prio l i) \<le> NOT (prio l j)" by (auto simp: priority_key_def prio_def less_eq_prod_def)
    then show ?thesis using that(2) by simp (metis bit.compl_zero bit.double_compl word_order.extremum_uniqueI)
  qed
  have "find (eligible bs l c b) xs = None" if "prio l i = 0"
    using low that by (auto simp: find_None_iff eligible_def)
  then show ?case
    using i IH get is_enabled_eq [OF assms(1,2) i(2)] eligible_def [of bs l c b i]
    by (cases "claimed bs l i"; cases "enabled l c i") (auto simp: claimed_def assms(5) not_le)
qed simp

lemma find_pending_eq:
  assumes "layout_shape l" "order_ok l" "c < VIRT_MAX_CONTEXTS"
  shows "find_pending_interrupt bs c b l = Some (find (eligible bs l c b) (priority_order l))"
  using assms find_in_order_eq [OF assms(1,3) _ _ refl, of "priority_order l"]
  by (simp add: find_pending_interrupt_def order_ok_def layout_shape_def)

lemma find_sorted_least:
  assumes "sorted (map f xs)" "find P xs = Some x" "y \<in> set xs" "P y"
  shows "f x \<le> f y"
  using assms by (induction xs) (auto split: if_splits)

lemma key_order:
  "priority_key (priority l) i \<le> priority_key (priority l) j \<longleftrightarrow> prio l j < prio l i \<or> (prio l i = prio l j \<and> i \<le> j)"
proof -
  have "NOT a = - 1 - a" for a :: u32 by (simp add: not_eq_complement)
  moreover have "unat (- 1 - a) = 2 ^ 32 - 1 - unat a" for a :: u32
    using unat_sub [of a "- 1"] by (simp add: unsigned_minus_1_eq_mask mask_eq_exp_minus_1)
  ultimately have "unat (NOT a) = 2 ^ 32 - 1 - unat a" for a :: u32 by simp
  then have "NOT a < NOT b \<longleftrightarrow> b < a" for a b :: u32
    using unsigned_less [of a, where 'a = nat] unsigned_less [of b, where 'a = nat]
    by (auto simp: word_less_nat_alt)
  moreover from this have "NOT a \<le> NOT b \<longleftrightarrow> b \<le> a" for a b :: u32 by (simp flip: not_less)
  ultimately show ?thesis by (auto simp: priority_key_def prio_def less_eq_prod_def)
qed

lemma found_spec:
  assumes "order_ok l" "find (eligible bs l c b) (priority_order l) = r"
  shows "case r of None \<Rightarrow> \<forall>i. \<not> eligible bs l c b i
     | Some i \<Rightarrow> eligible bs l c b i \<and> (\<forall>j. eligible bs l c b j \<longrightarrow> prio l j < prio l i \<or> (prio l i = prio l j \<and> i \<le> j))"
proof -
  have ids: "eligible bs l c b i \<Longrightarrow> i \<in> set (priority_order l)" for i
    using assms(1) by (simp add: eligible_def order_ok_def)
  show ?thesis
  proof (cases r)
    case None
    then show ?thesis using assms(2) ids by (auto simp: find_None_iff)
  next
    case (Some i)
    then have "eligible bs l c b i" using assms(2) by (auto simp: find_Some_iff)
    moreover have "priority_key (priority l) i \<le> priority_key (priority l) j" if "eligible bs l c b j" for j
      using find_sorted_least [of "priority_key (priority l)" "priority_order l" "eligible bs l c b" i j] assms that ids Some
      by (simp add: order_ok_def)
    ultimately show ?thesis using Some by (simp add: key_order)
  qed
qed

section \<open>The gateways\<close>

text \<open>The state of the gateway of a source, as the specification of the controller describes it.\<close>

datatype gateway = Idle | Requested | Claimed

definition gateway :: "'b BitSet \<Rightarrow> 'b PLICLayout \<Rightarrow> PeriphIrqId \<Rightarrow> gateway" where
  "gateway bs l i = (if claimed bs l i then Claimed else if bitof (pending l) i then Requested else Idle)"

definition gateway_level :: "bool \<Rightarrow> gateway \<Rightarrow> gateway" where
  "gateway_level level g = (if level \<and> g = Idle then Requested else g)"

definition gateway_complete :: "bool \<Rightarrow> gateway \<Rightarrow> gateway" where
  "gateway_complete level g = (if g = Claimed then (if level then Requested else Idle) else g)"

lemma layout_wf_shape: "layout_wf bs l \<Longrightarrow> layout_shape l"
  and layout_wf_order: "layout_wf bs l \<Longrightarrow> order_ok l"
  and layout_wf_laws: "layout_wf bs l \<Longrightarrow> bitset_laws bs"
  by (simp_all add: layout_wf_def)

lemma bitset_lawsD:
  assumes "bitset_laws bs"
  shows "bs_contains bs (bs_insert bs s i) j \<longleftrightarrow> i = j \<or> bs_contains bs s j"
    and "fst (bs_remove bs s i) = bs_contains bs s i"
    and "bs_contains bs (snd (bs_remove bs s i)) j \<longleftrightarrow> i \<noteq> j \<and> bs_contains bs s j"
    and "\<not> bs_contains bs (bs_new bs) i"
  using assms by (simp_all add: bitset_laws_def)

lemma set_source_level_spec:
  assumes "layout_wf bs l" "i \<in> ids"
  obtains l' where "set_source_level bs i level l = Some l'" "layout_wf bs l'"
    "\<And>j. j \<in> ids \<Longrightarrow> gateway bs l' j = (if j = i then gateway_level level (gateway bs l j) else gateway bs l j)"
    "\<And>j. j \<in> ids \<Longrightarrow> bitof (source_level l') j = (if j = i then level else bitof (source_level l) j)"
    "priority l' = priority l" "contexts l' = contexts l" "priority_order l' = priority_order l"
proof -
  have i: "unat i < 64" and len: "length (pending l) = 2" "length (source_level l) = 2"
    using assms by (simp_all add: ids_def layout_wf_def layout_shape_def)
  have rest: "layout_wf bs (l\<lparr>source_level := sl, pending := p\<rparr>)"
    if "length sl = 2" "length p = 2" "\<And>j. j \<in> ids \<Longrightarrow> bitof p j \<Longrightarrow> \<not> claimed bs l j" for sl p
    using assms(1) that by (auto simp: layout_wf_def layout_shape_def order_ok_def claimed_def)
  have pend: "\<And>j. j \<in> ids \<Longrightarrow> bitof (pending l) j \<Longrightarrow> \<not> claimed bs l j"
    using assms(1) by (auto simp: layout_wf_def)
  obtain sl where sl: "bitreg_set i (source_level l) = Some sl" "length sl = 2"
      "\<And>j. unat j < 64 \<Longrightarrow> bitof sl j \<longleftrightarrow> j = i \<or> bitof (source_level l) j"
    using bitreg_set_eq [OF i len(2)] by blast
  obtain sc where sc: "bitreg_clear i (source_level l) = Some sc" "length sc = 2"
      "\<And>j. unat j < 64 \<Longrightarrow> bitof sc j \<longleftrightarrow> j \<noteq> i \<and> bitof (source_level l) j"
    using bitreg_clear_eq [OF i len(2)] by blast
  obtain ps where ps: "bitreg_set i (pending l) = Some ps" "length ps = 2"
      "\<And>j. unat j < 64 \<Longrightarrow> bitof ps j \<longleftrightarrow> j = i \<or> bitof (pending l) j"
    using bitreg_set_eq [OF i len(1)] by blast
  note eqs = set_source_level_def sl(1) sc(1) ps(1) bitreg_get_eq [OF i len(1)] gateway_def gateway_level_def claimed_def
  show thesis
  proof (cases "level \<and> \<not> bitof (pending l) i \<and> \<not> claimed bs l i")
    case True
    then have "\<And>j. j \<in> ids \<Longrightarrow> bitof ps j \<Longrightarrow> \<not> claimed bs l j" using ps(3) pend by (auto simp: ids_def)
    then show thesis using rest [OF sl(2) ps(2)] True sl(3) ps(3)
      by (intro that [of "l\<lparr>source_level := sl, pending := ps\<rparr>"]) (auto simp: eqs ids_def)
  next
    case False
    then show thesis using rest [OF _ len(1) pend] sl(2,3) sc(2,3)
      by (intro that [of "l\<lparr>source_level := if level then sl else sc\<rparr>"]) (auto simp: eqs ids_def)
  qed
qed

lemma pending_update_wf:
  assumes "layout_wf bs l" "length p = PLIC_INTERRUPT_WORDS"
    and "\<And>j. j \<in> ids \<Longrightarrow> bitof p j \<Longrightarrow> \<not> bs_contains bs s (unat j)"
  shows "layout_wf bs (l\<lparr>pending := p, interrupt_sources_busy := s\<rparr>)"
  using assms by (auto simp: layout_wf_def layout_shape_def order_ok_def claimed_def)

lemma read_claim_spec:
  assumes "layout_wf bs l" "c < VIRT_MAX_CONTEXTS"
  obtains i l' where "read_claim bs c l = Some (i, l')" "layout_wf bs l'"
    "i = 0 \<Longrightarrow> l' = l \<and> (\<forall>j. \<not> eligible bs l c False j)"
    "i \<noteq> 0 \<Longrightarrow> eligible bs l c False i"
    "\<And>j. i \<noteq> 0 \<Longrightarrow> eligible bs l c False j \<Longrightarrow> prio l j < prio l i \<or> (prio l i = prio l j \<and> i \<le> j)"
    "\<And>j. j \<in> ids \<Longrightarrow> i \<noteq> 0 \<Longrightarrow> gateway bs l' j = (if j = i then Claimed else gateway bs l j)"
    "priority l' = priority l" "contexts l' = contexts l" "priority_order l' = priority_order l" "source_level l' = source_level l"
proof -
  let ?r = "find (eligible bs l c False) (priority_order l)"
  note wf = layout_wf_shape [OF assms(1)] layout_wf_order [OF assms(1)] layout_wf_laws [OF assms(1)]
  have f: "find_pending_interrupt bs c False l = Some ?r" using find_pending_eq wf assms(2) by blast
  note sp = found_spec [OF wf(2), of bs c False ?r]
  show thesis
  proof (cases ?r)
    case None
    then show thesis using f sp assms(1) by (intro that [of 0 l]) (auto simp: read_claim_def)
  next
    case (Some i)
    then have el: "eligible bs l c False i"
        "\<And>j. eligible bs l c False j \<Longrightarrow> prio l j < prio l i \<or> (prio l i = prio l j \<and> i \<le> j)" using sp by auto
    then have i: "unat i < 64" "i \<noteq> 0" by (auto simp: eligible_def ids_def)
    have len: "length (pending l) = 2" using wf(1) by (simp add: layout_shape_def)
    obtain p where p: "bitreg_clear i (pending l) = Some p" "length p = 2"
        "\<And>j. unat j < 64 \<Longrightarrow> bitof p j \<longleftrightarrow> j \<noteq> i \<and> bitof (pending l) j"
      using bitreg_clear_eq [OF i(1) len] by blast
    let ?l' = "l\<lparr>pending := p, interrupt_sources_busy := bs_insert bs (interrupt_sources_busy l) (unat i)\<rparr>"
    have busy: "claimed bs ?l' j \<longleftrightarrow> j = i \<or> claimed bs l j" for j
      by (auto simp: claimed_def bitset_lawsD [OF wf(3)] dest: word_unat_eq_iff [THEN iffD2])
    have "layout_wf bs ?l'" using assms(1) p busy
      by (intro pending_update_wf) (auto simp: layout_wf_def claimed_def ids_def)
    then show thesis using f Some el i p busy bitreg_get_eq [OF i(1) len]
      by (intro that [of i ?l']) (auto simp: read_claim_def bitreg_take_eq gateway_def ids_def)
  qed
qed

lemma write_complete_spec:
  assumes "layout_wf bs l" "c < VIRT_MAX_CONTEXTS"
  obtains l' where "write_complete bs c i l = Some l'" "layout_wf bs l'"
    "\<And>j. j \<in> ids \<Longrightarrow> gateway bs l' j =
       (if j = i \<and> i \<noteq> 0 \<and> enabled l c i then gateway_complete (bitof (source_level l) i) (gateway bs l j) else gateway bs l j)"
    "priority l' = priority l" "contexts l' = contexts l" "priority_order l' = priority_order l" "source_level l' = source_level l"
proof (cases "is_valid_interrupt_id i \<and> enabled l c i")
  case False
  then have "write_complete bs c i l = Some l"
    using is_enabled_eq [OF layout_wf_shape [OF assms(1)] assms(2), of i]
    by (auto simp: write_complete_def is_valid_interrupt_id_def ids_def)
  then show thesis using False assms(1)
    by (intro that [of l]) (auto simp: is_valid_interrupt_id_def ids_def)
next
  case True
  note wf = layout_wf_shape [OF assms(1)] layout_wf_order [OF assms(1)] layout_wf_laws [OF assms(1)]
  have i: "unat i < 64" "i \<in> ids" "i \<noteq> 0" using True by (auto simp: is_valid_interrupt_id_def ids_def)
  have len: "length (pending l) = 2" "length (source_level l) = 2" using wf(1) by (auto simp: layout_shape_def)
  obtain p where p: "bitreg_set i (pending l) = Some p" "length p = 2"
      "\<And>j. unat j < 64 \<Longrightarrow> bitof p j \<longleftrightarrow> j = i \<or> bitof (pending l) j"
    using bitreg_set_eq [OF i(1) len(1)] by blast
  obtain removed s where r: "bs_remove bs (interrupt_sources_busy l) (unat i) = (removed, s)" by fastforce
  have rs: "removed = claimed bs l i" "bs_contains bs s (unat j) \<longleftrightarrow> j \<noteq> i \<and> claimed bs l j" for j
    using bitset_lawsD(2) [OF wf(3), of "interrupt_sources_busy l" "unat i"]
      bitset_lawsD(3) [OF wf(3), of "interrupt_sources_busy l" "unat i" "unat j"] r
    by (auto simp: claimed_def dest: word_unat_eq_iff [THEN iffD2])
  let ?l' = "l\<lparr>pending := if removed \<and> bitof (source_level l) i then p else pending l, interrupt_sources_busy := s\<rparr>"
  have eq: "write_complete bs c i l = Some ?l'"
    using True r p(1) is_enabled_eq [OF wf(1) assms(2) i(2)] bitreg_get_eq [OF i(1) len(2)]
    by (simp add: write_complete_def Let_def)
  have "layout_wf bs ?l'" using assms(1) p len rs
    by (intro pending_update_wf) (auto simp: layout_wf_def ids_def split: if_splits)
  then show thesis using True eq i p rs assms(1)
    by (intro that [of ?l']) (auto simp: gateway_def gateway_complete_def claimed_def ids_def layout_wf_def)
qed

lemma config_wf:
  assumes "layout_wf bs l"
  shows "layout_shape (l\<lparr>contexts := cs\<rparr>) \<Longrightarrow> layout_wf bs (l\<lparr>contexts := cs\<rparr>)"
  using assms by (auto simp: layout_wf_def order_ok_def claimed_def)

lemma write_config_spec:
  assumes "layout_wf bs l" "c < VIRT_MAX_CONTEXTS"
  shows "\<exists>l'. write_priority_threshold c v l = Some l' \<and> layout_wf bs l' \<and> gateway bs l' = gateway bs l \<and> source_level l' = source_level l"
    and "w < PLIC_INTERRUPT_WORDS \<Longrightarrow>
      \<exists>l'. write_enable_word c w v l = Some l' \<and> layout_wf bs l' \<and> gateway bs l' = gateway bs l \<and> source_level l' = source_level l"
proof -
  have sh: "layout_shape l" using assms(1) by (rule layout_wf_shape)
  then have c: "c < length (contexts l)" "length (enable (contexts l ! c)) = 2" using assms(2) by (auto simp: layout_shape_def)
  have gw: "gateway bs (l\<lparr>contexts := cs\<rparr>) = gateway bs l" for cs
    by (rule ext) (simp add: gateway_def claimed_def)
  have upd: "layout_shape (l\<lparr>contexts := (contexts l)[c := k]\<rparr>)" if "length (enable k) = 2" for k
    using sh that by (auto simp: layout_shape_def dest!: set_update_subset_insert [THEN subsetD])
  show "\<exists>l'. write_priority_threshold c v l = Some l' \<and> layout_wf bs l' \<and> gateway bs l' = gateway bs l \<and> source_level l' = source_level l"
    using c upd [THEN config_wf [OF assms(1)]] gw by (simp add: write_priority_threshold_def)
  show "\<exists>l'. write_enable_word c w v l = Some l' \<and> layout_wf bs l' \<and> gateway bs l' = gateway bs l \<and> source_level l' = source_level l"
    if "w < PLIC_INTERRUPT_WORDS"
    using that c upd [THEN config_wf [OF assms(1)]] gw
    by (simp add: write_enable_word_def interrupt_word_and_mask_def Let_def)
qed

lemma write_priority_spec:
  assumes "layout_wf bs l" "i \<in> ids"
  shows "\<exists>l'. write_priority i v l = Some l' \<and> layout_wf bs l' \<and> gateway bs l' = gateway bs l \<and> source_level l' = source_level l
     \<and> contexts l' = contexts l \<and> priority l' = (priority l)[unat i := v]"
proof (cases "v = prio l i")
  case True
  then have "write_priority i v l = Some l" "(priority l)[unat i := v] = priority l"
    using assms by (auto simp: write_priority_def prio_def layout_wf_def layout_shape_def ids_def)
  then show ?thesis using assms(1) by auto
next
  case False
  have sh: "layout_shape l" "order_ok l" using assms(1) by (auto simp: layout_wf_def)
  then have i: "unat i < length (priority l)" using assms(2) by (simp add: layout_shape_def ids_def)
  let ?p = "(priority l)[unat i := v]"
  let ?l' = "l\<lparr>priority := ?p, priority_order := sort_key (priority_key ?p) (priority_order l)\<rparr>"
  have "write_priority i v l = Some ?l'"
    using False i sh by (auto simp: write_priority_def sort_priority_order_def prio_def order_ok_def layout_shape_def ids_def)
  moreover have "layout_wf bs ?l'" using assms(1) by (auto simp: layout_wf_def layout_shape_def order_ok_def claimed_def)
  moreover have "gateway bs ?l' = gateway bs l" by (rule ext) (simp add: gateway_def claimed_def)
  ultimately show ?thesis by auto
qed

lemma decode_register_valid:
  assumes "decode_register a = Some reg"
  shows "case reg of PlicPriority i \<Rightarrow> i \<in> ids | PlicPending w \<Rightarrow> w < PLIC_INTERRUPT_WORDS
     | PlicEnable c w \<Rightarrow> c < VIRT_MAX_CONTEXTS \<and> w < PLIC_INTERRUPT_WORDS | PlicThreshold c \<Rightarrow> c < VIRT_MAX_CONTEXTS
     | PlicClaimComplete c \<Rightarrow> c < VIRT_MAX_CONTEXTS"
  using assms by (auto simp: decode_register_def is_valid_interrupt_id_def ids_def Let_def split: if_splits)

lemma read_register_spec:
  assumes "layout_wf bs l" "decode_register a = Some reg"
  shows "\<exists>v l'. read_register bs reg l = Some (v, l') \<and> layout_wf bs l' \<and> source_level l' = source_level l
     \<and> (is_claim reg \<and> v \<noteq> 0 \<longrightarrow> gateway bs l v = Requested)
     \<and> (\<forall>j \<in> ids. gateway bs l' j = (if is_claim reg \<and> v \<noteq> 0 \<and> j = v then Claimed else gateway bs l j))"
proof (cases "is_claim reg")
  case True
  then obtain c where reg: "reg = PlicClaimComplete c" by (cases reg) auto
  then have c: "c < 16" using decode_register_valid [OF assms(2)] by simp
  have req: "eligible bs l c False i \<Longrightarrow> gateway bs l i = Requested" for i by (simp add: eligible_def gateway_def)
  show ?thesis
  proof (rule read_claim_spec [OF assms(1) c])
    fix i l'
    assume "read_claim bs c l = Some (i, l')" "layout_wf bs l'" "source_level l' = source_level l"
      "i = 0 \<Longrightarrow> l' = l \<and> (\<forall>j. \<not> eligible bs l c False j)" "i \<noteq> 0 \<Longrightarrow> eligible bs l c False i"
      "\<And>j. j \<in> ids \<Longrightarrow> i \<noteq> 0 \<Longrightarrow> gateway bs l' j = (if j = i then Claimed else gateway bs l j)"
    then show ?thesis using req [of i] by (cases "i = 0") (auto simp: reg)
  qed
next
  case False
  then show ?thesis
    using assms(1) decode_register_valid [OF assms(2)]
    by (cases reg) (auto simp: layout_wf_def layout_shape_def ids_def)
qed

lemma write_register_spec:
  assumes "layout_wf bs l" "decode_register a = Some reg"
  shows "\<exists>l'. write_register bs reg v l = Some l' \<and> layout_wf bs l' \<and> source_level l' = source_level l
     \<and> (\<forall>j \<in> ids. gateway bs l' j = (case reg of
          PlicClaimComplete c \<Rightarrow>
            if j = v \<and> v \<noteq> 0 \<and> enabled l c v then gateway_complete (bitof (source_level l) v) (gateway bs l j)
            else gateway bs l j
        | _ \<Rightarrow> gateway bs l j))"
proof (cases reg)
  case (PlicClaimComplete c)
  then have "c < 16" using decode_register_valid [OF assms(2)] by simp
  then show ?thesis
    by (rule write_complete_spec [OF assms(1), of c v]) (simp add: PlicClaimComplete)
next
  case (PlicPriority i)
  then show ?thesis
    using write_priority_spec [OF assms(1), of i v] decode_register_valid [OF assms(2)] by auto
next
  case (PlicEnable c w)
  then show ?thesis
    using write_config_spec(2) [OF assms(1), of c w v] decode_register_valid [OF assms(2)] by auto
next
  case (PlicThreshold c)
  then show ?thesis
    using write_config_spec(1) [OF assms(1), of c v] decode_register_valid [OF assms(2)] by auto
qed (use assms in simp)

section \<open>A concrete bit set\<close>

definition list_bitset :: "nat list BitSet" where
  "list_bitset = \<lparr>bs_new = [], bs_contains = (\<lambda>s i. i \<in> set s), bs_insert = (\<lambda>s i. i # s),
     bs_remove = (\<lambda>s i. (i \<in> set s, filter (\<lambda>j. j \<noteq> i) s))\<rparr>"

lemma list_bitset_laws: "bitset_laws list_bitset"
  by (auto simp: bitset_laws_def list_bitset_def)

lemma small_of_nat: "n < 64 \<Longrightarrow> unat (of_nat n :: u32) = n"
  by (simp add: unsigned_of_nat take_bit_nat_eq_self_iff)

lemma ids_upt: "set (map of_nat [0..<64]) = ids"
proof -
  have "i \<in> of_nat ` {0..<64}" if "unat i < 64" for i :: u32
    using that by (intro image_eqI [of _ _ "unat i"]) auto
  then show ?thesis by (auto simp: ids_def small_of_nat)
qed

lemma PLICLayout_new_wf: "bitset_laws bs \<Longrightarrow> layout_wf bs (PLICLayout_new bs)"
proof -
  assume laws: "bitset_laws bs"
  have inj: "inj_on (of_nat :: nat \<Rightarrow> u32) {0..<64}"
    by (rule inj_onI) (metis atLeastLessThan_iff small_of_nat)
  have key: "priority_key (replicate 64 0) i = (- 1, i)" if "i \<in> ids" for i
    using that by (simp add: priority_key_def ids_def)
  have "sorted (map (priority_key (replicate 64 0)) (map of_nat [0..<64]))"
    by (simp add: sorted_iff_nth_mono key ids_def small_of_nat word_le_nat_alt)
  then show ?thesis
    using laws inj bitset_lawsD(4) [OF laws] ids_upt
    by (auto simp: layout_wf_def layout_shape_def order_ok_def PLICLayout_new_def PLICContext_new_def
      claimed_def distinct_map)
qed

section \<open>Theorems\<close>

text \<open>
  C16.  Reading the claim register never fails.  It returns 0 and changes nothing when no enabled source with
  a priority above 0 is requesting; otherwise it returns one such source, of the highest priority and among
  those of the lowest number, and exactly that source becomes claimed.
\<close>

theorem plic_claim_highest:
  assumes "layout_wf bs l" "c < VIRT_MAX_CONTEXTS"
  shows "\<exists>i l'. read_claim bs c l = Some (i, l') \<and> layout_wf bs l'
     \<and> (if \<exists>j. eligible bs l c False j
        then eligible bs l c False i
          \<and> (\<forall>j. eligible bs l c False j \<longrightarrow> prio l j < prio l i \<or> (prio l i = prio l j \<and> i \<le> j))
          \<and> (\<forall>j \<in> ids. gateway bs l' j = (if j = i then Claimed else gateway bs l j))
        else i = 0 \<and> l' = l)"
proof (rule read_claim_spec [OF assms])
  fix i l'
  assume a: "read_claim bs c l = Some (i, l')" "layout_wf bs l'"
    "i = 0 \<Longrightarrow> l' = l \<and> (\<forall>j. \<not> eligible bs l c False j)" "i \<noteq> 0 \<Longrightarrow> eligible bs l c False i"
    "\<And>j. i \<noteq> 0 \<Longrightarrow> eligible bs l c False j \<Longrightarrow> prio l j < prio l i \<or> (prio l i = prio l j \<and> i \<le> j)"
    "\<And>j. j \<in> ids \<Longrightarrow> i \<noteq> 0 \<Longrightarrow> gateway bs l' j = (if j = i then Claimed else gateway bs l j)"
  show ?thesis
    by (rule exI [of _ i], rule exI [of _ l'], cases "i = 0") (use a in auto)
qed

text \<open>
  C15.  The registers implement the gateways of the specification: sampling a level lets an idle gateway
  request, a claim moves the requesting gateway it returns to claimed, a completion by a context that has the
  source enabled releases a claimed gateway, which requests again when the level is still high, and no other
  access to the registers changes any gateway.  No access panics, and a claimed source is never pending.
\<close>

theorem plic_gateway:
  assumes "layout_wf bs l"
  shows "(\<forall>i \<in> ids. \<exists>l'. set_source_level bs i level l = Some l' \<and> layout_wf bs l'
        \<and> (\<forall>j \<in> ids. gateway bs l' j = (if j = i then gateway_level level (gateway bs l j) else gateway bs l j)))
    \<and> (\<forall>reg. decode_register a = Some reg \<longrightarrow>
        (\<exists>v l'. read_register bs reg l = Some (v, l') \<and> layout_wf bs l'
           \<and> (is_claim reg \<and> v \<noteq> 0 \<longrightarrow> gateway bs l v = Requested)
           \<and> (\<forall>j \<in> ids. gateway bs l' j = (if is_claim reg \<and> v \<noteq> 0 \<and> j = v then Claimed else gateway bs l j)))
        \<and> (\<exists>l'. write_register bs reg w l = Some l' \<and> layout_wf bs l'
           \<and> (\<forall>j \<in> ids. gateway bs l' j = (case reg of
                PlicClaimComplete c \<Rightarrow>
                  if j = w \<and> w \<noteq> 0 \<and> enabled l c w then gateway_complete (bitof (source_level l) w) (gateway bs l j)
                  else gateway bs l j
              | _ \<Rightarrow> gateway bs l j))))"
proof (intro conjI ballI allI impI)
  fix i
  assume "i \<in> ids"
  then show "\<exists>l'. set_source_level bs i level l = Some l' \<and> layout_wf bs l'
      \<and> (\<forall>j \<in> ids. gateway bs l' j = (if j = i then gateway_level level (gateway bs l j) else gateway bs l j))"
    by (rule set_source_level_spec [OF assms, of i level]) blast
qed (use read_register_spec [OF assms] write_register_spec [OF assms] in blast)+

section \<open>The lines to the processor\<close>

text \<open>
  \<open>w\<close> is the level of each interrupt line as the processor has seen it; the controller remembers the
  levels it has driven and repeats none.
\<close>

definition drive :: "irq_event list \<Rightarrow> (Interrupt \<Rightarrow> bool) \<Rightarrow> Interrupt \<Rightarrow> bool" where
  "drive evs w = foldl (\<lambda>w (nr, level). w(nr := level)) w evs"

definition lines_ok :: "'b PLIC \<Rightarrow> (Interrupt \<Rightarrow> bool) \<Rightarrow> bool" where
  "lines_ok p w \<longleftrightarrow>
     (\<forall>c < VIRT_MAX_CONTEXTS. \<forall>nr b. riscv_irq_line p ! c = Some nr \<longrightarrow> riscv_irq_level p ! c = Some b \<longrightarrow> w nr = b)
     \<and> (\<forall>c < VIRT_MAX_CONTEXTS. \<forall>d < VIRT_MAX_CONTEXTS.
          riscv_irq_line p ! c \<noteq> None \<longrightarrow> riscv_irq_line p ! c = riscv_irq_line p ! d \<longrightarrow> c = d)"

definition plic_wf :: "'b BitSet \<Rightarrow> 'b PLIC \<Rightarrow> bool" where
  "plic_wf bs p \<longleftrightarrow> layout_wf bs (layout p) \<and> length (riscv_irq_line p) = VIRT_MAX_CONTEXTS
     \<and> length (riscv_irq_level p) = VIRT_MAX_CONTEXTS \<and> length (peripheral_irq_devices p) = VIRT_MAX_INTERRUPTS"

definition notify :: "'b BitSet \<Rightarrow> 'b PLICLayout \<Rightarrow> nat \<Rightarrow> bool" where
  "notify bs l c \<longleftrightarrow> (\<exists>i. eligible bs l c True i)"

lemma drive_append: "drive (evs @ evs') w = drive evs' (drive evs w)"
  by (simp add: drive_def)

lemma set_context_irq_line_eq:
  assumes "c < length (riscv_irq_level p)" "c < length (riscv_irq_line p)"
  shows "set_context_irq_line c b p = Some (p\<lparr>riscv_irq_level := (riscv_irq_level p)[c := Some b]\<rparr>,
     if riscv_irq_level p ! c = Some b then [] else case riscv_irq_line p ! c of None \<Rightarrow> [] | Some nr \<Rightarrow> [(nr, b)])"
proof (cases "riscv_irq_level p ! c = Some b")
  case True
  then have "(riscv_irq_level p)[c := Some b] = riscv_irq_level p" by (metis list_update_id)
  then show ?thesis using True assms by (simp add: set_context_irq_line_def)
qed (use assms in \<open>simp add: set_context_irq_line_def\<close>)

lemma refresh_context_eq:
  assumes "plic_wf bs p" "c < VIRT_MAX_CONTEXTS"
  obtains i where "refresh_context_irq_line bs c p =
    Some (i, p\<lparr>riscv_irq_level := (riscv_irq_level p)[c := Some (notify bs (layout p) c)]\<rparr>,
      if riscv_irq_level p ! c = Some (notify bs (layout p) c) then []
      else case riscv_irq_line p ! c of None \<Rightarrow> [] | Some nr \<Rightarrow> [(nr, notify bs (layout p) c)])"
proof -
  let ?r = "find (eligible bs (layout p) c True) (priority_order (layout p))"
  have wf: "layout_wf bs (layout p)" using assms(1) by (simp add: plic_wf_def)
  have f: "find_pending_interrupt bs c True (layout p) = Some ?r"
    using find_pending_eq layout_wf_shape [OF wf] layout_wf_order [OF wf] assms(2) by blast
  have lv: "(?r \<noteq> None) = notify bs (layout p) c"
    using found_spec [OF layout_wf_order [OF wf] refl, of bs c True] by (auto simp: notify_def split: option.splits)
  have c: "c < length (riscv_irq_level p)" "c < length (riscv_irq_line p)" using assms(1,2) by (simp_all add: plic_wf_def)
  show thesis
    by (rule that [of ?r])
      (simp only: refresh_context_irq_line_def f Option.bind.simps lv set_context_irq_line_eq [OF c] prod.case)
qed

lemma refresh_context_spec:
  assumes "plic_wf bs p" "c < VIRT_MAX_CONTEXTS" "lines_ok p w"
  obtains i p' evs where "refresh_context_irq_line bs c p = Some (i, p', evs)" "plic_wf bs p'" "layout p' = layout p"
    "riscv_irq_line p' = riscv_irq_line p" "lines_ok p' (drive evs w)"
    "\<And>nr. riscv_irq_line p ! c = Some nr \<Longrightarrow> drive evs w nr = notify bs (layout p) c"
    "\<And>d nr. d < VIRT_MAX_CONTEXTS \<Longrightarrow> d \<noteq> c \<Longrightarrow> riscv_irq_line p ! d = Some nr \<Longrightarrow> drive evs w nr = w nr"
proof (rule refresh_context_eq [OF assms(1,2)])
  fix i
  define b where "b = notify bs (layout p) c"
  let ?evs = "if riscv_irq_level p ! c = Some b then [] else case riscv_irq_line p ! c of None \<Rightarrow> [] | Some nr \<Rightarrow> [(nr, b)]"
  let ?p' = "p\<lparr>riscv_irq_level := (riscv_irq_level p)[c := Some b]\<rparr>"
  assume "refresh_context_irq_line bs c p =
    Some (i, p\<lparr>riscv_irq_level := (riscv_irq_level p)[c := Some (notify bs (layout p) c)]\<rparr>,
      if riscv_irq_level p ! c = Some (notify bs (layout p) c) then []
      else case riscv_irq_line p ! c of None \<Rightarrow> [] | Some nr \<Rightarrow> [(nr, notify bs (layout p) c)])"
  then have eq: "refresh_context_irq_line bs c p = Some (i, ?p', ?evs)" by (simp only: b_def)
  have c: "c < length (riscv_irq_level p)" using assms(1,2) by (simp add: plic_wf_def)
  have d: "drive ?evs w nr = (if riscv_irq_line p ! c = Some nr then b else w nr)" for nr
    using assms(2,3) by (auto simp: drive_def lines_ok_def split: option.splits)
  have lines: "lines_ok ?p' (drive ?evs w)" "plic_wf bs ?p'"
    using assms c d by (auto simp: lines_ok_def plic_wf_def nth_list_update)
  show thesis
    by (rule that [OF eq lines(2) _ _ lines(1)]) (use d b_def assms(2,3) in \<open>auto simp: lines_ok_def\<close>)
qed

lemma refresh_contexts_spec:
  assumes "plic_wf bs p" "lines_ok p w"
  shows "\<exists>p' evs. refresh_contexts bs cs p = Some (p', evs) \<and> plic_wf bs p' \<and> layout p' = layout p
     \<and> riscv_irq_line p' = riscv_irq_line p \<and> lines_ok p' (drive evs w)
     \<and> (\<forall>c < VIRT_MAX_CONTEXTS. \<forall>nr. riscv_irq_line p ! c = Some nr \<longrightarrow>
          drive evs w nr = (if c \<in> set cs then notify bs (layout p) c else w nr))"
  using assms
proof (induction cs arbitrary: p w)
  case Nil
  then show ?case by (simp add: drive_def)
next
  case (Cons c cs)
  show ?case
  proof (cases "c < 16")
    case False
    then show ?thesis using Cons.IH [OF Cons.prems] by auto
  next
    case True
    show ?thesis
    proof (rule refresh_context_spec [OF Cons.prems(1) True Cons.prems(2)])
      fix i p1 evs1
      assume a: "refresh_context_irq_line bs c p = Some (i, p1, evs1)" "plic_wf bs p1" "layout p1 = layout p"
        "riscv_irq_line p1 = riscv_irq_line p" "lines_ok p1 (drive evs1 w)"
        "\<And>nr. riscv_irq_line p ! c = Some nr \<Longrightarrow> drive evs1 w nr = notify bs (layout p) c"
        "\<And>d nr. d < 16 \<Longrightarrow> d \<noteq> c \<Longrightarrow> riscv_irq_line p ! d = Some nr \<Longrightarrow> drive evs1 w nr = w nr"
      obtain p2 evs2 where b: "refresh_contexts bs cs p1 = Some (p2, evs2)" "plic_wf bs p2" "layout p2 = layout p1"
          "riscv_irq_line p2 = riscv_irq_line p1" "lines_ok p2 (drive evs2 (drive evs1 w))"
          "\<forall>d < 16. \<forall>nr. riscv_irq_line p1 ! d = Some nr \<longrightarrow>
             drive evs2 (drive evs1 w) nr = (if d \<in> set cs then notify bs (layout p1) d else drive evs1 w nr)"
        using Cons.IH [OF a(2,5)] by auto
      show ?thesis
        by (rule exI [of _ p2], rule exI [of _ "evs1 @ evs2"])
          (use a b True in \<open>auto simp: drive_append split: if_splits\<close>)
    qed
  qed
qed

lemma sync_levels_spec:
  assumes "layout_wf bs l" "n + length hs \<le> VIRT_MAX_INTERRUPTS" "D ds"
    and "\<And>h ds. Some h \<in> set hs \<Longrightarrow> D ds \<Longrightarrow> \<exists>b ds'. poll h ds r = Some (b, ds') \<and> D ds'"
  shows "\<exists>l' ds'. sync_levels bs poll r n hs (l, ds) = Some (l', ds') \<and> layout_wf bs l' \<and> D ds'"
  using assms
proof (induction hs arbitrary: n l ds)
  case (Cons h hs)
  show ?case
  proof (cases h)
    case None
    have "\<exists>l' ds'. sync_levels bs poll r (Suc n) hs (l, ds) = Some (l', ds') \<and> layout_wf bs l' \<and> D ds'"
      using Cons.prems by (intro Cons.IH) simp_all
    then show ?thesis using None by simp
  next
    case (Some k)
    obtain b ds1 where poll: "poll k ds r = Some (b, ds1)" "D ds1" using Cons.prems(4) [of k ds] Cons.prems(3) Some by auto
    have n: "of_nat n \<in> ids" using Cons.prems(2) by (simp add: ids_def small_of_nat)
    obtain l1 where l1: "set_source_level bs (of_nat n) b l = Some l1" "layout_wf bs l1"
      by (rule set_source_level_spec [OF Cons.prems(1) n, of b])
    have "Suc n + length hs \<le> VIRT_MAX_INTERRUPTS" using Cons.prems(2) by simp
    then have "\<exists>l' ds'. sync_levels bs poll r (Suc n) hs (l1, ds1) = Some (l', ds') \<and> layout_wf bs l' \<and> D ds'"
      using l1(2) poll(2) Cons.prems(4) by (intro Cons.IH) simp_all
    then show ?thesis using Some poll(1) l1(1) by simp
  qed
qed simp

lemma refresh_events:
  "refresh_contexts bs cs p = Some (p', evs) \<Longrightarrow>
     riscv_irq_line p' = riscv_irq_line p \<and> peripheral_irq_devices p' = peripheral_irq_devices p
     \<and> (\<forall>(nr, b) \<in> set evs. Some nr \<in> set (riscv_irq_line p))"
proof (induction cs arbitrary: p evs)
  case (Cons c cs)
  show ?case
  proof (cases "c < 16")
    case True
    then obtain i p1 evs1 evs2 where a: "refresh_context_irq_line bs c p = Some (i, p1, evs1)" "refresh_contexts bs cs p1 = Some (p', evs2)"
        "evs = evs1 @ evs2"
      using Cons.prems by (auto simp: bind_eq_Some_conv)
    have "riscv_irq_line p1 = riscv_irq_line p" "peripheral_irq_devices p1 = peripheral_irq_devices p"
      "\<forall>(nr, b) \<in> set evs1. Some nr \<in> set (riscv_irq_line p)"
      using a(1) by (auto simp: refresh_context_irq_line_def set_context_irq_line_def bind_eq_Some_conv nth_opt_Some
        split: if_splits option.splits) (metis nth_mem)+
    then show ?thesis using Cons.IH [OF a(2)] a(3) by auto
  qed (use Cons in simp)
qed simp

text \<open>
  Whatever the levels of the lines are at the processor: a refresh drives the line of a listed context if the level
  is not the one it drove last, and leaves it alone otherwise.
\<close>

definition lines_apart :: "'b PLIC \<Rightarrow> bool" where
  "lines_apart p \<longleftrightarrow> (\<forall>c < VIRT_MAX_CONTEXTS. \<forall>d < VIRT_MAX_CONTEXTS.
     riscv_irq_line p ! c \<noteq> None \<longrightarrow> riscv_irq_line p ! c = riscv_irq_line p ! d \<longrightarrow> c = d)"

definition edge :: "bool option \<Rightarrow> bool \<Rightarrow> bool \<Rightarrow> bool" where
  "edge driven new level = (if driven = Some new then level else new)"

lemma refresh_contexts_total:
  assumes "plic_wf bs p"
  shows "\<exists>p' evs. refresh_contexts bs cs p = Some (p', evs) \<and> plic_wf bs p' \<and> layout p' = layout p"
  using assms
proof (induction cs arbitrary: p)
  case (Cons c cs)
  show ?case
  proof (cases "c < 16")
    case True
    show ?thesis
    proof (rule refresh_context_eq [OF Cons.prems True], goal_cases)
      case (1 i)
      let ?p = "p\<lparr>riscv_irq_level := (riscv_irq_level p)[c := Some (notify bs (layout p) c)]\<rparr>"
      have "plic_wf bs ?p" using Cons.prems by (simp add: plic_wf_def)
      from Cons.IH [OF this] 1 True show ?case by auto
    qed
  qed (use Cons in simp)
qed simp

lemma refresh_contexts_exact:
  assumes "plic_wf bs p" "lines_apart p" "refresh_contexts bs cs p = Some (p', evs)" "c < VIRT_MAX_CONTEXTS" "riscv_irq_line p ! c = Some nr"
  shows "drive evs w nr = (if c \<in> set cs then edge (riscv_irq_level p ! c) (notify bs (layout p) c) (w nr) else w nr)"
  using assms
proof (induction cs arbitrary: p evs w)
  case Nil
  then show ?case by (simp add: drive_def)
next
  case (Cons d cs)
  show ?case
  proof (cases "d < 16")
    case True
    let ?p = "p\<lparr>riscv_irq_level := (riscv_irq_level p)[d := Some (notify bs (layout p) d)]\<rparr>"
    let ?e = "if riscv_irq_level p ! d = Some (notify bs (layout p) d) then []
      else case riscv_irq_line p ! d of None \<Rightarrow> [] | Some nr \<Rightarrow> [(nr, notify bs (layout p) d)]"
    obtain evs2 where r: "refresh_contexts bs cs ?p = Some (p', evs2)" "evs = ?e @ evs2"
      by (rule refresh_context_eq [OF Cons.prems(1) True]) (use Cons.prems(3) True that in \<open>auto simp: bind_eq_Some_conv\<close>)
    have len: "length (riscv_irq_level p) = 16" using Cons.prems(1) by (simp add: plic_wf_def)
    have wf: "plic_wf bs ?p" "lines_apart ?p" using Cons.prems(1,2) by (simp_all add: plic_wf_def lines_apart_def)
    have ne: "riscv_irq_line p ! d \<noteq> Some nr" if "d \<noteq> c"
      using that True Cons.prems(2,4,5) unfolding lines_apart_def by (metis option.discI)
    have e: "drive ?e w nr = (if d = c then edge (riscv_irq_level p ! c) (notify bs (layout p) c) (w nr) else w nr)"
    proof (cases "d = c")
      case True
      then show ?thesis using Cons.prems(5) by (simp add: drive_def edge_def)
    next
      case False
      then show ?thesis using ne [OF False] by (simp add: drive_def split: option.splits)
    qed
    have ed: "edge (riscv_irq_level ?p ! c) (notify bs (layout ?p) c) x =
        (if d = c then x else edge (riscv_irq_level p ! c) (notify bs (layout p) c) x)" for x
      using True len by (simp add: edge_def nth_list_update)
    have "drive evs w nr = drive evs2 (drive ?e w) nr" by (simp only: r(2) drive_append)
    also have "\<dots> = (if c \<in> set cs then edge (riscv_irq_level ?p ! c) (notify bs (layout ?p) c) (drive ?e w nr) else drive ?e w nr)"
      by (rule Cons.IH [OF wf r(1) Cons.prems(4)]) (use Cons.prems(5) in simp)
    finally show ?thesis unfolding ed e by auto
  qed (use Cons in auto)
qed

text \<open>The devices that are asked for their levels may change; \<open>D\<close> is what they keep.\<close>

lemma update_lines_spec:
  assumes "plic_wf bs p" "lines_ok p w" "D ds"
    and "\<And>h ds. Some h \<in> set (peripheral_irq_devices p) \<Longrightarrow> D ds \<Longrightarrow> \<exists>b ds'. poll h ds r = Some (b, ds') \<and> D ds'"
  shows "\<exists>p' ds' evs. update_context_irq_lines bs poll r cs (p, ds) = Some (p', ds', evs)
     \<and> plic_wf bs p' \<and> lines_ok p' (drive evs w) \<and> D ds'
     \<and> riscv_irq_line p' = riscv_irq_line p \<and> peripheral_irq_devices p' = peripheral_irq_devices p
     \<and> (\<forall>(nr, b) \<in> set evs. Some nr \<in> set (riscv_irq_line p))
     \<and> (\<forall>c < VIRT_MAX_CONTEXTS. \<forall>nr. riscv_irq_line p ! c = Some nr \<longrightarrow>
          drive evs w nr = (if c \<in> set cs then notify bs (layout p') c else w nr))
     \<and> (\<forall>c < VIRT_MAX_CONTEXTS. \<forall>nr v. riscv_irq_line p ! c = Some nr \<longrightarrow>
          drive evs v nr = (if c \<in> set cs then edge (riscv_irq_level p ! c) (notify bs (layout p') c) (v nr) else v nr))"
proof -
  obtain l ds' where s: "sync_levels bs poll r 0 (peripheral_irq_devices p) (layout p, ds) = Some (l, ds')" "layout_wf bs l" "D ds'"
    using sync_levels_spec [of bs "layout p" 0 "peripheral_irq_devices p" D ds poll r] assms(1,3,4) by (auto simp: plic_wf_def)
  let ?p = "p\<lparr>layout := l\<rparr>"
  have wf: "plic_wf bs ?p" "lines_ok ?p w" "lines_apart ?p"
    using s(2) assms(1,2) by (auto simp: plic_wf_def lines_ok_def lines_apart_def)
  then obtain p' evs where c: "refresh_contexts bs cs ?p = Some (p', evs)" "plic_wf bs p'" "layout p' = l"
      "lines_ok p' (drive evs w)" "\<forall>c < VIRT_MAX_CONTEXTS. \<forall>nr. riscv_irq_line ?p ! c = Some nr \<longrightarrow>
          drive evs w nr = (if c \<in> set cs then notify bs l c else w nr)"
    using refresh_contexts_spec [of bs ?p w cs] by auto
  have ed: "\<forall>c < VIRT_MAX_CONTEXTS. \<forall>nr v. riscv_irq_line p ! c = Some nr \<longrightarrow>
      drive evs v nr = (if c \<in> set cs then edge (riscv_irq_level p ! c) (notify bs l c) (v nr) else v nr)"
    using refresh_contexts_exact [OF wf(1,3) c(1)] by simp
  have "update_context_irq_lines bs poll r cs (p, ds) = Some (p', ds', evs)"
    using s(1) c(1) by (simp add: update_context_irq_lines_def sync_peripheral_irq_levels_def)
  moreover have "riscv_irq_line p' = riscv_irq_line p" "peripheral_irq_devices p' = peripheral_irq_devices p"
    "\<forall>(nr, b) \<in> set evs. Some nr \<in> set (riscv_irq_line p)"
    using refresh_events [OF c(1)] by simp_all
  ultimately show ?thesis using s(3) c(2-5) ed by (intro exI conjI) (assumption | simp)+
qed

text \<open>
  C18.  Refreshing the lines of a set of contexts leaves every listed context's line at the level the
  architecture demands: high exactly when an enabled, requesting source has a priority above the threshold of
  the context.  The other lines keep their levels, and the levels the controller remembers stay those the
  processor has seen.
\<close>

theorem plic_lines:
  assumes "plic_wf bs p" "lines_ok p w" "\<And>h ds. Some h \<in> set (peripheral_irq_devices p) \<Longrightarrow> poll h ds r \<noteq> None"
  shows "\<exists>p' ds' evs. update_context_irq_lines bs poll r cs (p, ds) = Some (p', ds', evs)
     \<and> plic_wf bs p' \<and> lines_ok p' (drive evs w)
     \<and> (\<forall>c < VIRT_MAX_CONTEXTS. \<forall>nr. riscv_irq_line p ! c = Some nr \<longrightarrow>
          drive evs w nr = (if c \<in> set cs then notify bs (layout p') c else w nr))"
proof -
  have poll: "\<exists>b ds'. poll h ds r = Some (b, ds') \<and> True" if "Some h \<in> set (peripheral_irq_devices p)" for h ds
    using assms(3) [OF that, of ds] by (cases "poll h ds r") auto
  show ?thesis
    by (rule exE [OF update_lines_spec [OF assms(1,2), of "\<lambda>_. True" ds poll r cs, OF TrueI poll]], assumption)
      (elim exE conjE, intro exI conjI)
qed


section \<open>Who may overtake a request\<close>

lemma eligible_gateway:
  "layout_wf bs l \<Longrightarrow> eligible bs l c b i \<longleftrightarrow>
     i \<in> ids \<and> i \<noteq> 0 \<and> prio l i \<noteq> 0 \<and> (b \<longrightarrow> priority_threshold (contexts l ! c) < prio l i) \<and> enabled l c i
     \<and> gateway bs l i = Requested"
  by (auto simp: eligible_def gateway_def)

text \<open>
  What reaches the controller of a running board: a load or a store of four bytes by the guest, and the refresh of
  the lines before a batch.  Every event has the devices and the memory of its moment, so that the devices
  may raise and lower their levels at any time.  The log has the claims, each with its context and the source handed out.
\<close>

datatype plic_event = LoadAt u64 | StoreAt u64 u32 | Refresh "nat list"

fun plic_handle ::
  "'b BitSet \<Rightarrow> 'd poll \<Rightarrow> Ram \<Rightarrow> 'd list \<Rightarrow> plic_event \<Rightarrow> 'b PLIC \<Rightarrow> ((nat \<times> PeriphIrqId) list \<times> 'b PLIC) option" where
  "plic_handle bs poll r ds (LoadAt a) p =
     do { (v, p, ds) \<leftarrow> PLIC_read_impl bs poll r 4 a (p, ds);
          Some (case (decode_register a, v) of (Some (PlicClaimComplete c), Ok i) \<Rightarrow> [(c, i)] | _ \<Rightarrow> [], p) }"
| "plic_handle bs poll r ds (StoreAt a w) p =
     do { (v, p, ds) \<leftarrow> PLIC_write_impl bs poll r 4 a w (p, ds); Some ([], p) }"
| "plic_handle bs poll r ds (Refresh cs) p =
     do { (p, ds, evs) \<leftarrow> update_context_irq_lines bs poll r cs (p, ds); Some ([], p) }"

fun plic_run ::
  "'b BitSet \<Rightarrow> 'd poll \<Rightarrow> (plic_event \<times> 'd list \<times> Ram) list \<Rightarrow> 'b PLIC \<Rightarrow> ((nat \<times> PeriphIrqId) list \<times> 'b PLIC) option" where
  "plic_run bs poll [] p = Some ([], p)"
| "plic_run bs poll ((ev, ds, r) # t) p =
     do { (log, p) \<leftarrow> plic_handle bs poll r ds ev p; (log', p) \<leftarrow> plic_run bs poll t p; Some (log @ log', p) }"

text \<open>The event does not change a priority or an enable bit.\<close>

fun plic_quiet :: "plic_event \<Rightarrow> bool" where
  "plic_quiet (StoreAt a w) = (case decode_register a of Some (PlicPriority _) \<Rightarrow> False | Some (PlicEnable _ _) \<Rightarrow> False | _ \<Rightarrow> True)"
| "plic_quiet _ = True"

text \<open>\<open>j\<close> comes before \<open>i\<close> at a claim.\<close>

definition outranks :: "'b PLICLayout \<Rightarrow> PeriphIrqId \<Rightarrow> PeriphIrqId \<Rightarrow> bool" where
  "outranks l j i \<longleftrightarrow> j \<in> ids \<and> j \<noteq> 0 \<and> (prio l i < prio l j \<or> prio l j = prio l i \<and> j < i)"

fun completes_rival :: "'b PLICLayout \<Rightarrow> PeriphIrqId \<Rightarrow> plic_event \<Rightarrow> bool" where
  "completes_rival l i (StoreAt a w) = ((case decode_register a of Some reg \<Rightarrow> is_claim reg | None \<Rightarrow> False) \<and> outranks l w i)"
| "completes_rival l i _ = False"

text \<open>The sources that outrank \<open>i\<close> and are not in service.\<close>

definition rivals :: "'b BitSet \<Rightarrow> 'b PLICLayout \<Rightarrow> PeriphIrqId \<Rightarrow> PeriphIrqId set" where
  "rivals bs l i = {j. outranks l j i \<and> gateway bs l j \<noteq> Claimed}"

text \<open>What an event leaves alone, and how it may change the gateways other than by a claim.\<close>

definition same_config :: "'b PLICLayout \<Rightarrow> 'b PLICLayout \<Rightarrow> bool" where
  "same_config l l' \<longleftrightarrow> priority l' = priority l \<and> map enable (contexts l') = map enable (contexts l)"

definition sampled :: "'b BitSet \<Rightarrow> 'b PLICLayout \<Rightarrow> 'b PLICLayout \<Rightarrow> bool" where
  "sampled bs l l' \<longleftrightarrow> same_config l l' \<and> layout_wf bs l'
     \<and> (\<forall>j \<in> ids. gateway bs l' j = gateway bs l j \<or> gateway bs l j = Idle \<and> gateway bs l' j = Requested)"

lemma sync_levels_sampled:
  "sync_levels bs poll r n hs (l, ds) = Some (l', ds') \<Longrightarrow> layout_wf bs l \<Longrightarrow> n + length hs \<le> VIRT_MAX_INTERRUPTS \<Longrightarrow> sampled bs l l'"
proof (induction hs arbitrary: n l ds)
  case Nil
  then show ?case by (simp add: sampled_def same_config_def)
next
  case (Cons h hs)
  show ?case
  proof (cases h)
    case None
    then show ?thesis using Cons.IH [of "Suc n" l ds] Cons.prems by simp
  next
    case (Some k)
    obtain b ds1 l1 where s: "poll k ds r = Some (b, ds1)" "set_source_level bs (of_nat n) b l = Some l1"
        "sync_levels bs poll r (Suc n) hs (l1, ds1) = Some (l', ds')"
      using Cons.prems(1) Some by (auto simp: bind_eq_Some_conv)
    have n: "of_nat n \<in> ids" using Cons.prems(3) by (simp add: ids_def small_of_nat)
    have l1: "sampled bs l l1"
      by (rule set_source_level_spec [OF Cons.prems(2) n, of b])
        (use s(2) in \<open>auto simp: sampled_def same_config_def gateway_level_def\<close>)
    then have "sampled bs l1 l'" using Cons.IH [OF s(3)] Cons.prems(3) by (simp add: sampled_def)
    then show ?thesis using l1 by (auto simp: sampled_def same_config_def) (metis gateway.distinct(1))+
  qed
qed

lemma same_config_rank: "same_config l l' \<Longrightarrow> outranks l' j i = outranks l j i"
  by (simp add: same_config_def outranks_def prio_def)

lemma same_config_eligible:
  assumes "same_config l l'" "layout_wf bs l" "layout_wf bs l'" "c < VIRT_MAX_CONTEXTS" "eligible bs l c False i" "gateway bs l' i = Requested"
  shows "eligible bs l' c False i"
proof -
  have "c < length (contexts l)" "c < length (contexts l')"
    using assms(2-4) by (auto simp: layout_wf_def layout_shape_def)
  then have "enable (contexts l' ! c) = enable (contexts l ! c)"
    using assms(1) nth_map [of c "contexts l" enable] nth_map [of c "contexts l'" enable] by (simp add: same_config_def)
  then show ?thesis
    using assms by (simp add: eligible_gateway enabled_def prio_def same_config_def)
qed

lemma rivals_sampled:
  assumes "sampled bs l l'"
  shows "rivals bs l' i = rivals bs l i"
proof -
  have "gateway bs l' j = Claimed \<longleftrightarrow> gateway bs l j = Claimed" if "outranks l j i" for j
    using assms that by (auto simp: sampled_def outranks_def)
  moreover have "outranks l' j i = outranks l j i" for j
    by (rule same_config_rank) (use assms in \<open>simp add: sampled_def\<close>)
  ultimately show ?thesis unfolding rivals_def by blast
qed

lemma finite_rivals: "finite (rivals bs l i)"
proof (rule finite_subset)
  show "rivals bs l i \<subseteq> ids" by (auto simp: rivals_def outranks_def)
  show "finite ids" using ids_upt by (metis finite_set)
qed

lemma claim_step:
  assumes "layout_wf bs l" "d < VIRT_MAX_CONTEXTS" "eligible bs l c False i" "c < VIRT_MAX_CONTEXTS"
  shows "\<exists>v l'. read_claim bs d l = Some (v, l') \<and> layout_wf bs l' \<and> same_config l l'
     \<and> (v = i \<or> eligible bs l' c False i \<and> of_bool (d = c) + card (rivals bs l' i) \<le> card (rivals bs l i))"
proof (rule read_claim_spec [OF assms(1,2)])
  fix v l'
  assume a: "read_claim bs d l = Some (v, l')" "layout_wf bs l'"
    "v = 0 \<Longrightarrow> l' = l \<and> (\<forall>j. \<not> eligible bs l d False j)" "v \<noteq> 0 \<Longrightarrow> eligible bs l d False v"
    "\<And>j. v \<noteq> 0 \<Longrightarrow> eligible bs l d False j \<Longrightarrow> prio l j < prio l v \<or> (prio l v = prio l j \<and> v \<le> j)"
    "\<And>j. j \<in> ids \<Longrightarrow> v \<noteq> 0 \<Longrightarrow> gateway bs l' j = (if j = v then Claimed else gateway bs l j)"
    "priority l' = priority l" "contexts l' = contexts l"
  have cfg: "same_config l l'" using a(7,8) by (simp add: same_config_def)
  have i: "i \<in> ids" "gateway bs l i = Requested" using assms(3) eligible_gateway [OF assms(1)] by auto
  have "eligible bs l' c False i \<and> of_bool (d = c) + card (rivals bs l' i) \<le> card (rivals bs l i)" if "v \<noteq> i"
  proof (cases "v = 0")
    case True
    then show ?thesis using a(3) assms(3) by auto
  next
    case False
    have v: "v \<in> ids" "gateway bs l v = Requested" using a(4) [OF False] eligible_gateway [OF assms(1)] by auto
    have el: "eligible bs l' c False i"
      by (rule same_config_eligible [OF cfg assms(1) a(2) assms(4,3)]) (use a(6) [OF i(1) False] i(2) that in simp)
    have r: "rivals bs l' i = rivals bs l i - {v}"
      using a(6) False same_config_rank [OF cfg] by (auto simp: rivals_def outranks_def split: if_splits)
    have "v \<in> rivals bs l i" if "d = c"
      using a(5) [OF False, of i] assms(3) that v False \<open>v \<noteq> i\<close> by (auto simp: rivals_def outranks_def)
    then show ?thesis
      using el finite_rivals [of bs l i] card_Suc_Diff1 [of "rivals bs l i" v] card_Diff1_le [of "rivals bs l i" v] by (auto simp: r)
  qed
  then show ?thesis using a(1,2) cfg by blast
qed

lemma complete_step:
  assumes "layout_wf bs l" "d < VIRT_MAX_CONTEXTS" "eligible bs l c False i" "c < VIRT_MAX_CONTEXTS"
  shows "\<exists>l'. write_complete bs d w l = Some l' \<and> layout_wf bs l' \<and> same_config l l'
     \<and> eligible bs l' c False i \<and> card (rivals bs l' i) \<le> card (rivals bs l i) + of_bool (outranks l w i)"
proof (rule write_complete_spec [OF assms(1,2), of w])
  fix l'
  assume a: "write_complete bs d w l = Some l'" "layout_wf bs l'"
    "\<And>j. j \<in> ids \<Longrightarrow> gateway bs l' j =
       (if j = w \<and> w \<noteq> 0 \<and> enabled l d w then gateway_complete (bitof (source_level l) w) (gateway bs l j) else gateway bs l j)"
    "priority l' = priority l" "contexts l' = contexts l"
  have cfg: "same_config l l'" using a(4,5) by (simp add: same_config_def)
  have i: "i \<in> ids" "gateway bs l i = Requested" using assms(3) eligible_gateway [OF assms(1)] by auto
  have el: "eligible bs l' c False i"
    by (rule same_config_eligible [OF cfg assms(1) a(2) assms(4,3)]) (use a(3) [OF i(1)] i(2) in \<open>auto simp: gateway_complete_def\<close>)
  have sub: "rivals bs l' i \<subseteq> (if outranks l w i then insert w (rivals bs l i) else rivals bs l i)"
    using a(3) same_config_rank [OF cfg] by (auto simp: rivals_def outranks_def split: if_splits)
  have "card (rivals bs l' i) \<le> card (if outranks l w i then insert w (rivals bs l i) else rivals bs l i)"
    by (rule card_mono [OF _ sub]) (simp add: finite_rivals)
  also have "\<dots> \<le> card (rivals bs l i) + of_bool (outranks l w i)"
    using finite_rivals [of bs l i] by (simp add: card_insert_if)
  finally show ?thesis using a(1,2) cfg el by blast
qed

lemma sampled_step:
  assumes "sampled bs l l'" "layout_wf bs l" "eligible bs l c False i" "c < VIRT_MAX_CONTEXTS"
  shows "layout_wf bs l'" "same_config l l'" "eligible bs l' c False i" "rivals bs l' i = rivals bs l i"
proof -
  show wf: "layout_wf bs l'" and cfg: "same_config l l'" using assms(1) by (simp_all add: sampled_def)
  have "i \<in> ids" "gateway bs l i = Requested" using assms(3) eligible_gateway [OF assms(2)] by auto
  then have "gateway bs l' i = Requested" using assms(1) by (auto simp: sampled_def)
  then show "eligible bs l' c False i" by (rule same_config_eligible [OF cfg assms(2) wf assms(4,3)])
qed (rule rivals_sampled [OF assms(1)])

lemma same_config_trans: "same_config l l' \<Longrightarrow> same_config l' l'' \<Longrightarrow> same_config l l''"
  by (simp add: same_config_def)

text \<open>Asking a registered device for its level always returns.\<close>

definition pollable :: "'d poll \<Rightarrow> 'b PLIC \<Rightarrow> bool" where
  "pollable poll p \<longleftrightarrow> (\<forall>h ds r. Some h \<in> set (peripheral_irq_devices p) \<longrightarrow> poll h ds r \<noteq> None)"

lemma sync_step:
  assumes "plic_wf bs p" "pollable poll p"
  shows "\<exists>l ds'. sync_peripheral_irq_levels bs poll r (p, ds) = Some (p\<lparr>layout := l\<rparr>, ds') \<and> sampled bs (layout p) l"
proof -
  have poll: "\<exists>b ds'. poll h ds r = Some (b, ds') \<and> True" if "Some h \<in> set (peripheral_irq_devices p)" for h ds
    using assms(2) that unfolding pollable_def by (metis option.exhaust surj_pair)
  have wf: "layout_wf bs (layout p)" "0 + length (peripheral_irq_devices p) \<le> VIRT_MAX_INTERRUPTS"
    using assms(1) by (simp_all add: plic_wf_def)
  obtain l ds' where s: "sync_levels bs poll r 0 (peripheral_irq_devices p) (layout p, ds) = Some (l, ds')"
    using sync_levels_spec [of bs "layout p" 0 "peripheral_irq_devices p" "\<lambda>_. True" ds poll r, OF wf TrueI poll] by blast
  then have "sync_peripheral_irq_levels bs poll r (p, ds) = Some (p\<lparr>layout := l\<rparr>, ds')"
    by (simp add: sync_peripheral_irq_levels_def)
  then show ?thesis using sync_levels_sampled [OF s wf] by blast
qed

text \<open>One event while \<open>i\<close> waits: either \<open>i\<close> is handed out, or it goes on waiting.\<close>

definition waits :: "'b BitSet \<Rightarrow> nat \<Rightarrow> PeriphIrqId \<Rightarrow> 'b PLIC \<Rightarrow> (nat \<times> PeriphIrqId) list \<Rightarrow> nat \<Rightarrow> 'b PLIC \<Rightarrow> bool" where
  "waits bs c i p log n p' \<longleftrightarrow> i \<in> snd ` set log \<or> eligible bs (layout p') c False i
     \<and> length (filter (\<lambda>x. fst x = c) log) + card (rivals bs (layout p') i) \<le> card (rivals bs (layout p) i) + n"

definition plic_calm :: "'b BitSet \<Rightarrow> 'b PLIC \<Rightarrow> 'b PLIC \<Rightarrow> bool" where
  "plic_calm bs p p' \<longleftrightarrow> plic_wf bs p' \<and> peripheral_irq_devices p' = peripheral_irq_devices p \<and> same_config (layout p) (layout p')"

lemma plic_calm_layout: "plic_wf bs p \<Longrightarrow> layout_wf bs l \<Longrightarrow> same_config (layout p) l \<Longrightarrow> plic_calm bs p (p\<lparr>layout := l\<rparr>)"
  by (simp add: plic_calm_def plic_wf_def)

lemma handle_load:
  assumes wf: "plic_wf bs p" and poll: "pollable poll p"
    and i: "eligible bs (layout p) c False i" "c < VIRT_MAX_CONTEXTS"
  shows "\<exists>log p'. plic_handle bs poll r ds (LoadAt a) p = Some (log, p') \<and> plic_calm bs p p' \<and> waits bs c i p log 0 p'"
proof -
  have l: "layout_wf bs (layout p)" using wf by (simp add: plic_wf_def)
  have idle: "plic_calm bs p p" "waits bs c i p [] 0 p"
    using wf i by (simp_all add: plic_calm_def waits_def same_config_def)
  show ?thesis
  proof (cases "decode_register a")
    case None
    then show ?thesis using idle by (simp add: PLIC_read_impl_def)
  next
    case (Some reg)
    show ?thesis
    proof (cases "is_claim reg")
      case True
      then obtain d where d: "reg = PlicClaimComplete d" "d < 16" using decode_register_valid [OF Some] by (cases reg) auto
      obtain l1 ds' where s: "sync_peripheral_irq_levels bs poll r (p, ds) = Some (p\<lparr>layout := l1\<rparr>, ds')" "sampled bs (layout p) l1"
        using sync_step [OF wf poll] by blast
      note s1 = sampled_step [OF s(2) l i]
      obtain v l2 where v: "read_claim bs d l1 = Some (v, l2)" "layout_wf bs l2" "same_config l1 l2"
          "v = i \<or> eligible bs l2 c False i \<and> of_bool (d = c) + card (rivals bs l2 i) \<le> card (rivals bs l1 i)"
        using claim_step [OF s1(1) d(2) s1(3) i(2)] by blast
      have "plic_calm bs p (p\<lparr>layout := l2\<rparr>)" by (rule plic_calm_layout [OF wf v(2) same_config_trans [OF s1(2) v(3)]])
      moreover have "waits bs c i p [(d, v)] 0 (p\<lparr>layout := l2\<rparr>)" using v(4) s1(4) by (auto simp: waits_def)
      moreover have "plic_handle bs poll r ds (LoadAt a) p = Some ([(d, v)], p\<lparr>layout := l2\<rparr>)"
        using Some d(1) s(1) v(1) by (simp add: PLIC_read_impl_def)
      ultimately show ?thesis by blast
    next
      case False
      then obtain v where "read_register bs reg (layout p) = Some (v, layout p)"
        using l decode_register_valid [OF Some] by (cases reg) (auto simp: layout_wf_def layout_shape_def ids_def)
      then have "PLIC_read_impl bs poll r 4 a (p, ds) = Some (Ok v, p, ds)" using Some False by (simp add: PLIC_read_impl_def)
      then have "plic_handle bs poll r ds (LoadAt a) p = Some ([], p)" using Some False by (cases reg) simp_all
      then show ?thesis using idle by blast
    qed
  qed
qed

lemma handle_store:
  assumes wf: "plic_wf bs p" and poll: "pollable poll p"
    and i: "eligible bs (layout p) c False i" "c < VIRT_MAX_CONTEXTS" and quiet: "plic_quiet (StoreAt a w)"
  shows "\<exists>p'. plic_handle bs poll r ds (StoreAt a w) p = Some ([], p') \<and> plic_calm bs p p'
     \<and> waits bs c i p [] (of_bool (completes_rival (layout p) i (StoreAt a w))) p'"
proof -
  have l: "layout_wf bs (layout p)" using wf by (simp add: plic_wf_def)
  have idle: "plic_calm bs p p" "waits bs c i p [] n p" for n
    using wf i by (simp_all add: plic_calm_def waits_def same_config_def)
  show ?thesis
  proof (cases "decode_register a")
    case None
    then show ?thesis using idle by (simp add: PLIC_write_impl_def)
  next
    case (Some reg)
    then show ?thesis
    proof (cases reg)
      case (PlicThreshold d)
      then have d: "d < 16" using decode_register_valid [OF Some] by simp
      obtain l' where l': "write_priority_threshold d w (layout p) = Some l'" "layout_wf bs l'" "gateway bs l' = gateway bs (layout p)"
        using write_config_spec(1) [OF l d] by blast
      have "map enable (contexts l') = map enable (contexts (layout p))" "priority l' = priority (layout p)"
        using l'(1) by (auto simp: write_priority_threshold_def bind_eq_Some_conv nth_opt_Some upd_opt_Some map_update
          list_update_same_conv)
      then have sm: "sampled bs (layout p) l'" using l' by (simp add: sampled_def same_config_def)
      note s1 = sampled_step [OF sm l i]
      then show ?thesis
        using Some PlicThreshold l' plic_calm_layout [OF wf s1(1,2)] by (simp add: PLIC_write_impl_def waits_def)
    next
      case (PlicClaimComplete d)
      then have d: "d < 16" using decode_register_valid [OF Some] by simp
      obtain l1 ds' where s: "sync_peripheral_irq_levels bs poll r (p, ds) = Some (p\<lparr>layout := l1\<rparr>, ds')" "sampled bs (layout p) l1"
        using sync_step [OF wf poll] by blast
      note s1 = sampled_step [OF s(2) l i]
      obtain l2 where v: "write_complete bs d w l1 = Some l2" "layout_wf bs l2" "same_config l1 l2" "eligible bs l2 c False i"
          "card (rivals bs l2 i) \<le> card (rivals bs l1 i) + of_bool (outranks l1 w i)"
        using complete_step [OF s1(1) d s1(3) i(2)] by blast
      have "plic_calm bs p (p\<lparr>layout := l2\<rparr>)" by (rule plic_calm_layout [OF wf v(2) same_config_trans [OF s1(2) v(3)]])
      moreover have "waits bs c i p [] (of_bool (completes_rival (layout p) i (StoreAt a w))) (p\<lparr>layout := l2\<rparr>)"
        using v(4,5) s1(4) same_config_rank [OF s1(2), of w i] Some PlicClaimComplete by (simp add: waits_def)
      moreover have "plic_handle bs poll r ds (StoreAt a w) p = Some ([], p\<lparr>layout := l2\<rparr>)"
        using Some PlicClaimComplete s(1) v(1) by (simp add: PLIC_write_impl_def)
      ultimately show ?thesis by blast
    qed (use quiet idle in \<open>simp_all add: PLIC_write_impl_def\<close>)
  qed
qed

lemma handle_refresh:
  assumes wf: "plic_wf bs p" and poll: "pollable poll p"
    and i: "eligible bs (layout p) c False i" "c < VIRT_MAX_CONTEXTS"
  shows "\<exists>p'. plic_handle bs poll r ds (Refresh cs) p = Some ([], p') \<and> plic_calm bs p p' \<and> waits bs c i p [] 0 p'"
proof -
  have l: "layout_wf bs (layout p)" using wf by (simp add: plic_wf_def)
  obtain l1 ds' where s: "sync_peripheral_irq_levels bs poll r (p, ds) = Some (p\<lparr>layout := l1\<rparr>, ds')" "sampled bs (layout p) l1"
    using sync_step [OF wf poll] by blast
  note s1 = sampled_step [OF s(2) l i]
  have "plic_wf bs (p\<lparr>layout := l1\<rparr>)" using wf s1(1) by (simp add: plic_wf_def)
  then obtain p' evs where p': "refresh_contexts bs cs (p\<lparr>layout := l1\<rparr>) = Some (p', evs)" "plic_wf bs p'" "layout p' = l1"
    using refresh_contexts_total [of bs "p\<lparr>layout := l1\<rparr>" cs] by auto
  then show ?thesis using s(1) s1 refresh_events [OF p'(1)]
    by (simp add: update_context_irq_lines_def plic_calm_def waits_def)
qed

lemma handle_waits:
  assumes "plic_wf bs p" "pollable poll p"
    and "eligible bs (layout p) c False i" "c < VIRT_MAX_CONTEXTS" "plic_quiet ev"
  shows "\<exists>log p'. plic_handle bs poll r ds ev p = Some (log, p') \<and> plic_calm bs p p'
     \<and> waits bs c i p log (of_bool (completes_rival (layout p) i ev)) p'"
proof (cases ev)
  case (LoadAt a)
  then show ?thesis using handle_load [OF assms(1-4), of r ds a] by (simp only: completes_rival.simps of_bool_eq)
next
  case (StoreAt a w)
  then show ?thesis using handle_store [OF assms(1-4), of a w r ds] assms(5) by blast
next
  case (Refresh cs)
  then show ?thesis using handle_refresh [OF assms(1-4), of r ds cs] by (simp only: completes_rival.simps of_bool_eq) blast
qed

lemma handle_total:
  assumes "plic_wf bs p" "pollable poll p"
  shows "\<exists>log p'. plic_handle bs poll r ds ev p = Some (log, p') \<and> plic_wf bs p'
     \<and> peripheral_irq_devices p' = peripheral_irq_devices p"
proof -
  define ok where "ok p' \<longleftrightarrow> plic_wf bs p' \<and> peripheral_irq_devices p' = peripheral_irq_devices p" for p'
  have l: "layout_wf bs (layout p)" and p: "ok p" using assms(1) by (simp_all add: plic_wf_def ok_def)
  have wf: "ok (p\<lparr>layout := l\<rparr>)" if "layout_wf bs l" for l using assms(1) that by (simp add: plic_wf_def ok_def)
  obtain l1 ds' where s: "sync_peripheral_irq_levels bs poll r (p, ds) = Some (p\<lparr>layout := l1\<rparr>, ds')" "layout_wf bs l1"
    using sync_step [OF assms, of r ds] unfolding sampled_def by blast
  have "\<exists>log p'. plic_handle bs poll r ds ev p = Some (log, p') \<and> ok p'"
  proof (cases ev)
    case (LoadAt a)
    have "\<exists>v p' ds'. PLIC_read_impl bs poll r 4 a (p, ds) = Some (v, p', ds') \<and> ok p'"
    proof (cases "decode_register a")
      case None
      then show ?thesis using p by (simp add: PLIC_read_impl_def)
    next
      case (Some reg)
      then show ?thesis
        using read_register_spec [OF l Some] read_register_spec [OF s(2) Some] s(1) wf by (auto simp: PLIC_read_impl_def)
    qed
    then show ?thesis using LoadAt by auto
  next
    case (StoreAt a w)
    have "\<exists>v p' ds'. PLIC_write_impl bs poll r 4 a w (p, ds) = Some (v, p', ds') \<and> ok p'"
    proof (cases "decode_register a")
      case None
      then show ?thesis using p by (simp add: PLIC_write_impl_def)
    next
      case (Some reg)
      then show ?thesis
        using write_register_spec [OF l Some, of w] write_register_spec [OF s(2) Some, of w] s(1) wf p
        by (cases reg) (auto simp: PLIC_write_impl_def)
    qed
    then show ?thesis using StoreAt by auto
  next
    case (Refresh cs)
    have "plic_wf bs (p\<lparr>layout := l1\<rparr>)" using wf [OF s(2)] by (simp add: ok_def)
    then obtain p' evs where p': "refresh_contexts bs cs (p\<lparr>layout := l1\<rparr>) = Some (p', evs)" "plic_wf bs p'"
      using refresh_contexts_total [of bs "p\<lparr>layout := l1\<rparr>" cs] by blast
    then show ?thesis using Refresh s(1) refresh_events [OF p'(1)] by (simp add: update_context_irq_lines_def ok_def)
  qed
  then show ?thesis by (simp add: ok_def)
qed

lemma run_total:
  assumes "plic_wf bs p" "pollable poll p"
  shows "\<exists>log p'. plic_run bs poll t p = Some (log, p') \<and> plic_wf bs p'"
  using assms
proof (induction t arbitrary: p)
  case (Cons e t)
  obtain ev ds r where e: "e = (ev, ds, r)" by (cases e)
  obtain log p1 where s: "plic_handle bs poll r ds ev p = Some (log, p1)" "plic_wf bs p1" "peripheral_irq_devices p1 = peripheral_irq_devices p"
    using handle_total [OF Cons.prems] by blast
  then have "pollable poll p1" using Cons.prems(2) by (simp add: pollable_def)
  from Cons.IH [OF s(2) this] show ?case using s(1) by (auto simp: e)
qed simp

lemma run_waits:
  assumes "plic_wf bs p" "pollable poll p" "eligible bs (layout p) c False i" "c < VIRT_MAX_CONTEXTS" "\<forall>e \<in> set t. plic_quiet (fst e)"
    and "plic_run bs poll t p = Some (log, p')"
  shows "waits bs c i p log (length (filter (\<lambda>e. completes_rival (layout p) i (fst e)) t)) p'"
  using assms
proof (induction t arbitrary: p log)
  case Nil
  then show ?case by (simp add: waits_def)
next
  case (Cons e t)
  obtain ev ds r where e: "e = (ev, ds, r)" by (cases e)
  then obtain log1 p1 where s: "plic_handle bs poll r ds ev p = Some (log1, p1)" "plic_calm bs p p1"
      "waits bs c i p log1 (of_bool (completes_rival (layout p) i ev)) p1"
    using handle_waits [OF Cons.prems(1-4), of ev r ds] Cons.prems(5) by auto
  obtain log2 where l: "plic_run bs poll t p1 = Some (log2, p')" "log = log1 @ log2"
    using Cons.prems(6) s(1) by (auto simp: e bind_eq_Some_conv)
  show ?case
  proof (cases "i \<in> snd ` set log1")
    case True
    then show ?thesis by (auto simp: waits_def l(2))
  next
    case False
    have p1: "plic_wf bs p1" "pollable poll p1" "same_config (layout p) (layout p1)"
      using s(2) Cons.prems(2) by (simp_all add: plic_calm_def pollable_def)
    have el: "eligible bs (layout p1) c False i"
        "length (filter (\<lambda>x. fst x = c) log1) + card (rivals bs (layout p1) i)
           \<le> card (rivals bs (layout p) i) + of_bool (completes_rival (layout p) i ev)"
      using s(3) False by (auto simp: waits_def)
    have "completes_rival (layout p1) i x = completes_rival (layout p) i x" for x
      using same_config_rank [OF p1(3)] by (cases x) simp_all
    then have "waits bs c i p1 log2 (length (filter (\<lambda>e. completes_rival (layout p) i (fst e)) t)) p'"
      using Cons.IH [OF p1(1,2) el(1) Cons.prems(4) _ l(1)] Cons.prems(5) by simp
    then show ?thesis using el(2) by (auto simp: waits_def l(2) e)
  qed
qed

text \<open>
  C17.  A waiting request can only be overtaken by sources that outrank it, by each of them once and once more for
  every time the guest completes it.  Let a source be requesting, enabled for a context and of a priority above 0.  In
  every sequence of guest accesses to the controller and refreshes of the lines, with the devices raising and lowering
  their levels in between, in which no priority and no enable bit is written, every access returns, and either a claim
  has handed out the source, or it is still waiting and the context has made at most as many claims as there are
  sources of a higher priority, or of the same priority and a lower number, plus the completions written for such sources.
\<close>

theorem plic_bounded_overtaking:
  assumes "plic_wf bs p" "pollable poll p" "eligible bs (layout p) c False i" "c < VIRT_MAX_CONTEXTS" "\<forall>e \<in> set t. plic_quiet (fst e)"
  shows "\<exists>log p'. plic_run bs poll t p = Some (log, p') \<and> plic_wf bs p'
     \<and> (i \<in> snd ` set log \<or> eligible bs (layout p') c False i
          \<and> length (filter (\<lambda>x. fst x = c) log)
             \<le> card {j. outranks (layout p) j i} + length (filter (\<lambda>e. completes_rival (layout p) i (fst e)) t))"
proof -
  obtain log p' where r: "plic_run bs poll t p = Some (log, p')" "plic_wf bs p'" using run_total [OF assms(1,2)] by blast
  have "finite ids" using ids_upt by (metis finite_set)
  then have "finite {j. outranks (layout p) j i}" by (rule rev_finite_subset) (auto simp: outranks_def)
  then have "card (rivals bs (layout p) i) \<le> card {j. outranks (layout p) j i}"
    by (rule card_mono) (auto simp: rivals_def)
  then show ?thesis using r run_waits [OF assms r(1)] by (auto simp: waits_def)
qed

section \<open>Witnesses\<close>

text \<open>Source 10 requests with priority 5 and is enabled for context 0.\<close>

definition example_layout :: "nat list PLICLayout" where
  "example_layout =
     (let prio = (replicate 64 0)[10 := 5] in
      \<lparr>priority = prio, pending = [0x400, 0], source_level = [0x400, 0],
       contexts = (replicate 16 PLICContext_new)[0 := \<lparr>enable = [0x400, 0], priority_threshold = 0\<rparr>],
       priority_order = sort_key (priority_key prio) (map of_nat [0..<64]), interrupt_sources_busy = []\<rparr>)"

lemma example_layout_wf: "layout_wf list_bitset example_layout"
proof -
  have "inj_on (of_nat :: nat \<Rightarrow> u32) {0..<64}"
    by (rule inj_onI) (metis atLeastLessThan_iff small_of_nat)
  then have "order_ok example_layout"
    using ids_upt by (auto simp: order_ok_def example_layout_def Let_def distinct_map)
  moreover have "layout_shape example_layout"
    by (auto simp: layout_shape_def example_layout_def Let_def PLICContext_new_def
      dest!: set_update_subset_insert [THEN subsetD])
  moreover have "\<not> claimed list_bitset example_layout i" for i
    by (simp add: claimed_def list_bitset_def example_layout_def Let_def)
  ultimately show ?thesis by (simp add: layout_wf_def list_bitset_laws)
qed

lemma example_eligible: "eligible list_bitset example_layout 0 b i \<longleftrightarrow> i = 10"
proof -
  have "i = 10" if "priority example_layout ! unat i \<noteq> 0" "i \<in> ids"
  proof -
    have "unat i = unat (10 :: u32)"
      using that by (auto simp: example_layout_def Let_def nth_list_update ids_def split: if_splits)
    then show ?thesis by (rule word_unat_eq_iff [THEN iffD2])
  qed
  moreover have "bit (0x400 :: u32) 10" by (simp add: bit_numeral_rec)
  ultimately show ?thesis
    by (auto simp: eligible_def claimed_def list_bitset_def enabled_def bitof_def prio_def ids_def)
      (simp_all add: example_layout_def Let_def)
qed

theorem plic_claim_highest_witness:
  "\<exists>l'. read_claim list_bitset 0 example_layout = Some (10, l') \<and> gateway list_bitset l' 10 = Claimed"
  using plic_claim_highest [OF example_layout_wf, of 0] by (auto simp: example_eligible ids_def)

theorem plic_gateway_witness:
  "\<exists>v l'. decode_register 0x200004 = Some (PlicClaimComplete 0)
     \<and> read_register list_bitset (PlicClaimComplete 0) example_layout = Some (v, l') \<and> layout_wf list_bitset l'"
proof -
  have "decode_register 0x200004 = Some (PlicClaimComplete 0)" by (simp add: decode_register_def)
  then show ?thesis using plic_gateway [OF example_layout_wf, where a = "0x200004"] by blast
qed

theorem plic_bounded_overtaking_witness:
  "\<exists>v p'. plic_run list_bitset (\<lambda>h ds r. Some (True, ds))
       [(Refresh [0, 1], [()], Ram_new 0), (LoadAt 0x200004, [()], Ram_new 0)] ((PLIC_new list_bitset)\<lparr>layout := example_layout\<rparr>)
     = Some ([(0, v)], p') \<and> v = 10"
proof -
  let ?p = "(PLIC_new list_bitset)\<lparr>layout := example_layout\<rparr>" and ?poll = "\<lambda>h ds r. Some (True, ds :: unit list)"
  let ?t = "[(Refresh [0, 1], [()], Ram_new 0), (LoadAt 0x200004, [()], Ram_new 0)]"
  have p: "plic_wf list_bitset ?p" "pollable ?poll ?p" "eligible list_bitset (layout ?p) 0 False 10" "\<forall>e \<in> set ?t. plic_quiet (fst e)"
    by (simp_all add: plic_wf_def example_layout_wf PLIC_new_def pollable_def example_eligible)
  have "prio example_layout j = (if unat j = 10 then 5 else 0)" if "j \<in> ids" for j
    using that by (simp add: prio_def example_layout_def Let_def ids_def nth_list_update)
  then have none: "\<not> outranks (layout ?p) j 10" for j
    by (auto simp: outranks_def ids_def word_less_nat_alt)
  obtain log p' where r: "plic_run list_bitset ?poll ?t ?p = Some (log, p')"
      "10 \<in> snd ` set log \<or> length (filter (\<lambda>x. fst x = 0) log) \<le> 0"
    using plic_bounded_overtaking [OF p(1-3) _ p(4)] none by auto
  have "decode_register 0x200004 = Some (PlicClaimComplete 0)" by (simp add: decode_register_def)
  then obtain v where "log = [(0, v)]"
    using r(1) by (auto simp: PLIC_read_impl_def bind_eq_Some_conv)
  then show ?thesis using r by auto
qed

theorem plic_lines_witness:
  "\<exists>p' ds' evs. update_context_irq_lines list_bitset (\<lambda>h ds r. Some (True, ds)) (Ram_new 0) [0, 1]
       ((PLIC_new list_bitset)\<lparr>layout := example_layout, riscv_irq_line := (replicate 16 None)[0 := Some MachineExternal]\<rparr>, [()])
     = Some (p', ds', evs) \<and> drive evs (\<lambda>_. False) MachineExternal = notify list_bitset (layout p') 0"
proof -
  let ?p = "(PLIC_new list_bitset)\<lparr>layout := example_layout, riscv_irq_line := (replicate 16 None)[0 := Some MachineExternal]\<rparr>"
  have "plic_wf list_bitset ?p" by (simp add: plic_wf_def example_layout_wf PLIC_new_def)
  moreover have "lines_ok ?p (\<lambda>_. False)"
    by (auto simp: lines_ok_def PLIC_new_def nth_list_update nth_Cons split: if_splits)
  ultimately show ?thesis
    using plic_lines [of list_bitset ?p "\<lambda>_. False" "\<lambda>h ds r. Some (True, ds)" "Ram_new 0" "[0, 1]" "[()]"] by force
qed

end
