(* ===== verification/Uart.thy ===== *)
theory Uart
  imports Mmio
begin

unbundle bit_operations_syntax

text \<open>
  The serial port, \<open>src/device/uart16550a/mod.rs\<close>, \<open>reg.rs\<close> and \<open>io.rs\<close>.

  Every register is a byte whose fields are the bits \<open>reg.rs\<close> declares, lowest first.  The two channels to the
  host are those of the \<open>tokio\<close> package: the argument \<open>ch\<close> holds the operations the port uses, and
  \<open>channel_laws\<close> states that the input channel is a queue.
\<close>

section \<open>Registers\<close>

record Uart16550RegLayout =
  receiver_buffer_register :: u8
  transmitter_holding_register :: u8
  interrupt_enable_register :: u8
  interrupt_identification_register :: u8
  fifo_control_register :: u8
  line_control_register :: u8
  modem_control_register :: u8
  line_status_register :: u8
  modem_status_register :: u8
  scratch_register :: u8
  divisor_latch_register_l :: u8
  divisor_latch_register_h :: u8

definition Uart16550RegLayout_default :: Uart16550RegLayout where
  "Uart16550RegLayout_default =
     \<lparr>receiver_buffer_register = 0, transmitter_holding_register = 0, interrupt_enable_register = 0,
      interrupt_identification_register = 0xC1, fifo_control_register = 0xC0, line_control_register = 0x03,
      modem_control_register = 0, line_status_register = 0x60, modem_status_register = 0, scratch_register = 0,
      divisor_latch_register_l = 1, divisor_latch_register_h = 0\<rparr>"

definition divisor_latch_enable :: "Uart16550RegLayout \<Rightarrow> bool" where
  "divisor_latch_enable r = bit (line_control_register r) 7"

definition put_bit :: "nat \<Rightarrow> bool \<Rightarrow> u8 \<Rightarrow> u8" where
  "put_bit n b w = (if b then w OR push_bit n 1 else w AND NOT (push_bit n 1))"

definition line_status_interrupt :: "u8 \<Rightarrow> bool" where
  "line_status_interrupt lsr \<longleftrightarrow> lsr AND 0x1E \<noteq> 0"

definition clear_error_indicators :: "u8 \<Rightarrow> u8" where
  "clear_error_indicators lsr = put_bit 7 False (put_bit 4 False (put_bit 3 False (put_bit 2 False (put_bit 1 False lsr))))"

definition msr_interrupt_pending :: "u8 \<Rightarrow> bool" where
  "msr_interrupt_pending msr \<longleftrightarrow> msr AND 0x0F \<noteq> 0"

definition clear_delta_indicators :: "u8 \<Rightarrow> u8" where
  "clear_delta_indicators msr = put_bit 3 False (put_bit 2 False (put_bit 1 False (put_bit 0 False msr)))"

definition reg_read :: "nat \<Rightarrow> Uart16550RegLayout \<Rightarrow> u8 option" where
  "reg_read offset r =
     (let divisor = divisor_latch_enable r in
      if offset = 0 \<and> \<not> divisor then Some (receiver_buffer_register r)
      else if offset = 0 then Some (divisor_latch_register_l r)
      else if offset = 1 \<and> \<not> divisor then Some (interrupt_enable_register r)
      else if offset = 1 then Some (divisor_latch_register_h r)
      else if offset = 2 then Some (interrupt_identification_register r)
      else if offset = 3 then Some (line_control_register r)
      else if offset = 4 then Some (modem_control_register r)
      else if offset = 5 then Some (line_status_register r)
      else if offset = 6 then Some (modem_status_register r)
      else if offset = 7 then Some (scratch_register r)
      else None)"

definition reg_write :: "nat \<Rightarrow> u8 \<Rightarrow> Uart16550RegLayout \<Rightarrow> Uart16550RegLayout option" where
  "reg_write offset v r =
     (let divisor = divisor_latch_enable r in
      if offset = 0 \<and> \<not> divisor then Some (r\<lparr>transmitter_holding_register := v\<rparr>)
      else if offset = 0 then Some (r\<lparr>divisor_latch_register_l := v\<rparr>)
      else if offset = 1 \<and> \<not> divisor then Some (r\<lparr>interrupt_enable_register := v\<rparr>)
      else if offset = 1 then Some (r\<lparr>divisor_latch_register_h := v\<rparr>)
      else if offset = 2 then Some (r\<lparr>fifo_control_register := v\<rparr>)
      else if offset = 3 then Some (r\<lparr>line_control_register := v\<rparr>)
      else if offset = 4 then Some (r\<lparr>modem_control_register := v\<rparr>)
      else if offset = 5 then Some (r\<lparr>line_status_register := v\<rparr>)
      else if offset = 6 then Some (r\<lparr>modem_status_register := v\<rparr>)
      else if offset = 7 then Some (r\<lparr>scratch_register := v\<rparr>)
      else None)"

section \<open>The port\<close>

text \<open>\<open>ip\<close> has the flags \<open>MODEM_STATUS\<close>, \<open>THRE\<close>, \<open>RDA\<close> and \<open>RECEIVER_LINE_STATUS\<close> in its bits 0 to 3.\<close>

record ('q, 'o) Uart16550A =
  reg :: Uart16550RegLayout
  input_rx :: 'q
  output_tx :: 'o
  ip :: u8

record ('q, 'o) uart_channels =
  try_recv :: "'q \<Rightarrow> u8 option \<times> 'q"
  send :: "'o \<Rightarrow> u8 \<Rightarrow> 'o"

definition channel_laws :: "('q, 'o) uart_channels \<Rightarrow> ('q \<Rightarrow> u8 list) \<Rightarrow> bool" where
  "channel_laws ch contents \<longleftrightarrow>
     (\<forall>q. case contents q of
            [] \<Rightarrow> fst (try_recv ch q) = None \<and> contents (snd (try_recv ch q)) = []
          | b # bs \<Rightarrow> fst (try_recv ch q) = Some b \<and> contents (snd (try_recv ch q)) = bs)"

definition from_channel :: "'q \<Rightarrow> 'o \<Rightarrow> ('q, 'o) Uart16550A" where
  "from_channel rx tx = \<lparr>reg = Uart16550RegLayout_default, input_rx = rx, output_tx = tx, ip = 2\<rparr>"

definition set_ip :: "nat \<Rightarrow> bool \<Rightarrow> ('q, 'o) Uart16550A \<Rightarrow> ('q, 'o) Uart16550A" where
  "set_ip n b u = u\<lparr>ip := put_bit n b (ip u)\<rparr>"

definition update_iir :: "('q, 'o) Uart16550A \<Rightarrow> ('q, 'o) Uart16550A" where
  "update_iir u =
     (let ier = interrupt_enable_register (reg u);
          lsr = line_status_register (reg u);
          fifo_bits = (if bit (fifo_control_register (reg u)) 0 then 0xC0 else 0);
          iir = fifo_bits OR 1;
          with_reason = (\<lambda>reason. put_bit 0 False ((iir AND NOT 0x0E) OR push_bit 1 reason));
          iir' = (if bit ier 2 \<and> (bit (ip u) 3 \<or> line_status_interrupt lsr) then with_reason 3
                  else if bit ier 0 \<and> bit (ip u) 2 then with_reason 2
                  else if bit ier 1 \<and> bit (ip u) 1 then with_reason 1
                  else if bit ier 3 \<and> (bit (ip u) 0 \<or> msr_interrupt_pending (modem_status_register (reg u)))
                  then with_reason 0
                  else iir) in
      u\<lparr>reg := (reg u)\<lparr>interrupt_identification_register := iir'\<rparr>\<rparr>)"

definition try_clear_thre_interrupt :: "('q, 'o) Uart16550A \<Rightarrow> ('q, 'o) Uart16550A" where
  "try_clear_thre_interrupt u =
     (if drop_bit 1 (interrupt_identification_register (reg u)) AND 7 = 1
      then update_iir (set_ip 1 False u) else u)"

definition try_raise_thre_interrupt :: "u8 \<Rightarrow> u8 \<Rightarrow> ('q, 'o) Uart16550A \<Rightarrow> ('q, 'o) Uart16550A" where
  "try_raise_thre_interrupt old_ier new_ier u =
     (if \<not> bit old_ier 1 \<and> bit new_ier 1 \<and> bit (line_status_register (reg u)) 5 then set_ip 1 True u else u)"

definition set_lsr :: "u8 \<Rightarrow> ('q, 'o) Uart16550A \<Rightarrow> ('q, 'o) Uart16550A" where
  "set_lsr v u = u\<lparr>reg := (reg u)\<lparr>line_status_register := v\<rparr>\<rparr>"

definition update_rx_status :: "('q, 'o) uart_channels \<Rightarrow> ('q, 'o) Uart16550A \<Rightarrow> ('q, 'o) Uart16550A" where
  "update_rx_status ch u =
     (if \<not> bit (line_status_register (reg u)) 0 then
        (case try_recv ch (input_rx u) of
           (Some b, q) \<Rightarrow>
             set_ip 2 True (u\<lparr>input_rx := q,
               reg := (reg u)\<lparr>receiver_buffer_register := b,
                 line_status_register := put_bit 0 True (line_status_register (reg u))\<rparr>\<rparr>)
         | (None, q) \<Rightarrow> u\<lparr>input_rx := q\<rparr>)
      else u)"

definition read_byte :: "nat \<Rightarrow> ('q, 'o) Uart16550A \<Rightarrow> (u8 \<times> ('q, 'o) Uart16550A) option" where
  "read_byte i u =
     (let u = (if \<not> divisor_latch_enable (reg u) \<and> i = 0
               then set_ip 2 False (set_lsr (put_bit 0 False (line_status_register (reg u))) u) else u) in
      do { b \<leftarrow> reg_read i (reg u);
           let u = (if i = 5 then set_ip 3 False (set_lsr (clear_error_indicators (line_status_register (reg u))) u)
                    else if i = 6 then
                      set_ip 0 False
                        (u\<lparr>reg := (reg u)\<lparr>modem_status_register := clear_delta_indicators (modem_status_register (reg u))\<rparr>\<rparr>)
                    else u);
               u = (if i = 2 then try_clear_thre_interrupt u else u) in
           Some (b, u) })"

fun read_bytes :: "nat list \<Rightarrow> nat \<Rightarrow> u64 \<Rightarrow> ('q, 'o) Uart16550A \<Rightarrow> (u64 \<times> ('q, 'o) Uart16550A) option" where
  "read_bytes [] offset acc u = Some (acc, u)"
| "read_bytes (i # is) offset acc u =
     do { (b, u) \<leftarrow> read_byte i u; read_bytes is offset (acc OR push_bit (8 * (i - offset)) (ucast b)) u }"

definition Uart_read :: "('q, 'o) uart_channels \<Rightarrow> u64 \<Rightarrow> nat \<Rightarrow> (('q, 'o) Uart16550A, u64, MemError) prog" where
  "Uart_read ch addr len u =
     (let u = update_iir (update_rx_status ch u) in
      do { (v, u) \<leftarrow> read_bytes [unat addr..<unat addr + len] (unat addr) 0 u;
           Some (Ok v, update_iir (update_rx_status ch u)) })"

text \<open>\<open>while self.input_rx.try_recv().is_ok() {}\<close>\<close>

partial_function (option) drain :: "('q, 'o) uart_channels \<Rightarrow> 'q \<Rightarrow> 'q option" where
  "drain ch q = (case try_recv ch q of (Some _, q') \<Rightarrow> drain ch q' | (None, q') \<Rightarrow> Some q')"

definition reset_fifos :: "('q, 'o) uart_channels \<Rightarrow> ('q, 'o) Uart16550A \<Rightarrow> ('q, 'o) Uart16550A option" where
  "reset_fifos ch u =
     (let fcr = fifo_control_register (reg u) in
      do { u \<leftarrow> (if bit fcr 1 then
                    do { q \<leftarrow> drain ch (input_rx u);
                         Some (set_ip 3 False (set_ip 2 False (u\<lparr>input_rx := q,
                           reg := (reg u)\<lparr>receiver_buffer_register := 0,
                             line_status_register := clear_error_indicators (put_bit 0 False (line_status_register (reg u)))\<rparr>\<rparr>))) }
                  else Some u);
           Some (if bit fcr 2
                 then set_ip 1 True (set_lsr (put_bit 6 True (put_bit 5 True (line_status_register (reg u)))) u)
                 else u) })"

definition write_byte :: "('q, 'o) uart_channels \<Rightarrow> nat \<Rightarrow> u8 \<Rightarrow> ('q, 'o) Uart16550A \<Rightarrow> ('q, 'o) Uart16550A option" where
  "write_byte ch i b u =
     (let u = (if i = 0 \<and> \<not> divisor_latch_enable (reg u)
               then set_ip 1 True (u\<lparr>output_tx := send ch (output_tx u) b\<rparr>) else u);
          old_ier = interrupt_enable_register (reg u); new_ier = b in
      do { r \<leftarrow> reg_write i b (reg u);
           u \<leftarrow> (if i = 2 then reset_fifos ch (u\<lparr>reg := r\<rparr>) else Some (u\<lparr>reg := r\<rparr>));
           Some (update_iir
             (if i = 1 \<and> \<not> divisor_latch_enable (reg u) then try_raise_thre_interrupt old_ier new_ier u else u)) })"

fun write_bytes :: "('q, 'o) uart_channels \<Rightarrow> nat list \<Rightarrow> u64 \<Rightarrow> ('q, 'o) Uart16550A \<Rightarrow> ('q, 'o) Uart16550A option" where
  "write_bytes ch [] v u = Some u"
| "write_bytes ch (i # is) v u = do { u \<leftarrow> write_byte ch i (ucast v) u; write_bytes ch is (drop_bit 8 v) u }"

definition Uart_write :: "('q, 'o) uart_channels \<Rightarrow> u64 \<Rightarrow> nat \<Rightarrow> u64 \<Rightarrow> (('q, 'o) Uart16550A, unit, MemError) prog" where
  "Uart_write ch addr len v u =
     map_option (\<lambda>u. (Ok (), u)) (write_bytes ch [unat addr..<unat addr + len] v u)"

definition Uart_irq_level :: "('q, 'o) uart_channels \<Rightarrow> ('q, 'o) Uart16550A \<Rightarrow> bool \<times> ('q, 'o) Uart16550A" where
  "Uart_irq_level ch u =
     (let u = update_iir (update_rx_status ch u) in (\<not> bit (interrupt_identification_register (reg u)) 0, u))"

section \<open>The host side\<close>

datatype UartIoError = InputFull nat | InputClosed nat

datatype TrySendError = SendFull | SendClosed

fun push_input ::
  "('q \<Rightarrow> u8 \<Rightarrow> (unit, TrySendError) result \<times> 'q) \<Rightarrow> nat \<Rightarrow> u8 list \<Rightarrow> 'q \<Rightarrow> (unit, UartIoError) result \<times> 'q" where
  "push_input try_send accepted [] q = (Ok (), q)"
| "push_input try_send accepted (b # bs) q =
     (case try_send q b of
        (Ok _, q) \<Rightarrow> push_input try_send (Suc accepted) bs q
      | (Err SendFull, q) \<Rightarrow> (Err (InputFull accepted), q)
      | (Err SendClosed, q) \<Rightarrow> (Err (InputClosed accepted), q))"

end
