(* ===== verification/UartSpec.thy ===== *)
theory UartSpec
  imports Uart
begin

unbundle bit_operations_syntax

text \<open>
  What the serial port promises: every access returns, input bytes are read once and in order, output bytes
  are sent once, and the interrupt line follows the enabled conditions.
\<close>

section \<open>Bits of a register\<close>

lemma bit_put_bit [simp]: "bit (put_bit n b w) k \<longleftrightarrow> (if k = n then b \<and> n < 8 else bit w k)"
  by (auto simp: put_bit_def bit_or_iff bit_and_iff bit_not_iff bit_exp_iff dest: bit_imp_le_length)

lemma lsr_error_bits: "line_status_interrupt v \<longleftrightarrow> bit v 1 \<or> bit v 2 \<or> bit v 3 \<or> bit v 4"
proof -
  have "v AND 0x1E = 0 \<longleftrightarrow> (\<forall>n < 8. \<not> (bit v n \<and> bit (0x1E :: u8) n))"
    by (auto simp: bit_eq_iff bit_and_iff dest: bit_imp_le_length)
  then show ?thesis by (auto simp: line_status_interrupt_def All_less_Suc numeral_eq_Suc bit_numeral_rec)
qed

lemma put_bit_error [simp]: "line_status_interrupt (put_bit 0 b v) = line_status_interrupt v"
  by (simp add: lsr_error_bits)

section \<open>Small steps\<close>

lemma update_iir_simps [simp]:
  "receiver_buffer_register (reg (update_iir u)) = receiver_buffer_register (reg u)"
  "line_status_register (reg (update_iir u)) = line_status_register (reg u)"
  "line_control_register (reg (update_iir u)) = line_control_register (reg u)"
  "interrupt_enable_register (reg (update_iir u)) = interrupt_enable_register (reg u)"
  "modem_status_register (reg (update_iir u)) = modem_status_register (reg u)"
  "input_rx (update_iir u) = input_rx u" "output_tx (update_iir u) = output_tx u" "ip (update_iir u) = ip u"
  by (simp_all add: update_iir_def Let_def)

lemma set_ip_simps [simp]:
  "reg (set_ip n b u) = reg u" "input_rx (set_ip n b u) = input_rx u" "output_tx (set_ip n b u) = output_tx u"
  "ip (set_ip n b u) = put_bit n b (ip u)"
  by (simp_all add: set_ip_def)

lemma set_lsr_simps [simp]:
  "reg (set_lsr v u) = (reg u)\<lparr>line_status_register := v\<rparr>" "input_rx (set_lsr v u) = input_rx u"
  "output_tx (set_lsr v u) = output_tx u" "ip (set_lsr v u) = ip u"
  by (simp_all add: set_lsr_def)

text \<open>The bytes the guest has still to read, and the flag that announces the first of them.\<close>

definition rx_view :: "('q \<Rightarrow> u8 list) \<Rightarrow> ('q, 'o) Uart16550A \<Rightarrow> u8 list" where
  "rx_view contents u =
     (if bit (line_status_register (reg u)) 0 then [receiver_buffer_register (reg u)] else []) @ contents (input_rx u)"

definition rda_ok :: "('q, 'o) Uart16550A \<Rightarrow> bool" where
  "rda_ok u \<longleftrightarrow> (bit (line_status_register (reg u)) 0 \<longleftrightarrow> bit (ip u) 2)"

lemma channel_lawsD:
  assumes "channel_laws ch contents"
  shows "contents q = [] \<Longrightarrow> fst (try_recv ch q) = None \<and> contents (snd (try_recv ch q)) = []"
    and "contents q = b # bs \<Longrightarrow> fst (try_recv ch q) = Some b \<and> contents (snd (try_recv ch q)) = bs"
  using spec [OF assms [unfolded channel_laws_def], of q] by simp_all

lemma update_rx_status_spec:
  assumes "channel_laws ch contents"
  shows "rx_view contents (update_rx_status ch u) = rx_view contents u"
    and "bit (line_status_register (reg (update_rx_status ch u))) 0 \<longleftrightarrow> rx_view contents u \<noteq> []"
    and "bit (line_status_register (reg (update_rx_status ch u))) (Suc k) = bit (line_status_register (reg u)) (Suc k)"
    and "line_control_register (reg (update_rx_status ch u)) = line_control_register (reg u)"
    and "interrupt_enable_register (reg (update_rx_status ch u)) = interrupt_enable_register (reg u)"
    and "modem_status_register (reg (update_rx_status ch u)) = modem_status_register (reg u)"
    and "output_tx (update_rx_status ch u) = output_tx u"
    and "rda_ok u \<Longrightarrow> rda_ok (update_rx_status ch u)"
    and "k \<noteq> 2 \<Longrightarrow> bit (ip (update_rx_status ch u)) k = bit (ip u) k"
proof -
  obtain r q where r: "try_recv ch (input_rx u) = (r, q)" by fastforce
  note defs = update_rx_status_def rx_view_def rda_ok_def r
  show "rx_view contents (update_rx_status ch u) = rx_view contents u"
    using channel_lawsD [OF assms, of "input_rx u"] r by (cases "contents (input_rx u)") (auto simp: defs)
  show "bit (line_status_register (reg (update_rx_status ch u))) 0 \<longleftrightarrow> rx_view contents u \<noteq> []"
    using channel_lawsD [OF assms, of "input_rx u"] r by (cases "contents (input_rx u)") (auto simp: defs)
qed (auto simp: update_rx_status_def rda_ok_def split: prod.splits option.splits)

lemma drain_total:
  assumes "channel_laws ch contents"
  shows "\<exists>q'. drain ch q = Some q' \<and> contents q' = []"
proof (induction "length (contents q)" arbitrary: q)
  case 0
  then show ?case using channel_lawsD(1) [OF assms, of q]
    by (subst drain.simps) (auto split: prod.splits option.splits)
next
  case (Suc n)
  then obtain b bs where c: "contents q = b # bs" by (cases "contents q") auto
  obtain q1 where r: "try_recv ch q = (Some b, q1)" "contents q1 = bs"
    using channel_lawsD(2) [OF assms c] by (cases "try_recv ch q") auto
  then show ?case using Suc c by (subst drain.simps) auto
qed

lemma reset_fifos_total:
  assumes "channel_laws ch contents"
  shows "\<exists>u'. reset_fifos ch u = Some u' \<and> output_tx u' = output_tx u \<and> (rda_ok u \<longrightarrow> rda_ok u')
     \<and> line_control_register (reg u') = line_control_register (reg u)
     \<and> rx_view contents u' = (if bit (fifo_control_register (reg u)) 1 then [] else rx_view contents u)"
proof -
  obtain q where "drain ch (input_rx u) = Some q" "contents q = []" using drain_total [OF assms, of "input_rx u"] by auto
  then show ?thesis
    by (cases "bit (fifo_control_register (reg u)) 1"; cases "bit (fifo_control_register (reg u)) 2")
      (simp_all add: reset_fifos_def Let_def rda_ok_def rx_view_def clear_error_indicators_def)
qed

lemma update_iir_view [simp]: "rx_view contents (update_iir u) = rx_view contents u" "rda_ok (update_iir u) = rda_ok u"
  by (simp_all add: rx_view_def rda_ok_def)

lemmas port_defs = Let_def rx_view_def rda_ok_def try_clear_thre_interrupt_def try_raise_thre_interrupt_def
  clear_error_indicators_def divisor_latch_enable_def

lemma read_byte_total:
  assumes "i < 8"
  shows "\<exists>b u'. read_byte i u = Some (b, u') \<and> output_tx u' = output_tx u \<and> (rda_ok u \<longrightarrow> rda_ok u')
     \<and> line_control_register (reg u') = line_control_register (reg u)
     \<and> (if i = 0 \<and> \<not> divisor_latch_enable (reg u)
        then b = receiver_buffer_register (reg u) \<and> rx_view contents u' = contents (input_rx u)
        else rx_view contents u' = rx_view contents u)"
proof -
  have "i \<in> {0, 1, 2, 3, 4, 5, 6, 7}" using assms by (simp; presburger)
  then show ?thesis
    by (elim insertE emptyE)
      (simp_all add: read_byte_def reg_read_def port_defs)
qed

lemma write_byte_total:
  assumes "i < 8" "channel_laws ch contents"
  shows "\<exists>u'. write_byte ch i b u = Some u' \<and> (i \<noteq> 5 \<longrightarrow> rda_ok u \<longrightarrow> rda_ok u')
     \<and> output_tx u' = (if i = 0 \<and> \<not> divisor_latch_enable (reg u) then send ch (output_tx u) b else output_tx u)
     \<and> (i \<noteq> 5 \<longrightarrow> rx_view contents u' = (if i = 2 \<and> bit b 1 then [] else rx_view contents u))"
proof (cases "i = 2")
  case True
  show ?thesis
    using reset_fifos_total [OF assms(2), of "u\<lparr>reg := (reg u)\<lparr>fifo_control_register := b\<rparr>\<rparr>"] True
    by (elim exE conjE) (simp add: write_byte_def reg_write_def Let_def, simp add: rda_ok_def rx_view_def)
next
  case False
  then have "i \<in> {0, 1, 3, 4, 5, 6, 7}" using assms(1) by (simp; presburger)
  then show ?thesis
    by (elim insertE emptyE) (simp_all add: write_byte_def reg_write_def port_defs)
qed

lemma read_bytes_total:
  "\<forall>i \<in> set is. i < 8 \<Longrightarrow> \<exists>v u'. read_bytes is offset acc u = Some (v, u')"
proof (induction "is" arbitrary: acc u)
  case (Cons i "is")
  then show ?case using read_byte_total [of i u "\<lambda>_. []"] by fastforce
qed simp

lemma write_bytes_total:
  "channel_laws ch contents \<Longrightarrow> \<forall>i \<in> set is. i < 8 \<Longrightarrow> \<exists>u'. write_bytes ch is v u = Some u'"
proof (induction "is" arbitrary: v u)
  case (Cons i "is")
  then show ?case using write_byte_total [of i ch contents "ucast v" u] by fastforce
qed simp

section \<open>Theorems\<close>

text \<open>
  C20.  Every access inside the eight registers returns, whatever bytes the host has queued: in particular
  the loop of the receiver reset, which empties the input queue, ends.
\<close>

theorem uart_access_returns:
  assumes "channel_laws ch contents" "unat addr + len \<le> 8"
  shows "(\<exists>v u'. Uart_read ch addr len u = Some (Ok v, u')) \<and> (\<exists>u'. Uart_write ch addr len w u = Some (Ok (), u'))"
proof -
  have "\<forall>i \<in> set [unat addr..<unat addr + len]. i < 8" using assms(2) by auto
  then show ?thesis
    using read_bytes_total [of "[unat addr..<unat addr + len]" "unat addr" 0 "update_iir (update_rx_status ch u)"]
      write_bytes_total [OF assms(1), of "[unat addr..<unat addr + len]" w u]
    by (auto simp: Uart_read_def Uart_write_def)
qed

lemma register_number: "i < 8 \<Longrightarrow> unat (of_nat i :: u64) = i"
  by (simp add: unsigned_of_nat take_bit_nat_eq_self_iff)

lemma one_register: "i < 8 \<Longrightarrow> [unat (of_nat i :: u64)..<unat (of_nat i :: u64) + 1] = [i]"
  by (simp only: register_number) simp

lemma Uart_read_one:
  assumes "channel_laws ch contents" "i < 8" "\<not> divisor_latch_enable (reg u)"
  shows "\<exists>b u'. Uart_read ch (of_nat i) 1 u = Some (Ok (ucast (b :: u8)), u') \<and> output_tx u' = output_tx u
     \<and> (rda_ok u \<longrightarrow> rda_ok u') \<and> \<not> divisor_latch_enable (reg u')
     \<and> (if i = 0 then rx_view contents u' = tl (rx_view contents u) \<and> (rx_view contents u \<noteq> [] \<longrightarrow> b = hd (rx_view contents u))
        else rx_view contents u' = rx_view contents u)"
proof -
  let ?u = "update_iir (update_rx_status ch u)"
  note up = update_rx_status_spec [OF assms(1)]
  have d: "\<not> divisor_latch_enable (reg ?u)" using assms(3) by (simp add: divisor_latch_enable_def up)
  obtain b u1 where b: "read_byte i ?u = Some (b, u1)" "output_tx u1 = output_tx ?u" "rda_ok ?u \<longrightarrow> rda_ok u1"
      "line_control_register (reg u1) = line_control_register (reg ?u)"
      "if i = 0 then b = receiver_buffer_register (reg ?u) \<and> rx_view contents u1 = contents (input_rx ?u)
       else rx_view contents u1 = rx_view contents ?u"
    using read_byte_total [OF assms(2), of ?u contents] d by auto
  have view: "rx_view contents ?u = rx_view contents u" "bit (line_status_register (reg ?u)) 0 \<longleftrightarrow> rx_view contents u \<noteq> []"
    by (simp_all add: up)
  have "rx_view contents ?u = (if rx_view contents u \<noteq> [] then receiver_buffer_register (reg ?u) # contents (input_rx ?u)
      else contents (input_rx ?u))"
    unfolding rx_view_def [of contents ?u] view(2) by simp
  then have split: "rx_view contents u = (if rx_view contents u \<noteq> [] then receiver_buffer_register (reg ?u) # contents (input_rx ?u)
      else contents (input_rx ?u))"
    unfolding view(1) .
  have head: "b = hd (rx_view contents u)" "rx_view contents u1 = tl (rx_view contents u)" if "i = 0" "rx_view contents u \<noteq> []"
    using that b(5) by (simp_all add: split [unfolded if_P [OF that(2)]])
  have none: "rx_view contents u1 = []" if "i = 0" "rx_view contents u = []"
    using that b(5) split by simp
  have "Uart_read ch (of_nat i) 1 u = Some (Ok (ucast b), update_iir (update_rx_status ch u1))"
    unfolding Uart_read_def one_register [OF assms(2)] by (simp add: b(1) Let_def register_number [OF assms(2)])
  then show ?thesis
    using b head none view assms(3) by (cases "rx_view contents u = []") (auto simp: up divisor_latch_enable_def)
qed

text \<open>
  C19.  The port is a pair of queues.  With the divisor latch closed, reading register 0 removes and returns the
  oldest input byte, and no other read loses or reorders input.  Writing register 0 sends exactly that byte to
  the host, and no other write sends anything.  A receiver reset discards all input, and no other write changes it,
  a write of the line status register (register 5) excepted, which can clear the bit that protects an unread byte.
\<close>

theorem uart_queues:
  assumes "channel_laws ch contents" "i < 8" "\<not> divisor_latch_enable (reg u)"
  shows "(\<exists>b u'. Uart_read ch (of_nat i) 1 u = Some (Ok (ucast (b :: u8)), u') \<and> output_tx u' = output_tx u
        \<and> (if i = 0 then rx_view contents u' = tl (rx_view contents u) \<and> (rx_view contents u \<noteq> [] \<longrightarrow> b = hd (rx_view contents u))
           else rx_view contents u' = rx_view contents u))
    \<and> (\<exists>u'. Uart_write ch (of_nat i) 1 (ucast (w :: u8)) u = Some (Ok (), u')
        \<and> output_tx u' = (if i = 0 then send ch (output_tx u) w else output_tx u)
        \<and> (i \<noteq> 5 \<longrightarrow> rx_view contents u' = (if i = 2 \<and> bit w 1 then [] else rx_view contents u)))"
proof
  show "\<exists>b u'. Uart_read ch (of_nat i) 1 u = Some (Ok (ucast (b :: u8)), u') \<and> output_tx u' = output_tx u
      \<and> (if i = 0 then rx_view contents u' = tl (rx_view contents u) \<and> (rx_view contents u \<noteq> [] \<longrightarrow> b = hd (rx_view contents u))
         else rx_view contents u' = rx_view contents u)"
    using Uart_read_one [OF assms] by blast
  have "ucast (ucast w :: u64) = w" by (simp add: word_eq_iff_unsigned unsigned_ucast_eq take_bit_word_eq_self)
  then show "\<exists>u'. Uart_write ch (of_nat i) 1 (ucast w) u = Some (Ok (), u')
      \<and> output_tx u' = (if i = 0 then send ch (output_tx u) w else output_tx u)
      \<and> (i \<noteq> 5 \<longrightarrow> rx_view contents u' = (if i = 2 \<and> bit w 1 then [] else rx_view contents u))"
    using write_byte_total [OF assms(2,1), of w u] assms(3) unfolding Uart_write_def one_register [OF assms(2)] by auto
qed

lemma iir_pending:
  "\<not> bit (interrupt_identification_register (reg (update_iir u))) 0 \<longleftrightarrow>
     bit (interrupt_enable_register (reg u)) 2 \<and> (bit (ip u) 3 \<or> line_status_interrupt (line_status_register (reg u)))
     \<or> bit (interrupt_enable_register (reg u)) 0 \<and> bit (ip u) 2
     \<or> bit (interrupt_enable_register (reg u)) 1 \<and> bit (ip u) 1
     \<or> bit (interrupt_enable_register (reg u)) 3 \<and> (bit (ip u) 0 \<or> msr_interrupt_pending (modem_status_register (reg u)))"
  by (auto simp: update_iir_def Let_def bit_or_iff)

text \<open>
  The interrupt line is high exactly when an enabled condition holds: a receiver error, an unread input
  byte, an announced empty transmitter or a change of the modem lines.  The byte condition is exact as long as
  the guest does not overwrite the line status register: all other accesses keep its flag and the received
  byte in step.
\<close>

theorem uart_interrupt_level:
  assumes "channel_laws ch contents" "rda_ok u" "i < 8" "i \<noteq> 5"
  shows "(fst (Uart_irq_level ch u) \<longleftrightarrow>
       (let ier = interrupt_enable_register (reg u) in
        bit ier 2 \<and> (bit (ip u) 3 \<or> line_status_interrupt (line_status_register (reg u)))
        \<or> bit ier 0 \<and> rx_view contents u \<noteq> []
        \<or> bit ier 1 \<and> bit (ip u) 1
        \<or> bit ier 3 \<and> (bit (ip u) 0 \<or> msr_interrupt_pending (modem_status_register (reg u)))))
    \<and> rda_ok (snd (Uart_irq_level ch u))
    \<and> (\<forall>v u'. Uart_write ch (of_nat i) 1 w u = Some (Ok v, u') \<longrightarrow> rda_ok u')"
proof (intro conjI allI impI)
  let ?u = "update_rx_status ch u"
  note up = update_rx_status_spec [OF assms(1), where u = u]
  have "bit (ip ?u) 2 \<longleftrightarrow> rx_view contents u \<noteq> []" using up(2,8) assms(2) by (auto simp: rda_ok_def)
  moreover have "line_status_interrupt (line_status_register (reg ?u)) = line_status_interrupt (line_status_register (reg u))"
    using up(3) by (simp add: lsr_error_bits numeral_eq_Suc)
  ultimately show "fst (Uart_irq_level ch u) \<longleftrightarrow>
       (let ier = interrupt_enable_register (reg u) in
        bit ier 2 \<and> (bit (ip u) 3 \<or> line_status_interrupt (line_status_register (reg u)))
        \<or> bit ier 0 \<and> rx_view contents u \<noteq> []
        \<or> bit ier 1 \<and> bit (ip u) 1
        \<or> bit ier 3 \<and> (bit (ip u) 0 \<or> msr_interrupt_pending (modem_status_register (reg u))))"
    by (simp add: Uart_irq_level_def Let_def iir_pending up)
  show "rda_ok (snd (Uart_irq_level ch u))" using up(8) assms(2) by (simp add: Uart_irq_level_def Let_def)
next
  fix v u'
  assume "Uart_write ch (of_nat i) 1 w u = Some (Ok v, u')"
  then show "rda_ok u'"
    using write_byte_total [OF assms(3,1), of "ucast w" u] assms(2,4)
    unfolding Uart_write_def one_register [OF assms(3)] by auto
qed

section \<open>Witnesses\<close>

definition list_channels :: "(u8 list, u8 list) uart_channels" where
  "list_channels = \<lparr>try_recv = (\<lambda>q. case q of [] \<Rightarrow> (None, []) | b # bs \<Rightarrow> (Some b, bs)), send = (\<lambda>q b. q @ [b])\<rparr>"

lemma list_channels_laws: "channel_laws list_channels (\<lambda>q. q)"
  by (simp add: channel_laws_def list_channels_def split: list.splits)

lemma fresh_port: "\<not> divisor_latch_enable (reg (from_channel q t))" "rda_ok (from_channel q t)"
  "rx_view contents (from_channel q t) = contents q"
  by (simp_all add: divisor_latch_enable_def from_channel_def Uart16550RegLayout_default_def rda_ok_def rx_view_def bit_numeral_rec)

theorem uart_access_returns_witness:
  "\<exists>u'. Uart_write list_channels 2 1 0x02 (from_channel [0x61, 0x62] []) = Some (Ok (), u')"
  using uart_access_returns [OF list_channels_laws, of 2 1] by simp

theorem uart_queues_witness:
  "\<exists>u'. Uart_read list_channels 0 1 (from_channel [0x61, 0x62] []) = Some (Ok 0x61, u')
     \<and> rx_view (\<lambda>q. q) u' = [0x62]"
  using conjunct1 [OF uart_queues [OF list_channels_laws, of 0 "from_channel [0x61, 0x62] []"]]
  by (auto simp: fresh_port)

definition listening_port :: "(u8 list, u8 list) Uart16550A" where
  "listening_port = (from_channel [0x61] [])\<lparr>reg := Uart16550RegLayout_default\<lparr>interrupt_enable_register := 1\<rparr>\<rparr>"

lemma listening_port_ok: "rda_ok listening_port" "rx_view (\<lambda>q. q) listening_port = [0x61]" "interrupt_enable_register (reg listening_port) = 1"
  by (simp_all add: listening_port_def rda_ok_def rx_view_def from_channel_def Uart16550RegLayout_default_def bit_numeral_rec)

theorem uart_interrupt_level_witness: "fst (Uart_irq_level list_channels listening_port)"
  using conjunct1 [OF uart_interrupt_level [OF list_channels_laws listening_port_ok(1), of 1 0]]
  by (simp add: listening_port_ok Let_def)

end
