(* ===== verification/Clock.thy ===== *)
theory Clock
  imports Prelude "HOL-Library.Multiset"
begin

unbundle bit_operations_syntax

text \<open>
  The virtual clock and the timer, \<open>src/clock.rs\<close>.

  A clock reads the cycle counter of the board, a shared cell; its value is an argument here.  A callback is
  a value of the type \<open>'c\<close>: \<open>tick\<close> returns the callbacks it runs, in their order.  \<open>sort_unstable_by_key\<close> is
  a sort by due time that here keeps the order of equal times.
\<close>

definition clock_now :: "u64 \<Rightarrow> u64" where
  "clock_now cycles = drop_bit 3 cycles"

record 'c ScheduledTask =
  due :: u64
  seq :: u64
  callback :: 'c

record 'c Timer =
  next_seq :: u64
  tasks :: "'c ScheduledTask list"

definition Timer_new :: "'c Timer" where
  "Timer_new = \<lparr>next_seq = 0, tasks = []\<rparr>"

definition Timer_register :: "'c \<Rightarrow> 'c Timer \<Rightarrow> u64 \<times> 'c Timer" where
  "Timer_register cb t =
     (next_seq t, t\<lparr>next_seq := next_seq t + 1, tasks := tasks t @ [\<lparr>due = - 1, seq = next_seq t, callback = cb\<rparr>]\<rparr>)"

definition Timer_build :: "'c Timer \<Rightarrow> 'c Timer" where
  "Timer_build t = t\<lparr>tasks := sort_key due (tasks t)\<rparr>"

fun update_due :: "u64 \<Rightarrow> u64 \<Rightarrow> 'c ScheduledTask list \<Rightarrow> 'c ScheduledTask list" where
  "update_due s new_due [] = []"
| "update_due s new_due (task # ts) = (if seq task = s then task\<lparr>due := new_due\<rparr> # ts else task # update_due s new_due ts)"

definition Timer_set_due :: "u64 \<Rightarrow> u64 \<Rightarrow> 'c Timer \<Rightarrow> 'c Timer" where
  "Timer_set_due s new_due t = Timer_build (t\<lparr>tasks := update_due s new_due (tasks t)\<rparr>)"

definition saturating_add :: "u64 \<Rightarrow> u64 \<Rightarrow> u64" where
  "saturating_add a b = (if a \<le> a + b then a + b else - 1)"

definition Timer_set_delay :: "u64 \<Rightarrow> u64 \<Rightarrow> u64 \<Rightarrow> 'c Timer \<Rightarrow> 'c Timer" where
  "Timer_set_delay now s delay t = Timer_set_due s (saturating_add now delay) t"

fun run_due :: "u64 \<Rightarrow> 'c ScheduledTask list \<Rightarrow> 'c list \<times> 'c ScheduledTask list" where
  "run_due now [] = ([], [])"
| "run_due now (task # ts) =
     (if due task \<le> now then (case run_due now ts of (cbs, ts') \<Rightarrow> (callback task # cbs, task\<lparr>due := - 1\<rparr> # ts'))
      else ([], task # ts))"

definition Timer_tick :: "u64 \<Rightarrow> 'c Timer \<Rightarrow> 'c list \<times> 'c Timer" where
  "Timer_tick now t = (case run_due now (tasks t) of (cbs, ts) \<Rightarrow> (cbs, Timer_build (t\<lparr>tasks := ts\<rparr>)))"

definition next_due :: "'c Timer \<Rightarrow> u64 option" where
  "next_due t = (case tasks t of [] \<Rightarrow> None | task # _ \<Rightarrow> Some (due task))"

section \<open>Well-formed timers\<close>

definition timer_wf :: "'c Timer \<Rightarrow> bool" where
  "timer_wf t \<longleftrightarrow> sorted (map due (tasks t)) \<and> distinct (map seq (tasks t))"

definition task_of :: "'c Timer \<Rightarrow> u64 \<Rightarrow> 'c ScheduledTask option" where
  "task_of t s = find (\<lambda>task. seq task = s) (tasks t)"

lemma task_of_iff:
  "distinct (map seq ts) \<Longrightarrow> find (\<lambda>task. seq task = s) ts = Some k \<longleftrightarrow> k \<in> set ts \<and> seq k = s"
  by (induction ts) (auto simp: rev_image_eqI)

lemma task_of_mset:
  assumes "mset ts = mset ts'" "distinct (map seq ts)"
  shows "find (\<lambda>task. seq task = s) ts = find (\<lambda>task. seq task = s) ts'"
proof -
  have "distinct (map seq ts')" using assms by (metis mset_eq_imp_distinct_iff mset_map)
  moreover have "set ts = set ts'" using assms(1) by (rule mset_eq_setD)
  ultimately have "find (\<lambda>task. seq task = s) ts = Some k \<longleftrightarrow> find (\<lambda>task. seq task = s) ts' = Some k" for k
    using task_of_iff assms(2) by blast
  then show ?thesis by (metis option.exhaust)
qed

lemma distinct_sort_key: "distinct (map seq (sort_key due ts)) = distinct (map seq ts)"
  by (rule mset_eq_imp_distinct_iff) simp

lemma map_seq_update_due [simp]: "map seq (update_due s d ts) = map seq ts"
  by (induction ts) auto

lemma map_seq_run_due [simp]: "map seq (snd (run_due now ts)) = map seq ts"
  by (induction ts) (auto split: prod.splits)

lemma find_update_due:
  "find (\<lambda>task. seq task = k) (update_due s d ts) =
     (if k = s then map_option (\<lambda>task. task\<lparr>due := d\<rparr>) (find (\<lambda>task. seq task = k) ts) else find (\<lambda>task. seq task = k) ts)"
  by (induction ts) auto

lemma run_due_sorted:
  assumes "sorted (map due ts)"
  shows "fst (run_due now ts) = map callback (filter (\<lambda>task. due task \<le> now) ts)"
    and "snd (run_due now ts) = map (\<lambda>task. if due task \<le> now then task\<lparr>due := - 1\<rparr> else task) ts"
proof -
  have none: "filter (\<lambda>task. due task \<le> now) ts = []" "map (\<lambda>task. if due task \<le> now then task\<lparr>due := - 1\<rparr> else task) ts = ts"
    if "\<forall>task \<in> set ts. \<not> due task \<le> now" for ts :: "'a ScheduledTask list"
    using that by (auto intro!: map_idI)
  have "fst (run_due now ts) = map callback (filter (\<lambda>task. due task \<le> now) ts)
    \<and> snd (run_due now ts) = map (\<lambda>task. if due task \<le> now then task\<lparr>due := - 1\<rparr> else task) ts"
    using assms
  proof (induction ts)
    case (Cons task ts)
    show ?case
    proof (cases "due task \<le> now")
      case True
      then show ?thesis using Cons by (auto split: prod.splits)
    next
      case False
      then have "\<forall>k \<in> set ts. \<not> due k \<le> now" using Cons.prems by (auto dest: order_trans)
      then show ?thesis using False none [of ts] by simp
    qed
  qed simp
  then show "fst (run_due now ts) = map callback (filter (\<lambda>task. due task \<le> now) ts)"
    "snd (run_due now ts) = map (\<lambda>task. if due task \<le> now then task\<lparr>due := - 1\<rparr> else task) ts" by simp_all
qed

lemma timer_ops_wf:
  assumes "timer_wf t"
  shows "timer_wf (Timer_set_due s d t)" and "timer_wf (snd (Timer_tick now t))"
    and "next_seq t \<notin> seq ` set (tasks t) \<Longrightarrow> timer_wf (snd (Timer_register cb t))"
proof -
  have d: "distinct (map seq (tasks t))" "sorted (map due (tasks t))" using assms by (simp_all add: timer_wf_def)
  then show "timer_wf (Timer_set_due s d t)" by (simp add: timer_wf_def Timer_set_due_def Timer_build_def distinct_sort_key)
  obtain cbs ts where r: "run_due now (tasks t) = (cbs, ts)" by fastforce
  then have "map seq ts = map seq (tasks t)" by (metis map_seq_run_due snd_conv)
  then show "timer_wf (snd (Timer_tick now t))"
    using d by (simp add: timer_wf_def Timer_tick_def r Timer_build_def distinct_sort_key)
  show "next_seq t \<notin> seq ` set (tasks t) \<Longrightarrow> timer_wf (snd (Timer_register cb t))"
    using d by (simp add: timer_wf_def Timer_register_def sorted_append)
qed

lemma task_of_set_due:
  assumes "timer_wf t"
  shows "task_of (Timer_set_due s d t) k =
     (if k = s then map_option (\<lambda>task. task\<lparr>due := d\<rparr>) (task_of t k) else task_of t k)"
proof -
  have "task_of (Timer_set_due s d t) k = find (\<lambda>task. seq task = k) (update_due s d (tasks t))"
    unfolding task_of_def Timer_set_due_def Timer_build_def
    by (simp, rule task_of_mset) (use assms in \<open>simp_all add: timer_wf_def distinct_sort_key\<close>)
  then show ?thesis by (simp add: find_update_due task_of_def)
qed

lemma tick_runs:
  assumes "timer_wf t"
  shows "fst (Timer_tick now t) = map callback (filter (\<lambda>task. due task \<le> now) (tasks t))"
  using run_due_sorted(1) [of "tasks t" now] assms by (auto simp: Timer_tick_def timer_wf_def split: prod.splits)

lemma tick_once:
  assumes "timer_wf t"
  shows "set (tasks (snd (Timer_tick now t))) = (\<lambda>task. if due task \<le> now then task\<lparr>due := - 1\<rparr> else task) ` set (tasks t)"
  using run_due_sorted(2) [of "tasks t" now] assms
  by (auto simp: Timer_tick_def timer_wf_def Timer_build_def split: prod.splits)

end
