(* ===== verification/Clint.thy ===== *)
theory Clint
  imports Mmio Clock
begin

unbundle bit_operations_syntax

text \<open>
  The core-local interruptor, \<open>src/device/aclint.rs\<close>, and the power manager,
  \<open>src/device/power_manager.rs\<close>.

  The cycle counter and the timer are shared with the board by reference; the record of the device holds
  them.  A callback of the timer is the level it puts on an interrupt line.
\<close>

section \<open>The core-local interruptor\<close>

record Clint =
  hart_num :: u32
  msip_base :: u64
  time_base :: u64
  timecmp_base :: u64
  time_offset :: u64
  clock_cycles :: u64
  timer :: "irq_event Timer"
  msip :: "u32 list"
  time_cmp :: "u64 list"
  timer_irq_line :: "Interrupt option"
  software_irq_line :: "Interrupt option"
  timer_cb_id :: u64

definition Clint_new :: "u32 \<Rightarrow> u64 \<Rightarrow> u64 \<Rightarrow> u64 \<Rightarrow> u64 \<Rightarrow> irq_event Timer \<Rightarrow> Clint" where
  "Clint_new harts msip_at mtime_at mtimecmp_at cycles t =
     \<lparr>hart_num = harts, msip_base = msip_at, time_base = mtime_at, timecmp_base = mtimecmp_at,
      time_offset = negative_of (clock_now cycles), clock_cycles = cycles, timer = t,
      msip = replicate (unat harts) 0, time_cmp = replicate (unat harts) 0,
      timer_irq_line = None, software_irq_line = None, timer_cb_id = - 1\<rparr>"

definition get_time :: "Clint \<Rightarrow> u64" where
  "get_time c = clock_now (clock_cycles c) + time_offset c"

definition update_timer :: "nat \<Rightarrow> Clint \<Rightarrow> (Clint \<times> irq_event list) option" where
  "update_timer hartid c =
     do { cmp \<leftarrow> nth_opt (time_cmp c) hartid;
          line \<leftarrow> timer_irq_line c;
          Some (if cmp \<le> get_time c then (c, [(line, True)])
                else (c\<lparr>timer := Timer_set_due (timer_cb_id c) (cmp - time_offset c) (timer c)\<rparr>, [(line, False)])) }"

fun update_timers :: "nat list \<Rightarrow> Clint \<Rightarrow> (Clint \<times> irq_event list) option" where
  "update_timers [] c = Some (c, [])"
| "update_timers (i # is) c =
     do { (c, evs) \<leftarrow> update_timer i c; (c, evs') \<leftarrow> update_timers is c; Some (c, evs @ evs') }"

definition Clint_read_impl :: "u64 \<Rightarrow> Clint \<Rightarrow> (u64, MemError) result" where
  "Clint_read_impl addr c =
     (if msip_base c \<le> addr \<and> addr < msip_base c + push_bit 2 (ucast (hart_num c)) then
        (let hartid = unat (drop_bit 2 (addr - msip_base c)) in
         if length (msip c) \<le> hartid then Err LoadFault else Ok (ucast (msip c ! hartid)))
      else if timecmp_base c \<le> addr \<and> addr < timecmp_base c + push_bit 3 (ucast (hart_num c)) then
        (let hartid = unat (drop_bit 3 (addr - timecmp_base c)) in
         if length (time_cmp c) \<le> hartid then Err LoadFault
         else if addr AND 7 = 0 then Ok (time_cmp c ! hartid)
         else if addr AND 7 = 4 then Ok (drop_bit 32 (time_cmp c ! hartid))
         else Err LoadFault)
      else if addr = time_base c then Ok (get_time c)
      else if addr = time_base c + 4 then Ok (drop_bit 32 (get_time c))
      else Err LoadFault)"

definition Clint_write_impl :: "nat \<Rightarrow> u64 \<Rightarrow> u64 \<Rightarrow> Clint \<Rightarrow> ((unit, MemError) result \<times> Clint \<times> irq_event list) option" where
  "Clint_write_impl len addr v c =
     (if msip_base c \<le> addr \<and> addr < msip_base c + push_bit 2 (ucast (hart_num c)) then
        (let hartid = unat (drop_bit 2 (addr - msip_base c)) in
         if length (msip c) \<le> hartid then Some (Err StoreFault, c, [])
         else
           let w = ucast v in
           Some (Ok (), c\<lparr>msip := (msip c)[hartid := w]\<rparr>,
             (case software_irq_line c of None \<Rightarrow> [] | Some line \<Rightarrow> [(line, w AND 1 \<noteq> 0)])))
      else if timecmp_base c \<le> addr \<and> addr < timecmp_base c + push_bit 3 (ucast (hart_num c)) then
        (let hartid = unat (drop_bit 3 (addr - timecmp_base c)) in
         if length (time_cmp c) \<le> hartid then Some (Err StoreFault, c, [])
         else if addr AND 7 = 0 then
           do { (c, evs) \<leftarrow> update_timer hartid (c\<lparr>time_cmp := (time_cmp c)[hartid := v]\<rparr>); Some (Ok (), c, evs) }
         else if addr AND 7 = 4 then
           let timecmp_lo = ucast (time_cmp c ! hartid AND 0xFFFFFFFF); timecmp_hi = ucast v in
           do { (c, evs) \<leftarrow> update_timer hartid (c\<lparr>time_cmp := (time_cmp c)[hartid := concat_to_u64 timecmp_hi timecmp_lo]\<rparr>);
                Some (Ok (), c, evs) }
         else Some (Ok (), c, []))
      else if addr = time_base c \<or> addr = time_base c + 4 then
        (let curr_clocktime = clock_now (clock_cycles c);
             prev_mtime = get_time c;
             new_time =
               (if addr = time_base c then
                  (if len = 4 then concat_to_u64 (ucast (drop_bit 32 prev_mtime)) (ucast v) else v)
                else concat_to_u64 (ucast v) (ucast (prev_mtime AND 0xFFFFFFFF))) in
         do { (c, evs) \<leftarrow> update_timers [0..<unat (hart_num c)] (c\<lparr>time_offset := new_time - curr_clocktime\<rparr>);
              Some (Ok (), c, evs) })
      else Some (Err StoreFault, c, []))"

text \<open>\<open>dispatch_read_write!\<close>: the value of an access is cut to its width.\<close>

definition access_width :: "nat \<Rightarrow> bool" where
  "access_width len \<longleftrightarrow> len \<in> {1, 2, 4, 8}"

definition Clint_read :: "u64 \<Rightarrow> nat \<Rightarrow> Clint \<Rightarrow> (u64, MemError) result option" where
  "Clint_read addr len c =
     (if access_width len then Some (map_ok (take_bit (8 * len)) (Clint_read_impl addr c)) else None)"

definition Clint_write :: "u64 \<Rightarrow> nat \<Rightarrow> u64 \<Rightarrow> Clint \<Rightarrow> ((unit, MemError) result \<times> Clint \<times> irq_event list) option" where
  "Clint_write addr len v c =
     (if access_width len then Clint_write_impl len addr (take_bit (8 * len) v) c else None)"

definition Clint_set_irq_line :: "Interrupt \<Rightarrow> nat \<Rightarrow> Clint \<Rightarrow> Clint" where
  "Clint_set_irq_line line n c =
     (if n = 0 then
        (case Timer_register (line, True) (timer c) of
           (cb, t) \<Rightarrow> c\<lparr>timer_irq_line := Some line, timer_cb_id := cb, timer := t\<rparr>)
      else if n = 1 then c\<lparr>software_irq_line := Some line\<rparr>
      else c)"

section \<open>The power manager\<close>

text \<open>\<open>power_status\<close> is the static cell \<open>POWER_STATUS\<close>.\<close>

record PowerManager =
  power_reg :: u16
  power_status :: u16

abbreviation (input) POWER_OFF_CODE :: u16 where "POWER_OFF_CODE \<equiv> 0x5555"

definition PowerManager_new :: PowerManager where
  "PowerManager_new = \<lparr>power_reg = 0, power_status = 0\<rparr>"

definition PowerManager_read :: "nat \<Rightarrow> PowerManager \<Rightarrow> (u64, MemError) result option" where
  "PowerManager_read len p =
     (if access_width len
      then Some (Ok (push_bit (8 mod (8 * len)) (ucast (ucast (drop_bit 8 (power_reg p)) :: u8)) OR ucast (ucast (power_reg p) :: u8)))
      else None)"

definition PowerManager_write :: "nat \<Rightarrow> u64 \<Rightarrow> PowerManager \<Rightarrow> ((unit, MemError) result \<times> PowerManager) option" where
  "PowerManager_write len v p =
     (if access_width len then
        let w = ucast (take_bit (8 * len) v) in
        Some (Ok (), p\<lparr>power_reg := w, power_status := if w = POWER_OFF_CODE then 0x5555 else power_status p\<rparr>)
      else None)"

end
