(* ===== verification/ClintSpec.thy ===== *)
theory ClintSpec
  imports Clint
begin

unbundle bit_operations_syntax

text \<open>
  What the core-local interruptor promises on the board: one hart, its registers at the offsets of the
  board, and one callback of the timer, the one of the device itself.
\<close>

definition clint_ok :: "Clint \<Rightarrow> Interrupt \<Rightarrow> bool" where
  "clint_ok c nr \<longleftrightarrow>
     hart_num c = 1 \<and> msip_base c = 0 \<and> time_base c = 0xBFF8 \<and> timecmp_base c = 0x4000
     \<and> length (msip c) = 1 \<and> length (time_cmp c) = 1 \<and> timer_irq_line c = Some nr
     \<and> (\<exists>d. tasks (timer c) = [\<lparr>due = d, seq = timer_cb_id c, callback = (nr, True)\<rparr>])"

definition deadline :: "Clint \<Rightarrow> u64" where
  "deadline c = due (hd (tasks (timer c)))"

lemma clint_built:
  "clint_ok (Clint_set_irq_line soft 1 (Clint_set_irq_line nr 0 (Clint_new 1 0 0xBFF8 0x4000 cycles Timer_new))) nr"
  by (simp add: clint_ok_def Clint_set_irq_line_def Clint_new_def Timer_register_def Timer_new_def)

lemma update_timer_spec:
  assumes "clint_ok c nr"
  shows "\<exists>c'. update_timer 0 c = Some (c', [(nr, time_cmp c ! 0 \<le> get_time c)]) \<and> clint_ok c' nr
     \<and> get_time c' = get_time c \<and> clock_cycles c' = clock_cycles c \<and> time_offset c' = time_offset c \<and> time_cmp c' = time_cmp c
     \<and> (get_time c < time_cmp c ! 0 \<longrightarrow> deadline c' = time_cmp c ! 0 - time_offset c)"
  using assms
  by (auto simp: update_timer_def clint_ok_def Timer_set_due_def Timer_build_def deadline_def get_time_def not_le)

lemma tick_single:
  assumes "clint_ok c nr"
  shows "fst (Timer_tick t (timer c)) = (if deadline c \<le> t then [(nr, True)] else [])"
    and "clint_ok (c\<lparr>timer := snd (Timer_tick t (timer c))\<rparr>) nr"
  using assms by (auto simp: clint_ok_def Timer_tick_def Timer_build_def deadline_def)

lemma deadline_order:
  fixes now :: u64
  assumes "now \<le> t" "m < cmp" "m = now + off" "d = cmp - off"
  shows "if unat now + unat (cmp - m) < 2 ^ 64 then d \<le> t \<longleftrightarrow> unat cmp \<le> unat m + unat (t - now) else d < now"
proof -
  have d: "d = now + (cmp - m)" using assms(3,4) by simp
  have u: "unat (cmp - m) = unat cmp - unat m" "unat m < unat cmp" "unat (t - now) = unat t - unat now" "unat now \<le> unat t"
    using assms(1,2) by (auto simp: unat_sub word_le_nat_alt word_less_nat_alt)
  show ?thesis
  proof (cases "unat now + unat (cmp - m) < 2 ^ 64")
    case True
    then have "unat d = unat now + unat (cmp - m)" by (simp add: d unat_word_ariths)
    then show ?thesis using True u by (auto simp: word_le_nat_alt)
  next
    case False
    have "unat now < 2 ^ 64" "unat (cmp - m) < 2 ^ 64" using unsigned_less [of now, where 'a = nat] unsigned_less [of "cmp - m", where 'a = nat] by simp_all
    then have "unat d = unat now + unat (cmp - m) - 2 ^ 64"
      using False by (simp add: d unat_word_ariths mod_if)
    then show ?thesis using False \<open>unat (cmp - m) < 2 ^ 64\<close> by (simp add: word_less_nat_alt)
  qed
qed

text \<open>
  C21.  A write of \<open>mtimecmp\<close> puts the timer line at once to whether the time has been reached.  When it has
  not, the timer raises the line at the first tick at which \<open>mtime\<close>, counted on without wrapping, has reached
  the compare value, and at no earlier tick --- unless the clock time of that moment exceeds the 64 bits of
  the clock: then the deadline wraps to the past and the next tick raises the line although \<open>mtime\<close> is below
  the compare value.
\<close>

theorem clint_timer_deadline:
  assumes "clint_ok c nr" "now = clock_now (clock_cycles c)" "now \<le> t"
  shows "\<exists>c'. Clint_write 0x4000 8 cmp c = Some (Ok (), c', [(nr, cmp \<le> get_time c)]) \<and> clint_ok c' nr
     \<and> get_time c' = get_time c
     \<and> (get_time c < cmp \<longrightarrow>
          fst (Timer_tick t (timer c')) =
            (if unat now + unat (cmp - get_time c) < 2 ^ 64 \<and> unat (get_time c) + unat (t - now) < unat cmp then []
             else [(nr, True)]))"
proof -
  let ?c = "c\<lparr>time_cmp := [cmp]\<rparr>"
  have ok: "clint_ok ?c nr" and len: "length (time_cmp c) = 1" using assms(1) by (simp_all add: clint_ok_def)
  have upd: "(time_cmp c)[0 := cmp] = [cmp]" using len by (cases "time_cmp c") auto
  have "take_bit 64 cmp = cmp" by (simp add: take_bit_word_eq_self)
  then have w: "Clint_write 0x4000 8 cmp c = do { (c, evs) \<leftarrow> update_timer 0 ?c; Some (Ok (), c, evs) }"
    using assms(1) len upd by (simp add: Clint_write_def access_width_def Clint_write_impl_def clint_ok_def)
  have gt: "get_time ?c = get_time c" by (simp add: get_time_def)
  obtain c' where c': "update_timer 0 ?c = Some (c', [(nr, cmp \<le> get_time c)])" "clint_ok c' nr" "get_time c' = get_time c"
      "get_time c < cmp \<longrightarrow> deadline c' = cmp - time_offset c"
    using update_timer_spec [OF ok] gt by auto
  have "fst (Timer_tick t (timer c')) =
      (if unat now + unat (cmp - get_time c) < 2 ^ 64 \<and> unat (get_time c) + unat (t - now) < unat cmp then [] else [(nr, True)])"
    if lt: "get_time c < cmp"
    using deadline_order [OF assms(3) lt, of "time_offset c" "deadline c'"] tick_single(1) [OF c'(2), of t] c'(4) lt assms(2,3)
    by (auto simp: get_time_def split: if_splits)
  then show ?thesis using w c' by auto
qed

theorem clint_timer_deadline_witness:
  "\<exists>c'. Clint_write 0x4000 8 100 (Clint_set_irq_line MachineTimer 0 (Clint_new 1 0 0xBFF8 0x4000 0 Timer_new))
       = Some (Ok (), c', [(MachineTimer, False)])
     \<and> fst (Timer_tick 99 (timer c')) = []"
proof -
  let ?c = "Clint_set_irq_line MachineTimer 0 (Clint_new 1 0 0xBFF8 0x4000 0 Timer_new)"
  have "clint_ok ?c MachineTimer"
    by (simp add: clint_ok_def Clint_set_irq_line_def Clint_new_def Timer_register_def Timer_new_def)
  moreover have z: "clock_now (clock_cycles ?c) = 0" "get_time ?c = 0"
    by (simp_all add: Clint_set_irq_line_def Clint_new_def Timer_register_def Timer_new_def clock_now_def get_time_def)
  ultimately show ?thesis using clint_timer_deadline [of ?c MachineTimer 0 99 100] by auto
qed

end
