(* ===== verification/VirtQueue.thy ===== *)
theory VirtQueue
  imports Mmio
begin

unbundle bit_operations_syntax

text \<open>
  Split virtqueues, \<open>src/device/virtio/virtio_queue.rs\<close>.

  A host pointer into the memory of the guest is the offset from the start of that memory; a null pointer is
  \<open>None\<close>.  Reading or writing through a pointer outside the memory is undefined behaviour of the host:
  \<open>peek\<close> and \<open>poke\<close> return \<open>None\<close> there.
\<close>

definition peek :: "Ram \<Rightarrow> nat \<Rightarrow> 'a::len word option" where
  "peek r off =
     (if off + size_of TYPE('a) \<le> SIZE then Some (of_bytes (map (\<lambda>i. data r (off + i)) [0..<size_of TYPE('a)])) else None)"

definition poke :: "nat \<Rightarrow> 'a::len word \<Rightarrow> Ram \<Rightarrow> Ram option" where
  "poke off v r =
     (if off + size_of TYPE('a) \<le> SIZE then Some (r\<lparr>data := splice_bytes off (to_bytes v) (data r)\<rparr>) else None)"

section \<open>Descriptors\<close>

record VirtQueueDesc =
  paddr :: u64
  desc_len :: u32
  flags :: u16
  desc_next :: u16

definition has_next :: "VirtQueueDesc \<Rightarrow> bool" where
  "has_next d = bit (flags d) 0"

definition is_indirect :: "VirtQueueDesc \<Rightarrow> bool" where
  "is_indirect d = bit (flags d) 2"

text \<open>\<open>get_request_package\<close>: the pointer is not checked here.\<close>

definition get_request_package :: "VirtQueueDesc \<Rightarrow> nat" where
  "get_request_package d = unat (paddr d - BASE_ADDR)"

definition buffer_in_ram :: "VirtQueueDesc \<Rightarrow> bool" where
  "buffer_in_ram d \<longleftrightarrow>
     BASE_ADDR \<le> paddr d
     \<and> unat (paddr d - BASE_ADDR) + unat (desc_len d) < 2 ^ 64
     \<and> unat (paddr d - BASE_ADDR) + unat (desc_len d) \<le> SIZE"

definition read_desc :: "Ram \<Rightarrow> nat \<Rightarrow> nat \<Rightarrow> VirtQueueDesc option" where
  "read_desc r table i =
     do { a \<leftarrow> peek r (table + 16 * i);
          l \<leftarrow> peek r (table + 16 * i + 8);
          f \<leftarrow> peek r (table + 16 * i + 12);
          n \<leftarrow> peek r (table + 16 * i + 14);
          Some \<lparr>paddr = a, desc_len = l, flags = f, desc_next = n\<rparr> }"

record VirtQueueDescHandle =
  table :: nat
  table_len :: nat
  idx :: nat
  remaining :: nat

text \<open>\<open>self.table[i]\<close> panics at an index beyond the slice.\<close>

definition table_at :: "Ram \<Rightarrow> VirtQueueDescHandle \<Rightarrow> nat \<Rightarrow> VirtQueueDesc option" where
  "table_at r h i = (if i < table_len h then read_desc r (table h) i else None)"

definition get_indirect :: "Ram \<Rightarrow> VirtQueueDescHandle \<Rightarrow> (bool \<times> VirtQueueDescHandle) option" where
  "get_indirect r h =
     do { d \<leftarrow> table_at r h (idx h);
          let n = unat (desc_len d) div 16; offset = unat (paddr d - BASE_ADDR) in
          Some (if unat (desc_len d) mod 16 \<noteq> 0 \<or> n = 0 then (False, h)
                else if \<not> BASE_ADDR \<le> paddr d then (False, h)
                else if paddr d mod 8 \<noteq> 0 then (False, h)
                else if 2 ^ 64 \<le> offset + unat (desc_len d) \<or> SIZE < offset + unat (desc_len d) then (False, h)
                else (True, \<lparr>table = offset, table_len = n, idx = 0, remaining = n\<rparr>)) }"

definition try_get :: "Ram \<Rightarrow> VirtQueueDescHandle \<Rightarrow> (VirtQueueDesc option \<times> VirtQueueDescHandle) option" where
  "try_get r h =
     (if idx h < table_len h \<and> remaining h \<noteq> 0 then
        do { d \<leftarrow> table_at r h (idx h);
             (ok, h) \<leftarrow> (if is_indirect d then get_indirect r h else Some (True, h));
             if \<not> ok then Some (None, h\<lparr>remaining := 0\<rparr>)
             else
               do { d \<leftarrow> table_at r h (idx h);
                    let h = h\<lparr>remaining := remaining h - 1, idx := (if has_next d then unat (desc_next d) else table_len h)\<rparr> in
                    Some (if buffer_in_ram d then (Some d, h) else (None, h\<lparr>remaining := 0\<rparr>)) } }
      else Some (None, h))"

section \<open>The queue\<close>

record VirtQueue =
  queue_num :: u32
  last_avail_idx :: u16
  desc_paddr :: u64
  desc_ptr :: "nat option"
  avail_paddr :: u64
  avail_ptr :: "nat option"
  used_paddr :: u64
  used_ptr :: "nat option"

definition VirtQueue_new :: "u32 \<Rightarrow> VirtQueue" where
  "VirtQueue_new num =
     \<lparr>queue_num = num, last_avail_idx = 0, desc_paddr = 0, desc_ptr = None, avail_paddr = 0, avail_ptr = None,
      used_paddr = 0, used_ptr = None\<rparr>"

definition VirtQueue_reset :: "VirtQueue \<Rightarrow> VirtQueue" where
  "VirtQueue_reset q = VirtQueue_new 0"

definition guest_ram_ptr :: "u64 \<Rightarrow> nat \<Rightarrow> nat \<Rightarrow> nat option" where
  "guest_ram_ptr p len align =
     (if \<not> BASE_ADDR \<le> p then None
      else
        let offset = unat (p - BASE_ADDR) in
        if unat p mod align \<noteq> 0 \<or> 2 ^ 64 \<le> offset + len \<or> SIZE < offset + len then None else Some offset)"

definition VirtQueue_set_desc :: "u64 \<Rightarrow> VirtQueue \<Rightarrow> VirtQueue" where
  "VirtQueue_set_desc addr q = q\<lparr>desc_paddr := addr, desc_ptr := guest_ram_ptr addr (unat (queue_num q) * 16) 8\<rparr>"

definition VirtQueue_set_avail :: "u64 \<Rightarrow> VirtQueue \<Rightarrow> VirtQueue" where
  "VirtQueue_set_avail addr q = q\<lparr>avail_paddr := addr, avail_ptr := guest_ram_ptr addr (4 + unat (queue_num q) * 2) 2\<rparr>"

definition VirtQueue_set_used :: "u64 \<Rightarrow> VirtQueue \<Rightarrow> VirtQueue" where
  "VirtQueue_set_used addr q = q\<lparr>used_paddr := addr, used_ptr := guest_ram_ptr addr (4 + unat (queue_num q) * 8) 4\<rparr>"

definition VirtQueue_set_queue_num :: "u32 \<Rightarrow> VirtQueue \<Rightarrow> VirtQueue" where
  "VirtQueue_set_queue_num num q = q\<lparr>queue_num := num\<rparr>"

definition queue_ready :: "VirtQueue \<Rightarrow> bool" where
  "queue_ready q \<longleftrightarrow> queue_num q \<noteq> 0 \<and> desc_ptr q \<noteq> None \<and> avail_ptr q \<noteq> None \<and> used_ptr q \<noteq> None"

definition interrupts_enabled :: "Ram \<Rightarrow> VirtQueue \<Rightarrow> bool option" where
  "interrupts_enabled r q =
     (case avail_ptr q of None \<Rightarrow> Some False | Some a \<Rightarrow> do { f \<leftarrow> peek r a; Some (f = (0 :: u16)) })"

text \<open>\<open>try_get_desc\<close> with \<open>VirtQueueAvail::try_get_desc_idx\<close>.\<close>

definition try_get_desc :: "Ram \<Rightarrow> VirtQueue \<Rightarrow> (VirtQueueDescHandle option \<times> VirtQueue) option" where
  "try_get_desc r q =
     do { a \<leftarrow> avail_ptr q;
          head \<leftarrow> peek r (a + 2);
          if last_avail_idx q = head then Some (None, q)
          else if queue_num q = 0 then None
          else
            do { i \<leftarrow> peek r (a + 4 + 2 * (unat (last_avail_idx q) mod unat (queue_num q)));
                 t \<leftarrow> desc_ptr q;
                 Some (Some \<lparr>table = t, table_len = unat (queue_num q), idx = unat (i :: u16), remaining = unat (queue_num q)\<rparr>,
                       q\<lparr>last_avail_idx := last_avail_idx q + 1\<rparr>) } }"

record VirtQueueCompletion =
  used_ring :: nat
  completion_num :: u32
  entry_idx :: u32

definition complete :: "VirtQueueCompletion \<Rightarrow> u32 \<Rightarrow> Ram \<Rightarrow> Ram option" where
  "complete c len r =
     do { old_idx \<leftarrow> peek r (used_ring c + 2);
          if completion_num c = 0 then None
          else
            let elem = used_ring c + 4 + 8 * (unat (old_idx :: u16) mod unat (completion_num c)) in
            do { r \<leftarrow> poke elem (entry_idx c) r;
                 r \<leftarrow> poke (elem + 4) len r;
                 poke (used_ring c + 2) (old_idx + 1) r } }"

text \<open>The loop of \<open>take_one_request\<close>; \<open>func\<close> is the closure and \<open>st\<close> the variables it captures.\<close>

partial_function (option) take_loop ::
  "(VirtQueueDesc \<Rightarrow> nat \<Rightarrow> 's \<Rightarrow> 's option) \<Rightarrow> Ram \<Rightarrow> nat \<Rightarrow> VirtQueueDescHandle \<Rightarrow> 's \<Rightarrow> 's option" where
  "take_loop func r i h st =
     Option.bind (try_get r h) (\<lambda>(d, h).
       case d of
         None \<Rightarrow> Some st
       | Some d \<Rightarrow> Option.bind (func d i st) (take_loop func r (Suc i) h))"

definition take_one_request ::
  "(VirtQueueDesc \<Rightarrow> nat \<Rightarrow> 's \<Rightarrow> 's option) \<Rightarrow> Ram \<Rightarrow> VirtQueue \<Rightarrow> 's
    \<Rightarrow> (VirtQueueCompletion option \<times> VirtQueue \<times> 's) option" where
  "take_one_request func r q st =
     (if \<not> queue_ready q then Some (None, q, st)
      else
        do { (handle, q) \<leftarrow> try_get_desc r q;
             case handle of
               None \<Rightarrow> Some (None, q, st)
             | Some h \<Rightarrow>
                 do { st \<leftarrow> take_loop func r 0 h st;
                      u \<leftarrow> used_ptr q;
                      Some (Some \<lparr>used_ring = u, completion_num = queue_num q, entry_idx = of_nat (idx h)\<rparr>, q, st) } })"

definition manage_one_request ::
  "(VirtQueueDesc \<Rightarrow> nat \<Rightarrow> u32 option) \<Rightarrow> VirtQueue \<Rightarrow> Ram \<Rightarrow> (bool \<times> VirtQueue \<times> Ram) option" where
  "manage_one_request func q r =
     do { (done, q, len) \<leftarrow> take_one_request (\<lambda>d i len. map_option (\<lambda>n. len + n) (func d i)) r q 0;
          case done of
            None \<Rightarrow> Some (False, q, r)
          | Some c \<Rightarrow> do { r \<leftarrow> complete c len r; Some (True, q, r) } }"

end
