(* ===== verification/VirtQueueSpec.thy ===== *)
theory VirtQueueSpec
  imports VirtQueue
begin

unbundle bit_operations_syntax

text \<open>
  What the virtqueues promise: the descriptors of a chain are visited within bounds and in bounded number,
  and a completion is published in the used ring and nowhere else.
\<close>

section \<open>Raw memory\<close>

lemma peek_Some: "off + size_of TYPE('a) \<le> SIZE \<Longrightarrow> \<exists>v :: 'a::len word. peek r off = Some v"
  by (simp add: peek_def)

lemma peek_cong:
  assumes "\<And>i. off \<le> i \<Longrightarrow> i < off + size_of TYPE('a::len) \<Longrightarrow> data r i = data r' i"
  shows "(peek r off :: 'a word option) = peek r' off"
proof -
  have "map (\<lambda>i. data r (off + i)) [0..<size_of TYPE('a)] = map (\<lambda>i. data r' (off + i)) [0..<size_of TYPE('a)]"
    using assms by auto
  then show ?thesis by (simp only: peek_def)
qed

lemma poke_frame:
  assumes "poke off (v :: 'a::len word) r = Some r'"
  shows "i < off \<or> off + size_of TYPE('a) \<le> i \<Longrightarrow> data r' i = data r i"
  using assms by (auto simp: poke_def splice_bytes_def split: if_splits)

lemma peek_poke:
  assumes "poke off (v :: 'a::len word) r = Some r'" "8 dvd LENGTH('a)"
  shows "peek r' off = Some v"
proof -
  have "map (\<lambda>i. data r' (off + i)) [0..<size_of TYPE('a)] = to_bytes v"
    using assms(1) by (auto simp: poke_def splice_bytes_def intro!: nth_equalityI split: if_splits)
  then show ?thesis using assms by (auto simp: peek_def poke_def of_bytes_to_bytes split: if_splits)
qed

section \<open>Descriptor chains\<close>

definition table_in_ram :: "VirtQueueDescHandle \<Rightarrow> bool" where
  "table_in_ram h \<longleftrightarrow> table h + 16 * table_len h \<le> SIZE"

lemma table_at_Some: "table_in_ram h \<Longrightarrow> i < table_len h \<Longrightarrow> \<exists>d. table_at r h i = Some d"
proof -
  assume a: "table_in_ram h" "i < table_len h"
  then have "table h + 16 * i + 16 \<le> SIZE" by (simp add: table_in_ram_def)
  then show ?thesis using a(2) by (simp add: table_at_def read_desc_def peek_def)
qed

text \<open>A table that holds no reference to a further table.\<close>

definition plain_table :: "Ram \<Rightarrow> nat \<Rightarrow> nat \<Rightarrow> bool" where
  "plain_table r t n \<longleftrightarrow> (\<forall>i < n. \<forall>d. read_desc r t i = Some d \<longrightarrow> \<not> is_indirect d)"

fun fold_chain :: "(VirtQueueDesc \<Rightarrow> nat \<Rightarrow> 's \<Rightarrow> 's option) \<Rightarrow> nat \<Rightarrow> VirtQueueDesc list \<Rightarrow> 's \<Rightarrow> 's option" where
  "fold_chain func i [] st = Some st"
| "fold_chain func i (d # ds) st = Option.bind (func d i st) (fold_chain func (Suc i) ds)"

lemma take_loop_end: "try_get r h = Some (None, h') \<Longrightarrow> take_loop func r i h st = fold_chain func i [] st"
  by (subst take_loop.simps) simp

lemma take_loop_step:
  assumes "try_get r h = Some (Some d, h')" "\<forall>func i (st :: 's). take_loop func r i h' st = fold_chain func i ds st"
  shows "\<forall>func i (st :: 's). take_loop func r i h st = fold_chain func i (d # ds) st"
proof (intro allI)
  fix func :: "VirtQueueDesc \<Rightarrow> nat \<Rightarrow> 's \<Rightarrow> 's option" and i st
  have "take_loop func r (Suc i) h' = fold_chain func (Suc i) ds" by (rule ext) (simp add: assms(2))
  then show "take_loop func r i h st = fold_chain func i (d # ds) st" by (subst take_loop.simps) (simp add: assms(1))
qed

lemma try_get_plain:
  assumes "table_in_ram h" "plain_table r (table h) (table_len h)"
  obtains h' where "try_get r h = Some (None, h')"
  | d h' where "try_get r h = Some (Some d, h')" "buffer_in_ram d" "table h' = table h" "table_len h' = table_len h"
      "remaining h' < remaining h"
proof (cases "idx h < table_len h \<and> remaining h \<noteq> 0")
  case False
  then show thesis by (intro that(1)) (auto simp: try_get_def)
next
  case True
  then obtain d where d: "table_at r h (idx h) = Some d" using table_at_Some assms(1) by blast
  then have "\<not> is_indirect d" using assms(2) True by (auto simp: table_at_def plain_table_def)
  then show thesis using True d that by (cases "buffer_in_ram d") (auto simp: try_get_def Let_def)
qed

lemma plain_chain:
  assumes "table_in_ram h" "plain_table r (table h) (table_len h)"
  shows "\<exists>ds. length ds \<le> remaining h \<and> (\<forall>d \<in> set ds. buffer_in_ram d)
     \<and> (\<forall>func i (st :: 's). take_loop func r i h st = fold_chain func i ds st)"
  using assms
proof (induction "remaining h" arbitrary: h rule: less_induct)
  case less
  show ?case
  proof (cases rule: try_get_plain [OF less.prems, case_names stop more])
    case (stop h')
    then show ?thesis using take_loop_end by (intro exI [of _ "[]"]) fastforce
  next
    case (more d h')
    then obtain ds where "length ds \<le> remaining h'" "\<forall>d \<in> set ds. buffer_in_ram d"
        "\<forall>func i (st :: 's). take_loop func r i h' st = fold_chain func i ds st"
      using less.hyps [of h'] less.prems by (auto simp: table_in_ram_def)
    then show ?thesis using more take_loop_step [OF more(1), of ds] by (intro exI [of _ "d # ds"]) auto
  qed
qed

lemma get_indirect_cases:
  assumes "table_at r h (idx h) = Some d"
  obtains "get_indirect r h = Some (False, h)"
  | h' where "get_indirect r h = Some (True, h')" "table_in_ram h'" "idx h' = 0" "0 < table_len h'" "remaining h' = table_len h'"
      "table h' = unat (paddr d - BASE_ADDR)" "table_len h' = unat (desc_len d) div 16"
proof -
  let ?n = "unat (desc_len d) div 16" and ?o = "unat (paddr d - BASE_ADDR)"
  show thesis
  proof (cases "unat (desc_len d) mod 16 \<noteq> 0 \<or> ?n = 0 \<or> \<not> BASE_ADDR \<le> paddr d \<or> paddr d mod 8 \<noteq> 0
      \<or> 2 ^ 64 \<le> ?o + unat (desc_len d) \<or> SIZE < ?o + unat (desc_len d)")
    case True
    then show thesis using assms by (intro that(1)) (auto simp: get_indirect_def Let_def)
  next
    case False
    then have "16 * ?n = unat (desc_len d)" by (metis dvd_mult_div_cancel mod_0_imp_dvd)
    then show thesis using False assms
      by (intro that(2) [of "\<lparr>table = ?o, table_len = ?n, idx = 0, remaining = ?n\<rparr>"])
        (auto simp: get_indirect_def Let_def table_in_ram_def)
  qed
qed

text \<open>Every table that a descriptor of the table of \<open>h\<close> refers to is plain.\<close>

definition no_nested_indirect :: "Ram \<Rightarrow> VirtQueueDescHandle \<Rightarrow> bool" where
  "no_nested_indirect r h \<longleftrightarrow> (\<forall>i < table_len h. \<forall>d. read_desc r (table h) i = Some d \<longrightarrow> is_indirect d \<longrightarrow>
     plain_table r (unat (paddr d - BASE_ADDR)) (unat (desc_len d) div 16))"

lemma try_get_cases:
  assumes "table_in_ram h" "no_nested_indirect r h"
  obtains (stop) h' where "try_get r h = Some (None, h')"
  | (more) d h' where "try_get r h = Some (Some d, h')" "buffer_in_ram d" "table h' = table h" "table_len h' = table_len h"
      "remaining h' < remaining h"
  | (jump) d h' where "try_get r h = Some (Some d, h')" "buffer_in_ram d" "table_in_ram h'"
      "plain_table r (table h') (table_len h')" "remaining h' < SIZE" "0 < remaining h"
proof (cases "idx h < table_len h \<and> remaining h \<noteq> 0")
  case False
  then show thesis by (intro stop) (auto simp: try_get_def)
next
  case True
  then obtain d where d: "table_at r h (idx h) = Some d" using table_at_Some assms(1) by blast
  show thesis
  proof (cases "is_indirect d")
    case False
    then show thesis using True d stop more by (cases "buffer_in_ram d") (auto simp: try_get_def Let_def)
  next
    case ind: True
    show thesis
    proof (rule get_indirect_cases [OF d])
      assume "get_indirect r h = Some (False, h)"
      then show thesis using True d ind by (intro stop) (auto simp: try_get_def)
    next
      fix k
      assume k: "get_indirect r h = Some (True, k)" "table_in_ram k" "idx k = 0" "0 < table_len k" "remaining k = table_len k"
        "table k = unat (paddr d - BASE_ADDR)" "table_len k = unat (desc_len d) div 16"
      obtain e where e: "table_at r k (idx k) = Some e" using table_at_Some [OF k(2)] k(3,4) by auto
      have pl: "plain_table r (table k) (table_len k)"
        using assms(2) True d ind k(6,7) by (auto simp: no_nested_indirect_def table_at_def)
      have small: "table_len k - 1 < SIZE" using k(2,4) by (simp add: table_in_ram_def)
      show thesis
        using True d ind k e pl small stop jump by (cases "buffer_in_ram e") (auto simp: try_get_def Let_def table_in_ram_def)
    qed
  qed
qed

lemma chain_visits:
  assumes "table_in_ram h" "no_nested_indirect r h"
  shows "\<exists>ds. length ds \<le> remaining h + SIZE \<and> (\<forall>d \<in> set ds. buffer_in_ram d)
     \<and> (\<forall>func i (st :: 's). take_loop func r i h st = fold_chain func i ds st)"
  using assms
proof (induction "remaining h" arbitrary: h rule: less_induct)
  case less
  show ?case
  proof (cases rule: try_get_cases [OF less.prems, case_names stop more jump])
    case (stop h')
    then show ?thesis using take_loop_end by (intro exI [of _ "[]"]) fastforce
  next
    case (more d h')
    then obtain ds where "length ds \<le> remaining h' + SIZE" "\<forall>d \<in> set ds. buffer_in_ram d"
        "\<forall>func i (st :: 's). take_loop func r i h' st = fold_chain func i ds st"
      using less.hyps [of h'] less.prems by (auto simp: table_in_ram_def no_nested_indirect_def)
    then show ?thesis using more take_loop_step [OF more(1), of ds] by (intro exI [of _ "d # ds"]) auto
  next
    case (jump d h')
    then obtain ds where "length ds \<le> remaining h'" "\<forall>d \<in> set ds. buffer_in_ram d"
        "\<forall>func i (st :: 's). take_loop func r i h' st = fold_chain func i ds st"
      using plain_chain [of h' r] by blast
    then show ?thesis using jump take_loop_step [OF jump(1), of ds] by (intro exI [of _ "d # ds"]) auto
  qed
qed

section \<open>Theorems\<close>

text \<open>A queue whose rings were checked for the number of entries it has.\<close>

definition queue_ok :: "VirtQueue \<Rightarrow> bool" where
  "queue_ok q \<longleftrightarrow> queue_num q \<noteq> 0
     \<and> (\<exists>d. desc_ptr q = Some d \<and> d + 16 * unat (queue_num q) \<le> SIZE)
     \<and> (\<exists>a. avail_ptr q = Some a \<and> a + 4 + 2 * unat (queue_num q) \<le> SIZE)
     \<and> (\<exists>u. used_ptr q = Some u \<and> u + 4 + 8 * unat (queue_num q) \<le> SIZE)"

lemma configured_queue_ok:
  "queue_ready (VirtQueue_set_used u (VirtQueue_set_avail a (VirtQueue_set_desc d (VirtQueue_set_queue_num n q)))) \<Longrightarrow>
   queue_ok (VirtQueue_set_used u (VirtQueue_set_avail a (VirtQueue_set_desc d (VirtQueue_set_queue_num n q))))"
  by (auto simp: queue_ready_def queue_ok_def VirtQueue_set_used_def VirtQueue_set_avail_def VirtQueue_set_desc_def
    VirtQueue_set_queue_num_def guest_ram_ptr_def Let_def split: if_splits)

lemma try_get_desc_ok:
  assumes "queue_ok q"
  obtains "try_get_desc r q = Some (None, q)"
  | h where "try_get_desc r q = Some (Some h, q\<lparr>last_avail_idx := last_avail_idx q + 1\<rparr>)" "table_in_ram h"
      "desc_ptr q = Some (table h)" "table_len h = unat (queue_num q)" "remaining h = unat (queue_num q)"
proof -
  obtain a d where q: "queue_num q \<noteq> 0" "desc_ptr q = Some d" "d + 16 * unat (queue_num q) \<le> SIZE"
      "avail_ptr q = Some a" "a + 4 + 2 * unat (queue_num q) \<le> SIZE"
    using assms by (auto simp: queue_ok_def)
  have n: "0 < unat (queue_num q)" using q(1) by (simp add: unat_gt_0)
  let ?k = "unat (last_avail_idx q) mod unat (queue_num q)"
  have k: "?k < unat (queue_num q)" using n by simp
  obtain head :: u16 where head: "peek r (a + 2) = Some head" using peek_Some [where 'a = 16, of "a + 2" r] q(5) by auto
  have "a + 4 + 2 * ?k + 2 \<le> SIZE" using q(5) k by linarith
  then obtain i :: u16 where i: "peek r (a + 4 + 2 * ?k) = Some i"
    using peek_Some [where 'a = 16, of "a + 4 + 2 * ?k" r] by auto
  show thesis
  proof (cases "last_avail_idx q = head")
    case True
    then show thesis using q head by (intro that(1)) (simp add: try_get_desc_def)
  next
    case False
    then show thesis using q head i
      by (intro that(2) [of "\<lparr>table = d, table_len = unat (queue_num q), idx = unat i, remaining = unat (queue_num q)\<rparr>"])
        (simp_all add: try_get_desc_def table_in_ram_def)
  qed
qed

text \<open>
  C23.  On a queue whose rings were checked, and when indirect tables hold no further indirect descriptors,
  taking a request returns: no access leaves the memory of the guest, the closure is called on a list of
  descriptors that is bounded in length, and every buffer it is given lies in the memory.
\<close>

theorem virtq_chain_bounded:
  fixes st :: 's
  assumes "queue_ok q" "\<And>h. desc_ptr q = Some (table h) \<Longrightarrow> table_len h = unat (queue_num q) \<Longrightarrow> no_nested_indirect r h"
    and "\<And>d i st. buffer_in_ram d \<Longrightarrow> func d i st \<noteq> None"
  shows "\<exists>c q' st'. take_one_request func r q st = Some (c, q', st')
     \<and> queue_ok q'
     \<and> (\<exists>ds. length ds \<le> unat (queue_num q) + SIZE \<and> (\<forall>d \<in> set ds. buffer_in_ram d) \<and> fold_chain func 0 ds st = Some st')"
proof -
  have ready: "queue_ready q" using assms(1) by (auto simp: queue_ok_def queue_ready_def)
  have total: "\<exists>st'. fold_chain func i ds st = Some st'" if "\<forall>d \<in> set ds. buffer_in_ram d" for i ds and st :: 's
    using that
  proof (induction ds arbitrary: i st)
    case (Cons d ds)
    then obtain s where "func d i st = Some s" using assms(3) by fastforce
    then show ?case using Cons by simp
  qed simp
  show ?thesis
  proof (cases rule: try_get_desc_ok [OF assms(1), of r, case_names none some])
    case none
    then show ?thesis using ready assms(1)
      by (intro exI [of _ None] exI [of _ q] exI [of _ st] conjI exI [of _ "[]"]) (simp_all add: take_one_request_def)
  next
    case (some h)
    obtain ds where ds: "length ds \<le> remaining h + SIZE" "\<forall>d \<in> set ds. buffer_in_ram d"
        "\<forall>func i (st :: 's). take_loop func r i h st = fold_chain func i ds st"
      using chain_visits [OF some(2) assms(2) [OF some(3,4)]] by blast
    obtain st' where st': "fold_chain func 0 ds st = Some st'" using total [OF ds(2)] by blast
    obtain u where "used_ptr q = Some u" using assms(1) by (auto simp: queue_ok_def)
    moreover have "queue_ok (q\<lparr>last_avail_idx := last_avail_idx q + 1\<rparr>)" using assms(1) by (simp add: queue_ok_def)
    ultimately show ?thesis using ready some ds st' by (auto simp: take_one_request_def)
  qed
qed

text \<open>A queue of two descriptors with one request, whose buffer of 8 bytes is at the start of the memory.\<close>

definition example_ram :: Ram where
  "example_ram = \<lparr>data = (\<lambda>_. 0)(3 := 0x80, 8 := 8, 66 := 1), data_ptr = 0, reserved = None\<rparr>"

definition example_queue :: VirtQueue where
  "example_queue = VirtQueue_set_used 0x80000080 (VirtQueue_set_avail 0x80000040 (VirtQueue_set_desc 0x80000000 (VirtQueue_new 2)))"

theorem virtq_chain_bounded_witness:
  "\<exists>c q' st'. take_one_request (\<lambda>d i n. Some (n + desc_len d)) example_ram example_queue 0 = Some (c, q', st') \<and> queue_ok q'"
proof -
  have "queue_ok example_queue"
    by (simp add: example_queue_def queue_ok_def VirtQueue_set_used_def VirtQueue_set_avail_def VirtQueue_set_desc_def
      VirtQueue_new_def guest_ram_ptr_def BASE_ADDR_def SIZE_def)
  moreover have "no_nested_indirect example_ram h"
    if "desc_ptr example_queue = Some (table h)" "table_len h = unat (queue_num example_queue)" for h
  proof -
    have "table h = 0" "table_len h = 2"
      using that by (simp_all add: example_queue_def VirtQueue_set_used_def VirtQueue_set_avail_def VirtQueue_set_desc_def
        VirtQueue_new_def guest_ram_ptr_def BASE_ADDR_def SIZE_def)
    moreover have "\<not> is_indirect d" if "i < 2" "read_desc example_ram 0 i = Some d" for i d
      using that by (auto simp: less_2_cases_iff read_desc_def peek_def size_of_def SIZE_def example_ram_def is_indirect_def
        of_bytes_def upt_rec)
    ultimately show ?thesis by (auto simp: no_nested_indirect_def)
  qed
  ultimately show ?thesis
    using virtq_chain_bounded [of example_queue example_ram "\<lambda>d i n. Some (n + desc_len d)" 0] by blast
qed

text \<open>
  The loop of \<open>take_one_request\<close> runs for ever: every iteration obtains a descriptor and the closure returns, so no
  iteration panics and none is the last.
\<close>

coinductive take_forever ::
  "(VirtQueueDesc \<Rightarrow> nat \<Rightarrow> 's \<Rightarrow> 's option) \<Rightarrow> Ram \<Rightarrow> nat \<Rightarrow> VirtQueueDescHandle \<Rightarrow> 's \<Rightarrow> bool" for func r where
  take_forever_step:
    "try_get r h = Some (Some d, h') \<Longrightarrow> func d i st = Some st' \<Longrightarrow> take_forever func r (Suc i) h' st' \<Longrightarrow> take_forever func r i h st"

inductive_cases take_foreverE: "take_forever func r i h st"

lemma take_forever_None:
  assumes "take_forever func r i h (st :: 's)"
  shows "take_loop func r i h st = None"
proof -
  have "\<not> take_forever func r i h st" if "take_loop func r i h st = Some y" for func r i h st and y :: 's
  proof (rule take_loop.raw_induct [where P = "\<lambda>func r i h st _. \<not> take_forever func r i h st", OF _ that])
    fix rec func r i h st and y :: 's
    assume ih: "\<And>func r i h st y. rec func r i h st = Some y \<Longrightarrow> \<not> take_forever func r i h st"
      and body: "Option.bind (try_get r h) (\<lambda>(d, h). case d of None \<Rightarrow> Some st
        | Some d \<Rightarrow> Option.bind (func d i st) (rec func r (Suc i) h)) = Some y"
    show "\<not> take_forever func r i h st"
    proof
      assume "take_forever func r i h st"
      then show False by (rule take_foreverE) (use body ih in auto)
    qed
  qed
  then show ?thesis using assms by (metis option.exhaust)
qed

text \<open>
  C38.  The bound on the chain does not survive an indirect table whose second descriptor refers to the table itself:
  the counter of remaining descriptors is set again at every such reference.  With a closure that always returns,
  every iteration obtains one more descriptor and hands it to the closure, so taking the request panics nowhere and
  runs for ever.
\<close>

theorem virtq_indirect_loop:
  fixes st :: 's
  assumes "read_desc r t 0 = Some d0" "buffer_in_ram d0" "\<not> is_indirect d0" "has_next d0" "desc_next d0 = 1"
    and "read_desc r t 1 = Some d1" "is_indirect d1" "paddr d1 = BASE_ADDR + of_nat t" "desc_len d1 = 32"
    and "t mod 8 = 0" "t + 32 \<le> SIZE" "\<And>d i st. func d i st \<noteq> None"
  shows "take_forever func r i \<lparr>table = t, table_len = 2, idx = 0, remaining = 2\<rparr> st
    \<and> take_loop func r i \<lparr>table = t, table_len = 2, idx = 0, remaining = 2\<rparr> st = None"
proof -
  let ?h0 = "\<lparr>table = t, table_len = 2, idx = 0, remaining = 2\<rparr>" and ?h1 = "\<lparr>table = t, table_len = 2, idx = 1, remaining = 1\<rparr>"
  have t: "unat (of_nat t :: u64) = t" using assms(11) by (simp add: SIZE_def unsigned_of_nat take_bit_nat_eq_self_iff)
  have p: "unat (paddr d1) = 2147483648 + t"
    using assms(8,11) t by (simp add: BASE_ADDR_def SIZE_def unat_word_ariths)
  have "unat (paddr d1 mod 8) = (2147483648 + t) mod 8" using p by (simp add: unat_mod)
  also have "\<dots> = 0" using assms(10) by presburger
  finally have off: "paddr d1 - BASE_ADDR = of_nat t" "BASE_ADDR \<le> paddr d1" "paddr d1 mod 8 = 0"
    using assms(8) p by (simp_all add: BASE_ADDR_def word_le_nat_alt unat_eq_zero)
  have ind: "get_indirect r ?h1 = Some (True, ?h0)"
    using assms(6,9,11) off t by (simp add: get_indirect_def table_at_def Let_def SIZE_def)
  have g: "try_get r ?h0 = Some (Some d0, ?h1)" "try_get r ?h1 = Some (Some d0, ?h1)"
    using assms(1-7) ind by (simp_all add: try_get_def table_at_def Let_def)
  have "take_forever func r i h st" if "h = ?h0 \<or> h = ?h1" for i h st
    using that
  proof (coinduction arbitrary: i h st)
    case take_forever
    obtain st' where "func d0 i st = Some st'" using assms(12) by (metis option.exhaust)
    moreover have "try_get r h = Some (Some d0, ?h1)" using take_forever g by blast
    ultimately show ?case by blast
  qed
  then have "take_forever func r i ?h0 st" by blast
  then show ?thesis by (intro conjI take_forever_None)
qed

text \<open>A table of two descriptors, the second of which refers to the table itself.\<close>

definition loop_ram :: Ram where
  "loop_ram = \<lparr>data = (\<lambda>_. 0)(3 := 0x80, 12 := 1, 14 := 1, 19 := 0x80, 24 := 32, 28 := 4), data_ptr = 0, reserved = None\<rparr>"

theorem virtq_indirect_loop_witness:
  "take_forever (\<lambda>d i n. Some (Suc n)) loop_ram 0 \<lparr>table = 0, table_len = 2, idx = 0, remaining = 2\<rparr> 0
   \<and> take_loop (\<lambda>d i n. Some (Suc n)) loop_ram 0 \<lparr>table = 0, table_len = 2, idx = 0, remaining = 2\<rparr> 0 = None"
proof (rule virtq_indirect_loop)
  show "read_desc loop_ram 0 0 = Some \<lparr>paddr = 0x80000000, desc_len = 0, flags = 1, desc_next = 1\<rparr>"
    "read_desc loop_ram 0 1 = Some \<lparr>paddr = 0x80000000, desc_len = 32, flags = 4, desc_next = 0\<rparr>"
    by (simp_all add: read_desc_def peek_def size_of_def SIZE_def loop_ram_def of_bytes_def upt_rec)
qed (simp_all add: buffer_in_ram_def is_indirect_def has_next_def BASE_ADDR_def SIZE_def)

text \<open>
  C24.  Completing a request writes one element, the index of the chain and the number of bytes written, at
  the place of the used ring that the used index designates, advances the index by one, and changes no other
  byte of the memory.
\<close>

theorem virtq_complete:
  assumes "used_ring c + 4 + 8 * unat (completion_num c) \<le> SIZE" "completion_num c \<noteq> 0" "peek r (used_ring c + 2) = Some (n :: u16)"
  shows "\<exists>r'. complete c len r = Some r' \<and> peek r' (used_ring c + 2) = Some (n + 1)
     \<and> (let e = used_ring c + 4 + 8 * (unat n mod unat (completion_num c)) in
        peek r' e = Some (entry_idx c) \<and> peek r' (e + 4) = Some len
        \<and> (\<forall>i. i \<notin> {used_ring c + 2 ..< used_ring c + 4} \<union> {e ..< e + 8} \<longrightarrow> data r' i = data r i))"
proof -
  let ?e = "used_ring c + 4 + 8 * (unat n mod unat (completion_num c))"
  have "unat n mod unat (completion_num c) < unat (completion_num c)" using assms(2) by (simp add: unat_gt_0)
  then have e: "?e + 8 \<le> SIZE" using assms(1) by linarith
  then obtain r1 where r1: "poke ?e (entry_idx c) r = Some r1" by (simp add: poke_def size_of_def)
  obtain r2 where r2: "poke (?e + 4) len r1 = Some r2" using e by (simp add: poke_def size_of_def)
  obtain r3 where r3: "poke (used_ring c + 2) (n + 1) r2 = Some r3" using e by (simp add: poke_def size_of_def)
  have "complete c len r = Some r3" using assms(2,3) r1 r2 r3 by (simp add: complete_def Let_def)
  moreover have "peek r3 (used_ring c + 2) = Some (n + 1)" by (rule peek_poke [OF r3]) simp
  moreover have "(peek r3 (?e + 4) :: u32 option) = peek r2 (?e + 4)" "(peek r3 ?e :: u32 option) = peek r2 ?e"
      "(peek r2 ?e :: u32 option) = peek r1 ?e"
    by (rule peek_cong; use poke_frame [OF r3] poke_frame [OF r2] in \<open>simp add: size_of_def\<close>)+
  moreover have "peek r1 ?e = Some (entry_idx c)" "peek r2 (?e + 4) = Some len"
    using peek_poke [OF r1] peek_poke [OF r2] by simp_all
  moreover have "data r3 i = data r i" if "i \<notin> {used_ring c + 2 ..< used_ring c + 4} \<union> {?e ..< ?e + 8}" for i
    using that poke_frame [OF r1, of i] poke_frame [OF r2, of i] poke_frame [OF r3, of i] by (auto simp: size_of_def)
  ultimately show ?thesis by (auto simp: Let_def)
qed

theorem virtq_complete_witness:
  "\<exists>r'. complete \<lparr>used_ring = 128, completion_num = 2, entry_idx = 0\<rparr> 8 example_ram = Some r'
     \<and> peek r' 130 = Some (1 :: u16) \<and> peek r' 136 = Some (8 :: u32)"
proof -
  have "peek example_ram 130 = Some (0 :: u16)"
    by (simp add: peek_def size_of_def SIZE_def example_ram_def of_bytes_def upt_rec)
  then show ?thesis
    using virtq_complete [of "\<lparr>used_ring = 128, completion_num = 2, entry_idx = 0\<rparr>" example_ram 0 8]
    by (auto simp: SIZE_def Let_def)
qed

end
