(* ===== verification/VirtioBlock.thy ===== *)
theory VirtioBlock
  imports VirtQueue
begin

unbundle bit_operations_syntax

text \<open>
  The block device, \<open>src/device/virtio/virtio_block.rs\<close>; its register transport is in \<open>VirtioMmio\<close>.

  The task channel and the backing file are those of the \<open>tokio\<close> package: the argument \<open>host\<close> holds the
  operations the device uses.  \<open>f_read\<close> and \<open>f_write\<close> are a seek followed by the transfer; a failure of either
  is the failure of the pair.  The worker runs tasks in the order of the channel, each to its end.
\<close>

section \<open>Requests\<close>

datatype VirtioBlkReqType =
    ReqIn | ReqOut | ReqFlush | ReqGetId | ReqGetLifetime | ReqDiscard | ReqWriteZeroes | ReqSecureErase | ReqUnsupported

definition ReqType_try_from :: "u32 \<Rightarrow> VirtioBlkReqType option" where
  "ReqType_try_from v =
     (if v = 0 then Some ReqIn else if v = 1 then Some ReqOut else if v = 4 then Some ReqFlush
      else if v = 8 then Some ReqGetId else if v = 10 then Some ReqGetLifetime else if v = 11 then Some ReqDiscard
      else if v = 13 then Some ReqWriteZeroes else if v = 14 then Some ReqSecureErase
      else if v = 0xFFFFFFFF then Some ReqUnsupported else None)"

datatype VirtIOBlkReqStatus = StatusOk | StatusIoErr | StatusUnsupported | StatusNotReady

fun status_code :: "VirtIOBlkReqStatus \<Rightarrow> u8" where
  "status_code StatusOk = 0"
| "status_code StatusIoErr = 1"
| "status_code StatusUnsupported = 2"
| "status_code StatusNotReady = 3"

type_synonym IOTaskRamBuffer = "nat \<times> nat"

record VirtIOBlockCompletion =
  status_addr :: nat
  queue_completion :: VirtQueueCompletion

datatype VirtIOBlockAsyncTask =
    TaskRead u64 "IOTaskRamBuffer list" VirtIOBlockCompletion
  | TaskWrite u64 "IOTaskRamBuffer list" VirtIOBlockCompletion
  | TaskFlush VirtIOBlockCompletion
  | TaskEarlyErr VirtIOBlockCompletion
  | TaskUnsupported VirtIOBlockCompletion

record ('ch, 'f) blk_host =
  ch_reserve :: "'ch \<Rightarrow> bool"
  ch_send :: "'ch \<Rightarrow> VirtIOBlockAsyncTask \<Rightarrow> 'ch"
  ch_recv :: "'ch \<Rightarrow> VirtIOBlockAsyncTask option \<times> 'ch"
  f_read :: "'f \<Rightarrow> u64 \<Rightarrow> nat \<Rightarrow> u8 list option \<times> 'f"
  f_write :: "'f \<Rightarrow> u64 \<Rightarrow> u8 list \<Rightarrow> bool \<times> 'f"
  f_sync :: "'f \<Rightarrow> bool \<times> 'f"

type_synonym VirtIOFeatureSet = "128 word"

record ('ch, 'f) VirtIOBlkDevice =
  blk_status :: u8
  isr :: u8
  host_feature :: VirtIOFeatureSet
  guest_feature :: VirtIOFeatureSet
  generation :: u32
  blk_channel :: 'ch
  blk_file :: 'f
  blk_queue :: VirtQueue
  config_region :: "u8 list"

text \<open>The packed configuration: the capacity in sectors, the block size at \<open>0x14\<close>, 96 bytes in all.\<close>

definition VirtioBlkConfig_new :: "u64 \<Rightarrow> u8 list" where
  "VirtioBlkConfig_new capacity = to_bytes capacity @ replicate 12 0 @ to_bytes (512 :: u32) @ replicate 72 0"

definition config_capacity :: "u8 list \<Rightarrow> u64" where
  "config_capacity bytes = of_bytes (take 8 bytes)"

definition VirtIOBlkDevice_new :: "u64 \<Rightarrow> 'ch \<Rightarrow> 'f \<Rightarrow> ('ch, 'f) VirtIOBlkDevice" where
  "VirtIOBlkDevice_new capacity ch f =
     \<lparr>blk_status = 0, isr = 0, host_feature = push_bit 32 1, guest_feature = 0, generation = 0,
      blk_channel = ch, blk_file = f, blk_queue = VirtQueue_new 0, config_region = VirtioBlkConfig_new capacity\<rparr>"

section \<open>The worker\<close>

definition complete_request ::
  "VirtIOBlockCompletion \<Rightarrow> VirtIOBlkReqStatus \<Rightarrow> u32 \<Rightarrow> ('ch, 'f) VirtIOBlkDevice \<times> Ram
    \<Rightarrow> (('ch, 'f) VirtIOBlkDevice \<times> Ram) option" where
  "complete_request c st used_len = (\<lambda>(d, r).
     do { r \<leftarrow> poke (status_addr c) (status_code st) r;
          r \<leftarrow> complete (queue_completion c) used_len r;
          Some (d\<lparr>isr := isr d OR 1\<rparr>, r) })"

definition ram_slice :: "Ram \<Rightarrow> nat \<Rightarrow> nat \<Rightarrow> u8 list option" where
  "ram_slice r addr len = (if addr + len \<le> SIZE then Some (map (\<lambda>i. data r (addr + i)) [0..<len]) else None)"

fun read_buffers ::
  "('ch, 'f) blk_host \<Rightarrow> IOTaskRamBuffer list \<Rightarrow> u64 \<Rightarrow> u32 \<Rightarrow> 'f \<Rightarrow> Ram \<Rightarrow> (VirtIOBlkReqStatus \<times> u32 \<times> 'f \<times> Ram) option" where
  "read_buffers host [] offset transferred f r = Some (StatusOk, transferred, f, r)"
| "read_buffers host ((addr, len) # bs) offset transferred f r =
     do { _ \<leftarrow> ram_slice r addr len;
          case f_read host f offset len of
            (None, f) \<Rightarrow> Some (StatusIoErr, transferred, f, r)
          | (Some bytes, f) \<Rightarrow>
              let r = r\<lparr>data := splice_bytes addr (take len bytes) (data r)\<rparr>;
                  n = length (take len bytes);
                  transferred = transferred + of_nat n; offset = offset + of_nat n in
              if n \<noteq> len then Some (StatusIoErr, transferred, f, r)
              else read_buffers host bs offset transferred f r }"

fun write_buffers ::
  "('ch, 'f) blk_host \<Rightarrow> IOTaskRamBuffer list \<Rightarrow> u64 \<Rightarrow> 'f \<Rightarrow> Ram \<Rightarrow> (VirtIOBlkReqStatus \<times> 'f) option" where
  "write_buffers host [] offset f r = Some (StatusOk, f)"
| "write_buffers host ((addr, len) # bs) offset f r =
     do { bytes \<leftarrow> ram_slice r addr len;
          case f_write host f offset bytes of
            (False, f) \<Rightarrow> Some (StatusIoErr, f)
          | (True, f) \<Rightarrow> write_buffers host bs (offset + of_nat len) f r }"

fun run_task ::
  "('ch, 'f) blk_host \<Rightarrow> VirtIOBlockAsyncTask \<Rightarrow> ('ch, 'f) VirtIOBlkDevice \<times> Ram
    \<Rightarrow> (('ch, 'f) VirtIOBlkDevice \<times> Ram) option" where
  "run_task host (TaskRead offset buffers c) (d, r) =
     do { (st, transferred, f, r) \<leftarrow> read_buffers host buffers offset 0 (blk_file d) r;
          complete_request c st (transferred + 1) (d\<lparr>blk_file := f\<rparr>, r) }"
| "run_task host (TaskWrite offset buffers c) (d, r) =
     do { (st, f) \<leftarrow> write_buffers host buffers offset (blk_file d) r;
          complete_request c st 1 (d\<lparr>blk_file := f\<rparr>, r) }"
| "run_task host (TaskFlush c) (d, r) =
     (case f_sync host (blk_file d) of
        (ok, f) \<Rightarrow> complete_request c (if ok then StatusOk else StatusIoErr) 1 (d\<lparr>blk_file := f\<rparr>, r))"
| "run_task host (TaskEarlyErr c) (d, r) = complete_request c StatusIoErr 1 (d, r)"
| "run_task host (TaskUnsupported c) (d, r) = complete_request c StatusUnsupported 1 (d, r)"

text \<open>
  Waiting for the barrier of \<open>reset\<close>: the worker runs every task queued before it, and nothing else is
  queued meanwhile.
\<close>

partial_function (option) drain_tasks ::
  "('ch, 'f) blk_host \<Rightarrow> ('ch, 'f) VirtIOBlkDevice \<times> Ram \<Rightarrow> (('ch, 'f) VirtIOBlkDevice \<times> Ram) option" where
  "drain_tasks host s =
     (case ch_recv host (blk_channel (fst s)) of
        (None, ch) \<Rightarrow> Some ((fst s)\<lparr>blk_channel := ch\<rparr>, snd s)
      | (Some t, ch) \<Rightarrow> Option.bind (run_task host t ((fst s)\<lparr>blk_channel := ch\<rparr>, snd s)) (drain_tasks host))"

section \<open>The device\<close>

definition manage_request_header :: "Ram \<Rightarrow> VirtQueueDesc \<Rightarrow> (VirtioBlkReqType \<times> u64) option" where
  "manage_request_header r d =
     (if desc_len d < 16 then Some (ReqUnsupported, 0)
      else
        do { t \<leftarrow> peek r (get_request_package d);
             sector \<leftarrow> peek r (get_request_package d + 8);
             Some (case ReqType_try_from t of None \<Rightarrow> (ReqUnsupported, 0) | Some req_type \<Rightarrow> (req_type, sector)) })"

definition request_offset_in_bounds :: "u8 list \<Rightarrow> u64 \<Rightarrow> IOTaskRamBuffer list \<Rightarrow> u64 option" where
  "request_offset_in_bounds config sector buffers =
     (let offset = unat sector * 512;
          data_len = sum_list (map snd buffers);
          capacity = unat (config_capacity config) * 512 in
      if 2 ^ 64 \<le> offset \<or> 2 ^ 64 \<le> data_len \<or> 2 ^ 64 \<le> capacity then None
      else if 2 ^ 32 - 2 < data_len \<or> 2 ^ 64 \<le> offset + data_len \<or> capacity < offset + data_len then None
      else Some (of_nat offset))"

type_synonym request_state = "VirtioBlkReqType \<times> u64 \<times> IOTaskRamBuffer list \<times> nat option"

definition collect_request :: "Ram \<Rightarrow> VirtQueueDesc \<Rightarrow> nat \<Rightarrow> request_state \<Rightarrow> request_state option" where
  "collect_request r d i = (\<lambda>(req_type, sector, buffers, status).
     if i = 0 then
       do { (req_type, sector) \<leftarrow> manage_request_header r d; Some (req_type, sector, buffers, status) }
     else if has_next d then
       Some (req_type, sector, buffers @ [(get_request_package d, unat (desc_len d))], status)
     else if desc_len d < 1 then Some (req_type, sector, buffers, status)
     else Some (req_type, sector, buffers, Some (get_request_package d)))"

definition request_task :: "u8 list \<Rightarrow> VirtioBlkReqType \<Rightarrow> u64 \<Rightarrow> IOTaskRamBuffer list \<Rightarrow> VirtIOBlockCompletion \<Rightarrow> VirtIOBlockAsyncTask" where
  "request_task config req_type sector buffers c =
     (case req_type of
        ReqIn \<Rightarrow> (case request_offset_in_bounds config sector buffers of
                    Some offset \<Rightarrow> TaskRead offset buffers c | None \<Rightarrow> TaskEarlyErr c)
      | ReqOut \<Rightarrow> (case request_offset_in_bounds config sector buffers of
                    Some offset \<Rightarrow> TaskWrite offset buffers c | None \<Rightarrow> TaskEarlyErr c)
      | ReqFlush \<Rightarrow> TaskFlush c
      | _ \<Rightarrow> TaskUnsupported c)"

definition blk_manage_one_request ::
  "('ch, 'f) blk_host \<Rightarrow> ('ch, 'f) VirtIOBlkDevice \<times> Ram \<Rightarrow> (bool \<times> ('ch, 'f) VirtIOBlkDevice \<times> Ram) option" where
  "blk_manage_one_request host = (\<lambda>(d, r).
     if \<not> ch_reserve host (blk_channel d) then Some (False, d, r)
     else
       do { (used, q, req_type, sector, buffers, status) \<leftarrow>
              take_one_request (collect_request r) r (blk_queue d) (ReqUnsupported, 0, [], None);
            let d = d\<lparr>blk_queue := q\<rparr> in
            case used of
              None \<Rightarrow> Some (False, d, r)
            | Some u \<Rightarrow>
                (case status of
                   None \<Rightarrow> do { r \<leftarrow> complete u 0 r; Some (True, d, r) }
                 | Some a \<Rightarrow>
                     let c = \<lparr>status_addr = a, queue_completion = u\<rparr> in
                     Some (True, d\<lparr>blk_channel := ch_send host (blk_channel d) (request_task (config_region d) req_type sector buffers c)\<rparr>, r)) })"

partial_function (option) blk_notify ::
  "('ch, 'f) blk_host \<Rightarrow> ('ch, 'f) VirtIOBlkDevice \<times> Ram \<Rightarrow> (('ch, 'f) VirtIOBlkDevice \<times> Ram) option" where
  "blk_notify host s =
     Option.bind (blk_manage_one_request host s) (\<lambda>(more, s'). if more then blk_notify host s' else Some s')"

definition blk_reset ::
  "('ch, 'f) blk_host \<Rightarrow> ('ch, 'f) VirtIOBlkDevice \<times> Ram \<Rightarrow> (('ch, 'f) VirtIOBlkDevice \<times> Ram) option" where
  "blk_reset host s =
     do { (d, r) \<leftarrow> drain_tasks host s;
          Some (d\<lparr>blk_status := 0, guest_feature := 0, blk_queue := VirtQueue_reset (blk_queue d), isr := 0\<rparr>, r) }"

definition blk_irq_level :: "Ram \<Rightarrow> ('ch, 'f) VirtIOBlkDevice \<Rightarrow> bool option" where
  "blk_irq_level r d = (if isr d \<noteq> 0 then interrupts_enabled r (blk_queue d) else Some False)"

definition set_feature :: "VirtIOFeatureSet \<Rightarrow> ('ch, 'f) VirtIOBlkDevice \<Rightarrow> ('ch, 'f) VirtIOBlkDevice" where
  "set_feature feature d =
     (if feature AND push_bit 32 1 = 0 \<or> host_feature d AND feature \<noteq> feature
      then d\<lparr>blk_status := blk_status d AND NOT 8\<rparr>
      else d\<lparr>guest_feature := feature\<rparr>)"

definition read_config :: "u64 \<Rightarrow> nat \<Rightarrow> ('ch, 'f) VirtIOBlkDevice \<Rightarrow> u64" where
  "read_config offset len d =
     (if length (config_region d) < unat offset + len then 0
      else of_bytes (take len (drop (unat offset) (config_region d))))"

definition write_config :: "u64 \<Rightarrow> nat \<Rightarrow> u64 \<Rightarrow> ('ch, 'f) VirtIOBlkDevice \<Rightarrow> ('ch, 'f) VirtIOBlkDevice" where
  "write_config offset len v d =
     (if length (config_region d) < unat offset + len then d
      else d\<lparr>config_region := take (unat offset) (config_region d)
               @ map (\<lambda>i. ucast (drop_bit (8 * i) v)) [0..<len] @ drop (unat offset + len) (config_region d)\<rparr>)"

end
