(* ===== verification/VirtioMmio.thy ===== *)
theory VirtioMmio
  imports VirtioBlock
begin

unbundle bit_operations_syntax

text \<open>
  The register transport of a virtio device, \<open>src/device/virtio/virtio_mmio.rs\<close>, on the block device, the
  only device type the board builds.
\<close>

datatype VirtIO_MMIO_Offset =
    MagicValue | Version | DeviceId | VendorId | DeviceFeatures | DeviceFeaturesSelect | DriverFeatures
  | DriverFeaturesSelect | QueueSelect | QueueNumMax | QueueNum | QueueReady | QueueNotify | InterruptStatus
  | InterruptAck | Status | QueueDescLow | QueueDescHigh | QueueAvailLow | QueueAvailHigh | QueueUsedLow
  | QueueUsedHigh | SharedMemSelect | SharedMemLenLow | SharedMemLenHigh | SharedMemBaseLow | SharedMemBaseHigh
  | ConfigGeneration | Config

definition Offset_table :: "(u64 \<times> VirtIO_MMIO_Offset) list" where
  "Offset_table =
     [(0x000, MagicValue), (0x004, Version), (0x008, DeviceId), (0x00C, VendorId), (0x010, DeviceFeatures),
      (0x014, DeviceFeaturesSelect), (0x020, DriverFeatures), (0x024, DriverFeaturesSelect), (0x030, QueueSelect),
      (0x034, QueueNumMax), (0x038, QueueNum), (0x044, QueueReady), (0x050, QueueNotify), (0x060, InterruptStatus),
      (0x064, InterruptAck), (0x070, Status), (0x080, QueueDescLow), (0x084, QueueDescHigh), (0x090, QueueAvailLow),
      (0x094, QueueAvailHigh), (0x0A0, QueueUsedLow), (0x0A4, QueueUsedHigh), (0x0AC, SharedMemSelect),
      (0x0B0, SharedMemLenLow), (0x0B4, SharedMemLenHigh), (0x0B8, SharedMemBaseLow), (0x0BC, SharedMemBaseHigh),
      (0x0FC, ConfigGeneration), (0x100, Config)]"

abbreviation (input) VIRTQUEUE_MAX_SIZE :: u32 where "VIRTQUEUE_MAX_SIZE \<equiv> 1024"
abbreviation (input) CONFIG_OFFSET :: u64 where "CONFIG_OFFSET \<equiv> 0x100"

record VirtIOMMIOQueueStatus =
  num :: u32
  desc :: u64
  avail :: u64
  used :: u64
  enable :: bool

definition QueueStatus_default :: VirtIOMMIOQueueStatus where
  "QueueStatus_default = \<lparr>num = 0, desc = 0, avail = 0, used = 0, enable = False\<rparr>"

text \<open>In \<open>set_low\<close> the complement binds before the cast: \<open>!u32::MAX as u64\<close> is 0.\<close>

definition set_low :: "u32 \<Rightarrow> u64 \<Rightarrow> u64" where
  "set_low low v = (v AND ucast (NOT (- 1 :: u32))) OR ucast low"

definition set_high :: "u32 \<Rightarrow> u64 \<Rightarrow> u64" where
  "set_high high v = (v AND ucast (- 1 :: u32)) OR push_bit 32 (ucast high)"

record ('ch, 'f) VirtIOMMIO =
  vdev :: "('ch, 'f) VirtIOBlkDevice"
  host_features_sel :: u32
  guest_features_sel :: u32
  guest_features :: VirtIOFeatureSet
  queues :: "VirtIOMMIOQueueStatus list"
  queue_select :: nat

definition VirtIOMMIO_new :: "('ch, 'f) VirtIOBlkDevice \<Rightarrow> ('ch, 'f) VirtIOMMIO" where
  "VirtIOMMIO_new d =
     \<lparr>vdev = d, host_features_sel = 0, guest_features_sel = 0, guest_features = 0,
      queues = replicate 8 QueueStatus_default, queue_select = 0\<rparr>"

definition mmio_reset :: "('ch, 'f) blk_host \<Rightarrow> ('ch, 'f) VirtIOMMIO \<times> Ram \<Rightarrow> (('ch, 'f) VirtIOMMIO \<times> Ram) option" where
  "mmio_reset host = (\<lambda>(m, r). do { (d, r) \<leftarrow> blk_reset host (vdev m, r); Some (VirtIOMMIO_new d, r) })"

definition feature_word :: "VirtIOFeatureSet \<Rightarrow> u32 \<Rightarrow> u32" where
  "feature_word features select = (if 4 \<le> select then 0 else ucast (drop_bit (unat select * 32) features))"

definition set_feature_word :: "u32 \<Rightarrow> u32 \<Rightarrow> VirtIOFeatureSet \<Rightarrow> VirtIOFeatureSet" where
  "set_feature_word select v features =
     (if 4 \<le> select then features
      else
        let shift = unat select * 32; m = push_bit shift (ucast (- 1 :: u32)) in
        (features AND NOT m) OR push_bit shift (ucast v))"

text \<open>\<open>get_device_id\<close> is 2, \<open>get_num_of_queue\<close> is 1 and \<open>queue_select\<close> does nothing for a block device.\<close>

definition read_u32_impl :: "u64 \<Rightarrow> ('ch, 'f) VirtIOMMIO \<Rightarrow> u32 option" where
  "read_u32_impl offset m =
     (if offset AND ALIGN_ILST ! 4 \<noteq> 0 then None
      else if CONFIG_OFFSET \<le> offset then Some (ucast (read_config (offset - CONFIG_OFFSET) 4 (vdev m)))
      else
        case map_of Offset_table offset of
          None \<Rightarrow> Some 0
        | Some t \<Rightarrow>
            (case t of
               MagicValue \<Rightarrow> Some 0x74726976
             | Version \<Rightarrow> Some 2
             | DeviceId \<Rightarrow> Some 2
             | VendorId \<Rightarrow> Some 0x4A444E42
             | DeviceFeatures \<Rightarrow> Some (feature_word (host_feature (vdev m)) (host_features_sel m))
             | QueueNumMax \<Rightarrow> Some (if queue_select m < 1 then VIRTQUEUE_MAX_SIZE else 0)
             | QueueReady \<Rightarrow> Some (of_bool (queue_select m < length (queues m) \<and> enable (queues m ! queue_select m)))
             | InterruptStatus \<Rightarrow> Some (ucast (isr (vdev m)))
             | Status \<Rightarrow> Some (ucast (blk_status (vdev m)))
             | ConfigGeneration \<Rightarrow> Some (generation (vdev m))
             | SharedMemLenLow \<Rightarrow> Some (- 1)
             | SharedMemLenHigh \<Rightarrow> Some (- 1)
             | SharedMemBaseHigh \<Rightarrow> Some 0
             | SharedMemBaseLow \<Rightarrow> Some 0
             | SharedMemSelect \<Rightarrow> Some 0
             | _ \<Rightarrow> None))"

definition on_selected :: "(VirtIOMMIOQueueStatus \<Rightarrow> VirtIOMMIOQueueStatus) \<Rightarrow> ('ch, 'f) VirtIOMMIO \<Rightarrow> ('ch, 'f) VirtIOMMIO" where
  "on_selected f m =
     (if queue_select m < length (queues m)
      then m\<lparr>queues := (queues m)[queue_select m := f (queues m ! queue_select m)]\<rparr> else m)"

definition on_device :: "(('ch, 'f) VirtIOBlkDevice \<Rightarrow> ('ch, 'f) VirtIOBlkDevice) \<Rightarrow> ('ch, 'f) VirtIOMMIO \<Rightarrow> ('ch, 'f) VirtIOMMIO" where
  "on_device f m = m\<lparr>vdev := f (vdev m)\<rparr>"

definition write_queue_num :: "u32 \<Rightarrow> ('ch, 'f) VirtIOMMIO \<Rightarrow> ('ch, 'f) VirtIOMMIO" where
  "write_queue_num v m =
     (if v = 0 \<or> VIRTQUEUE_MAX_SIZE < v then m
      else
        let m = on_selected (\<lambda>q. q\<lparr>num := v\<rparr>) m in
        if queue_select m < 1 then on_device (\<lambda>d. d\<lparr>blk_queue := VirtQueue_set_queue_num v (blk_queue d)\<rparr>) m else m)"

definition write_queue_ready :: "u32 \<Rightarrow> ('ch, 'f) VirtIOMMIO \<Rightarrow> ('ch, 'f) VirtIOMMIO" where
  "write_queue_ready v m =
     (if 1 < v then m
      else if \<not> queue_select m < length (queues m) then m
      else
        let q = queues m ! queue_select m in
        if v = 1 \<and> num q = 0 then m
        else
          let m = on_selected (\<lambda>q. q\<lparr>enable := v \<noteq> 0\<rparr>) m in
          if v \<noteq> 0 \<and> queue_select m < 1 then
            let m = on_device (\<lambda>d. d\<lparr>blk_queue :=
                      VirtQueue_set_used (used q) (VirtQueue_set_avail (avail q) (VirtQueue_set_desc (desc q)
                        (VirtQueue_set_queue_num (num q) (blk_queue d))))\<rparr>) m in
            if queue_ready (blk_queue (vdev m)) then m else on_selected (\<lambda>q. q\<lparr>enable := False\<rparr>) m
          else m)"

definition write_status :: "('ch, 'f) blk_host \<Rightarrow> u32 \<Rightarrow> ('ch, 'f) VirtIOMMIO \<times> Ram \<Rightarrow> (('ch, 'f) VirtIOMMIO \<times> Ram) option" where
  "write_status host v = (\<lambda>(m, r).
     if v = 0 then mmio_reset host (m, r)
     else
       let new_status = (ucast v :: u8) in
       if new_status AND NOT 0xCF \<noteq> 0 then Some (m, r)
       else
         let m = on_device (\<lambda>d. d\<lparr>blk_status := blk_status d OR new_status\<rparr>) m in
         Some (if bit new_status 3 then on_device (set_feature (guest_features m)) m else m, r))"

definition write_u32_impl ::
  "('ch, 'f) blk_host \<Rightarrow> u64 \<Rightarrow> u32 \<Rightarrow> ('ch, 'f) VirtIOMMIO \<times> Ram \<Rightarrow> (('ch, 'f) VirtIOMMIO \<times> Ram) option" where
  "write_u32_impl host offset v = (\<lambda>(m, r).
     if offset AND ALIGN_ILST ! 4 \<noteq> 0 then None
     else if CONFIG_OFFSET \<le> offset then Some (on_device (write_config (offset - CONFIG_OFFSET) 4 (ucast v)) m, r)
     else
       case map_of Offset_table offset of
         None \<Rightarrow> Some (m, r)
       | Some t \<Rightarrow>
           (case t of
              DeviceFeaturesSelect \<Rightarrow> Some (m\<lparr>host_features_sel := v\<rparr>, r)
            | DriverFeatures \<Rightarrow> Some (m\<lparr>guest_features := set_feature_word (guest_features_sel m) v (guest_features m)\<rparr>, r)
            | DriverFeaturesSelect \<Rightarrow> Some (m\<lparr>guest_features_sel := v\<rparr>, r)
            | QueueSelect \<Rightarrow> Some (m\<lparr>queue_select := unat v\<rparr>, r)
            | QueueNum \<Rightarrow> Some (write_queue_num v m, r)
            | QueueReady \<Rightarrow> Some (write_queue_ready v m, r)
            | QueueNotify \<Rightarrow>
                if v < 1 \<and> unat v < length (queues m) \<and> enable (queues m ! unat v)
                then do { (d, r) \<leftarrow> blk_notify host (vdev m, r); Some (m\<lparr>vdev := d\<rparr>, r) }
                else Some (m, r)
            | InterruptAck \<Rightarrow> Some (on_device (\<lambda>d. d\<lparr>isr := isr d AND NOT (ucast v)\<rparr>) m, r)
            | Status \<Rightarrow> write_status host v (m, r)
            | QueueDescLow \<Rightarrow> Some (on_selected (\<lambda>q. q\<lparr>desc := set_low v (desc q)\<rparr>) m, r)
            | QueueDescHigh \<Rightarrow> Some (on_selected (\<lambda>q. q\<lparr>desc := set_high v (desc q)\<rparr>) m, r)
            | QueueAvailLow \<Rightarrow> Some (on_selected (\<lambda>q. q\<lparr>avail := set_low v (avail q)\<rparr>) m, r)
            | QueueAvailHigh \<Rightarrow> Some (on_selected (\<lambda>q. q\<lparr>avail := set_high v (avail q)\<rparr>) m, r)
            | QueueUsedLow \<Rightarrow> Some (on_selected (\<lambda>q. q\<lparr>used := set_low v (used q)\<rparr>) m, r)
            | QueueUsedHigh \<Rightarrow> Some (on_selected (\<lambda>q. q\<lparr>used := set_high v (used q)\<rparr>) m, r)
            | Config \<Rightarrow> None
            | _ \<Rightarrow> Some (m, r)))"

definition VirtIOMMIO_read :: "u64 \<Rightarrow> nat \<Rightarrow> ('ch, 'f) VirtIOMMIO \<Rightarrow> (u64, MemError) result option" where
  "VirtIOMMIO_read addr len m =
     (if len \<notin> {1, 2, 4, 8} then None
      else if CONFIG_OFFSET \<le> addr then
        Some (if addr AND ALIGN_ILST ! len \<noteq> 0 then Err LoadMisaligned
              else Ok (take_bit (8 * len) (read_config (addr - CONFIG_OFFSET) len (vdev m))))
      else if len \<noteq> 4 \<or> addr AND ALIGN_ILST ! 4 \<noteq> 0 then Some (Err LoadMisaligned)
      else do { v \<leftarrow> read_u32_impl addr m; Some (Ok (ucast v)) })"

definition VirtIOMMIO_write ::
  "('ch, 'f) blk_host \<Rightarrow> u64 \<Rightarrow> nat \<Rightarrow> u64 \<Rightarrow> (('ch, 'f) VirtIOMMIO \<times> Ram, unit, MemError) prog" where
  "VirtIOMMIO_write host addr len v s =
     (if len \<notin> {1, 2, 4, 8} then None
      else if CONFIG_OFFSET \<le> addr then
        Some (if addr AND ALIGN_ILST ! len \<noteq> 0 then (Err StoreMisaligned, s)
              else (Ok (), on_device (write_config (addr - CONFIG_OFFSET) len (take_bit (8 * len) v)) (fst s), snd s))
      else if len \<noteq> 4 \<or> addr AND ALIGN_ILST ! 4 \<noteq> 0 then Some (Err StoreMisaligned, s)
      else do { s \<leftarrow> write_u32_impl host addr (ucast v) s; Some (Ok (), s) })"

end
