(* ===== verification/VirtioSpec.thy ===== *)
theory VirtioSpec
  imports VirtQueueSpec VirtioMmio
begin

unbundle bit_operations_syntax

text \<open>
  What the register transport and the block device promise: an enabled queue has its rings in the memory of
  the guest, and a transfer stays within the capacity of the disk.
\<close>

section \<open>The state of the queue\<close>

definition mmio_ok :: "('ch, 'f) VirtIOMMIO \<Rightarrow> bool" where
  "mmio_ok m \<longleftrightarrow> length (queues m) = 8 \<and> (enable (queues m ! 0) \<longrightarrow> queue_ok (blk_queue (vdev m)))"

lemma take_one_request_ok:
  assumes "take_one_request func r q st = Some (c, q', st')" "queue_ok q"
  shows "queue_ok q'"
  using assms
  by (auto simp: take_one_request_def try_get_desc_def queue_ok_def bind_eq_Some_conv split: if_splits option.splits)

lemma blk_manage_one_request_ok:
  assumes "blk_manage_one_request host (d, r) = Some (again, d', r')" "queue_ok (blk_queue d)"
  shows "queue_ok (blk_queue d')"
proof (cases "ch_reserve host (blk_channel d)")
  case True
  then obtain c q st where t: "take_one_request (collect_request r) r (blk_queue d) (ReqUnsupported, 0, [], None) = Some (c, q, st)"
    using assms(1) by (auto simp: blk_manage_one_request_def bind_eq_Some_conv)
  have "blk_queue d' = q"
    using assms(1) True t
    by (cases st) (auto simp: blk_manage_one_request_def bind_eq_Some_conv Let_def split: option.splits)
  then show ?thesis using take_one_request_ok [OF t assms(2)] by simp
qed (use assms in \<open>auto simp: blk_manage_one_request_def\<close>)

lemma blk_notify_ok:
  fixes host :: "('ch, 'f) blk_host"
  assumes "blk_notify host s = Some s'" "queue_ok (blk_queue (fst s))"
  shows "queue_ok (blk_queue (fst s'))"
proof -
  let ?P = "\<lambda>(_ :: ('ch, 'f) blk_host) s s'. queue_ok (blk_queue (fst s)) \<longrightarrow> queue_ok (blk_queue (fst s'))"
  have "?P host s s'"
  proof (rule blk_notify.raw_induct [where P = ?P, OF _ assms(1)])
    fix rec and host :: "('ch, 'f) blk_host" and s s'
    assume ih: "\<And>host s s'. rec host s = Some s' \<Longrightarrow> ?P host s s'"
      and body: "Option.bind (blk_manage_one_request host s) (\<lambda>(again, s'). if again then rec host s' else Some s') = Some s'"
    obtain again d' r' where step: "blk_manage_one_request host (fst s, snd s) = Some (again, d', r')"
      using body by (cases "blk_manage_one_request host s") auto
    show "?P host s s'"
      using body step blk_manage_one_request_ok [OF step] ih [of host "(d', r')" s'] by (auto split: if_splits)
  qed
  then show ?thesis using assms(2) by blast
qed

lemma mmio_reset_ok: "mmio_reset host (m, r) = Some (m', r') \<Longrightarrow> mmio_ok m'"
  by (auto simp: mmio_reset_def bind_eq_Some_conv mmio_ok_def VirtIOMMIO_new_def QueueStatus_default_def)

lemma on_selected_ok:
  assumes "mmio_ok m" "\<And>q. enable (f q) = enable q"
  shows "mmio_ok (on_selected f m)"
  using assms by (cases "queue_select m") (auto simp: mmio_ok_def on_selected_def)

lemma write_queue_ready_ok:
  assumes "mmio_ok m"
  shows "mmio_ok (write_queue_ready v m)"
  using assms configured_queue_ok
  by (cases "queue_select m") (auto simp: mmio_ok_def write_queue_ready_def on_selected_def on_device_def Let_def)

lemma write_queue_num_ok:
  assumes "mmio_ok m" "queue_select m = 0 \<longrightarrow> \<not> enable (queues m ! 0)"
  shows "mmio_ok (write_queue_num v m)"
  using assms by (cases "queue_select m") (auto simp: mmio_ok_def write_queue_num_def on_selected_def on_device_def Let_def)

lemma on_device_ok:
  "mmio_ok m \<Longrightarrow> blk_queue (f (vdev m)) = blk_queue (vdev m) \<Longrightarrow> mmio_ok (on_device f m)"
  by (simp add: mmio_ok_def on_device_def)

lemma blk_queue_frame [simp]:
  "blk_queue (write_config i n v d) = blk_queue d" "blk_queue (set_feature fs d) = blk_queue d"
  by (simp_all add: write_config_def set_feature_def)

lemma write_status_ok:
  assumes "write_status host v (m, r) = Some (m', r')" "mmio_ok m"
  shows "mmio_ok m'"
  using assms mmio_reset_ok [of host m r m' r']
  by (auto simp: write_status_def Let_def intro!: on_device_ok split: if_splits)

text \<open>
  C22.  Whatever register the guest writes, as long as it does not change the size of the queue while the
  queue is enabled, an enabled queue has its three rings inside the memory of the guest for the number of
  entries the device uses; so a queue processed on a notification never makes the host access memory beyond
  that of the guest.
\<close>

theorem virtio_queue_invariant:
  assumes "mmio_ok m" "write_u32_impl host offset v (m, r) = Some (m', r')"
    and "offset = 0x38 \<longrightarrow> queue_select m = 0 \<longrightarrow> \<not> enable (queues m ! 0)"
  shows "mmio_ok m'"
proof (cases "map_of Offset_table offset")
  case None
  then show ?thesis using assms(1,2) by (auto simp: write_u32_impl_def intro!: on_device_ok split: if_splits)
next
  case (Some t)
  have num: "t = QueueNum \<Longrightarrow> offset = 0x38" using Some by (auto simp: Offset_table_def split: if_splits)
  have notify: "mmio_ok (m\<lparr>vdev := d\<rparr>)" if "blk_notify host (vdev m, r) = Some (d, r')" for d
    using assms(1) blk_notify_ok [OF that] by (simp add: mmio_ok_def)
  have frame: "mmio_ok (m\<lparr>host_features_sel := x\<rparr>)" "mmio_ok (m\<lparr>guest_features_sel := x\<rparr>)" "mmio_ok (m\<lparr>guest_features := y\<rparr>)"
    "mmio_ok (m\<lparr>queue_select := n\<rparr>)" for x y n using assms(1) by (simp_all add: mmio_ok_def)
  show ?thesis using assms(2) Some
    by (cases t) (use assms(1,3) num frame in \<open>auto simp: write_u32_impl_def bind_eq_Some_conv notify
      intro: on_device_ok on_selected_ok write_queue_ready_ok write_queue_num_ok write_status_ok split: if_splits\<close>)
qed

text \<open>A device whose only queue has been given two entries and its three rings, and is not yet enabled.\<close>

definition example_host :: "(unit, nat \<Rightarrow> u8) blk_host" where
  "example_host =
     \<lparr>ch_reserve = (\<lambda>_. True), ch_send = (\<lambda>c _. c), ch_recv = (\<lambda>c. (None, c)),
      f_read = (\<lambda>f off n. (Some (map (\<lambda>i. f (unat off + i)) [0..<n]), f)),
      f_write = (\<lambda>f off bytes. (True, splice_bytes (unat off) bytes f)), f_sync = (\<lambda>f. (True, f))\<rparr>"

definition example_mmio :: "u32 \<Rightarrow> u64 \<Rightarrow> (unit, nat \<Rightarrow> u8) VirtIOMMIO" where
  "example_mmio n d =
     (VirtIOMMIO_new (VirtIOBlkDevice_new 16 () (\<lambda>_. 0)))
       \<lparr>queues := [QueueStatus_default\<lparr>num := n, desc := d, avail := 0x80000040, used := 0x80000080\<rparr>] @ replicate 7 QueueStatus_default\<rparr>"

lemmas example_mmio_simps = example_mmio_def VirtIOMMIO_new_def VirtIOBlkDevice_new_def QueueStatus_default_def
  write_u32_impl_def Offset_table_def write_queue_ready_def on_selected_def on_device_def Let_def queue_ready_def
  VirtQueue_set_used_def VirtQueue_set_avail_def VirtQueue_set_desc_def VirtQueue_set_queue_num_def VirtQueue_new_def
  guest_ram_ptr_def BASE_ADDR_def SIZE_def

theorem virtio_queue_invariant_witness:
  "\<exists>m'. write_u32_impl example_host 0x44 1 (example_mmio 2 0x80000000, Ram_new 0) = Some (m', Ram_new 0)
     \<and> enable (queues m' ! 0) \<and> mmio_ok m'"
proof -
  have "mmio_ok (example_mmio 2 0x80000000)" by (simp add: mmio_ok_def example_mmio_simps)
  moreover obtain m' where "write_u32_impl example_host 0x44 1 (example_mmio 2 0x80000000, Ram_new 0) = Some (m', Ram_new 0)"
      "enable (queues m' ! 0)"
    by (simp add: example_mmio_simps ALIGN_ILST_def)
  ultimately show ?thesis using virtio_queue_invariant [of "example_mmio 2 0x80000000" example_host "0x44" 1 "Ram_new 0"] by auto
qed

text \<open>
  C37.  The exception of the invariant is real: on an enabled queue a write of \<open>QueueNum\<close> is accepted
  without checking the rings again, and a notification then makes the host read a descriptor beyond the memory
  of the guest.
\<close>

theorem virtio_queue_num_unchecked:
  assumes "mmio_ok m" "queue_select m = 0" "enable (queues m ! 0)" "ch_reserve host (blk_channel (vdev m))"
    and "desc_ptr (blk_queue (vdev m)) = Some d" "avail_ptr (blk_queue (vdev m)) = Some a"
    and "n \<noteq> 0" "n \<le> 1024" "unat i < unat n" "SIZE < d + 16 * unat i + 16"
    and "peek r (a + 2) = Some head" "head \<noteq> last_avail_idx (blk_queue (vdev m))"
    and "peek r (a + 4 + 2 * (unat (last_avail_idx (blk_queue (vdev m))) mod unat n)) = Some (i :: u16)"
  shows "\<exists>m'. write_u32_impl host 0x38 n (m, r) = Some (m', r) \<and> write_u32_impl host 0x50 0 (m', r) = None"
proof -
  define m' where "m' = write_queue_num n m"
  have w: "write_u32_impl host 0x38 n (m, r) = Some (m', r)"
    by (simp add: write_u32_impl_def Offset_table_def ALIGN_ILST_def m'_def)
  have len: "length (queues m) = 8" "queue_ok (blk_queue (vdev m))" using assms(1,3) by (simp_all add: mmio_ok_def)
  have m': "vdev m' = (vdev m)\<lparr>blk_queue := (blk_queue (vdev m))\<lparr>queue_num := n\<rparr>\<rparr>" "enable (queues m' ! 0)" "length (queues m') = 8"
    using assms(2,3,7,8) len
    by (simp_all add: m'_def write_queue_num_def Let_def on_selected_def on_device_def VirtQueue_set_queue_num_def not_less)
  let ?h = "\<lparr>table = d, table_len = unat n, idx = unat i, remaining = unat n\<rparr>"
  have "read_desc r d (unat i) = None"
    using assms(10) by (auto simp: read_desc_def peek_def bind_eq_None_conv)
  then have "try_get r ?h = None" using assms(9) by (simp add: try_get_def table_at_def)
  then have "take_loop (collect_request r) r 0 ?h st = None" for st by (subst take_loop.simps) simp
  then have "take_one_request (collect_request r) r (blk_queue (vdev m')) st = None" for st
    using assms(5-7,11-13) len m'
    by (auto simp: take_one_request_def try_get_desc_def queue_ready_def queue_ok_def)
  then have "blk_notify host (vdev m', r) = None"
    using assms(4) m' by (subst blk_notify.simps) (simp add: blk_manage_one_request_def)
  moreover have "queues m' \<noteq> []" using m'(3) by auto
  ultimately have "write_u32_impl host 0x50 0 (m', r) = None"
    using m' by (simp add: write_u32_impl_def Offset_table_def ALIGN_ILST_def)
  then show ?thesis using w by blast
qed

text \<open>The queue of one entry at the end of the memory, with one request that names the second entry.\<close>

theorem virtio_queue_num_unchecked_witness:
  "\<exists>m. mmio_ok m \<and> enable (queues m ! 0)
     \<and> (\<exists>m'. write_u32_impl example_host 0x38 2 (m, (Ram_new 0)\<lparr>data := (\<lambda>_. 0)(66 := 1, 68 := 1)\<rparr>) = Some (m', (Ram_new 0)\<lparr>data := (\<lambda>_. 0)(66 := 1, 68 := 1)\<rparr>)
          \<and> write_u32_impl example_host 0x50 0 (m', (Ram_new 0)\<lparr>data := (\<lambda>_. 0)(66 := 1, 68 := 1)\<rparr>) = None)"
proof -
  let ?m = "write_queue_ready 1 (example_mmio 1 0x9FFFFFF0)" and ?r = "(Ram_new 0)\<lparr>data := (\<lambda>_. 0)(66 := 1, 68 := 1)\<rparr>"
  have m: "queue_select ?m = 0" "enable (queues ?m ! 0)" "desc_ptr (blk_queue (vdev ?m)) = Some 0x1FFFFFF0"
    "avail_ptr (blk_queue (vdev ?m)) = Some 64" "last_avail_idx (blk_queue (vdev ?m)) = 0"
    by (simp_all add: example_mmio_simps)
  have "mmio_ok ?m" by (rule write_queue_ready_ok) (simp add: mmio_ok_def example_mmio_simps)
  moreover have "peek ?r 66 = Some (1 :: u16)" "peek ?r 68 = Some (1 :: u16)"
    by (simp_all add: peek_def SIZE_def of_bytes_def upt_rec)
  ultimately show ?thesis
    using m virtio_queue_num_unchecked [of ?m example_host "0x1FFFFFF0" 64 2 1 ?r 1]
    by (intro exI [of _ ?m]) (simp add: SIZE_def example_host_def)
qed

text \<open>
  Programming an address: the low half followed by the high half gives the address, but the high half
  followed by the low half loses the high half.
\<close>

theorem queue_address_halves:
  "set_high high (set_low low v) = push_bit 32 (ucast high) OR ucast low \<and> set_low low (set_high high v) = ucast low"
proof -
  have "(ucast low :: u64) AND ucast (- 1 :: u32) = ucast low"
    by (intro bit_eqI) (auto simp: bit_simps dest: bit_imp_le_length)
  then show ?thesis by (simp add: set_high_def set_low_def or.commute)
qed

section \<open>Transfers\<close>

text \<open>What is relied on of the backing file: \<open>contents\<close> is its sequence of bytes.\<close>

definition file_laws :: "('ch, 'f) blk_host \<Rightarrow> ('f \<Rightarrow> nat \<Rightarrow> u8) \<Rightarrow> bool" where
  "file_laws host contents \<longleftrightarrow>
     (\<forall>f off bytes f'. f_write host f off bytes = (True, f') \<longrightarrow> contents f' = splice_bytes (unat off) bytes (contents f))
     \<and> (\<forall>f off n bytes f'. f_read host f off n = (Some bytes, f') \<longrightarrow>
          contents f' = contents f \<and> bytes = map (\<lambda>i. contents f (unat off + i)) [0..<length bytes])"

text \<open>The bytes of a list of buffers, and buffers that do not overlap.\<close>

definition buffer_bytes :: "Ram \<Rightarrow> IOTaskRamBuffer list \<Rightarrow> u8 list" where
  "buffer_bytes r bs = concat (map (\<lambda>(a, n). map (\<lambda>i. data r (a + i)) [0..<n]) bs)"

definition buffers_len :: "IOTaskRamBuffer list \<Rightarrow> nat" where
  "buffers_len bs = sum_list (map snd bs)"

fun disjoint_buffers :: "IOTaskRamBuffer list \<Rightarrow> bool" where
  "disjoint_buffers [] = True"
| "disjoint_buffers ((a, n) # bs) = ((\<forall>(b, m) \<in> set bs. a + n \<le> b \<or> b + m \<le> a) \<and> disjoint_buffers bs)"

lemma length_buffer_bytes [simp]: "length (buffer_bytes r bs) = buffers_len bs"
  by (induction bs) (auto simp: buffer_bytes_def buffers_len_def)

lemma buffer_simps [simp]:
  "buffer_bytes r [] = []" "buffer_bytes r ((a, n) # bs) = map (\<lambda>i. data r (a + i)) [0..<n] @ buffer_bytes r bs"
  "buffers_len [] = 0" "buffers_len ((a, n) # bs) = n + buffers_len bs"
  by (simp_all add: buffer_bytes_def buffers_len_def)

lemma splice_bytes_append:
  "splice_bytes (a + length xs) ys (splice_bytes a xs m) = splice_bytes a (xs @ ys) m"
  by (rule ext) (auto simp: splice_bytes_def nth_append)

lemma unat_add_of_nat: "unat a + n < 2 ^ 64 \<Longrightarrow> unat ((a :: u64) + of_nat n) = unat a + n"
  by (simp add: unat_word_ariths unsigned_of_nat take_bit_eq_mod mod_simps)

lemma write_buffers_contents:
  assumes "file_laws host contents" "write_buffers host bs off f r = Some (StatusOk, f')" "unat off + buffers_len bs < 2 ^ 64"
  shows "contents f' = splice_bytes (unat off) (buffer_bytes r bs) (contents f)"
  using assms(2,3)
proof (induction bs arbitrary: off f)
  case Nil
  then show ?case by (auto simp: splice_bytes_def fun_eq_iff)
next
  case (Cons b bs)
  obtain a n where b: "b = (a, n)" by (cases b)
  let ?bytes = "map (\<lambda>i. data r (a + i)) [0..<n]"
  obtain g where g: "f_write host f off ?bytes = (True, g)" "write_buffers host bs (off + of_nat n) g r = Some (StatusOk, f')"
    using Cons.prems(1) b by (auto simp: ram_slice_def split: if_splits bool.splits prod.splits)
  have "unat (off + of_nat n) = unat off + n" "unat (off + of_nat n) + buffers_len bs < 2 ^ 64"
    using Cons.prems(2) b unat_add_of_nat [of off n] by simp_all
  then have "contents f' = splice_bytes (unat off + length ?bytes) (buffer_bytes r bs) (contents g)"
    using Cons.IH [OF g(2)] by simp
  moreover have "contents g = splice_bytes (unat off) ?bytes (contents f)" using assms(1) g(1) by (simp add: file_laws_def)
  ultimately show ?case using b by (simp only: splice_bytes_append buffer_simps)
qed

lemma read_buffers_contents:
  assumes "file_laws host contents" "read_buffers host bs off t f r = Some (StatusOk, t', f', r')"
    and "unat off + buffers_len bs < 2 ^ 64" "disjoint_buffers bs"
  shows "contents f' = contents f \<and> t' = t + of_nat (buffers_len bs)
     \<and> buffer_bytes r' bs = map (\<lambda>i. contents f (unat off + i)) [0..<buffers_len bs]
     \<and> (\<forall>i. (\<forall>(a, n) \<in> set bs. i < a \<or> a + n \<le> i) \<longrightarrow> data r' i = data r i)"
  using assms(2,3,4)
proof (induction bs arbitrary: off t f r)
  case Nil
  then show ?case by simp
next
  case (Cons b bs)
  obtain a n where b: "b = (a, n)" by (cases b)
  obtain bytes g where g: "f_read host f off n = (Some bytes, g)" "length (take n bytes) = n"
      "read_buffers host bs (off + of_nat n) (t + of_nat n) g (r\<lparr>data := splice_bytes a (take n bytes) (data r)\<rparr>) = Some (StatusOk, t', f', r')"
    using Cons.prems(1) b by (auto simp: bind_eq_Some_conv Let_def split: if_splits option.splits prod.splits)
  have off: "unat (off + of_nat n) = unat off + n" "unat (off + of_nat n) + buffers_len bs < 2 ^ 64" "disjoint_buffers bs"
    using Cons.prems(2,3) b unat_add_of_nat [of off n] by simp_all
  have bytes: "contents g = contents f" "bytes = map (\<lambda>i. contents f (unat off + i)) [0..<length bytes]"
    using assms(1) g(1) by (auto simp: file_laws_def)
  have "n \<le> length bytes" using g(2) by simp
  then have "take n bytes = map (\<lambda>i. contents f (unat off + i)) [0..<n]" by (subst bytes(2)) (simp add: take_map)
  note ih = Cons.IH [OF g(3) off(2,3), unfolded off(1) bytes(1) this]
  have "data r' (a + i) = contents f (unat off + i)" if "i < n" for i
  proof -
    have "\<forall>(c, m) \<in> set bs. a + i < c \<or> c + m \<le> a + i" using Cons.prems(3) b that by fastforce
    then show ?thesis using ih that by (simp add: splice_bytes_def)
  qed
  moreover have "data r' i = data r i" if "\<forall>(c, m) \<in> set (b # bs). i < c \<or> c + m \<le> i" for i
    using ih that b by (auto simp: splice_bytes_def)
  moreover have "[0..<n + buffers_len bs] = [0..<n] @ map (\<lambda>i. n + i) [0..<buffers_len bs]"
    by (rule nth_equalityI) (auto simp: nth_append)
  ultimately show ?case using ih b by (simp add: add.assoc)
qed



text \<open>
  A read or write that is handed to the worker lies within the capacity of the disk: its offset is the
  sector times 512, exactly, and the end of the transfer is at most the capacity.
\<close>

theorem block_transfer_in_capacity:
  assumes "request_task config t sector bs c = task" "task \<in> {TaskRead off bs' c', TaskWrite off bs' c'}"
  shows "bs' = bs \<and> c' = c \<and> unat off = 512 * unat sector \<and> unat off + buffers_len bs \<le> 512 * unat (config_capacity config)"
proof -
  have bs: "bs' = bs" "c' = c" "request_offset_in_bounds config sector bs = Some off"
    using assms by (auto simp: request_task_def split: VirtioBlkReqType.splits option.splits)
  then have o: "off = of_nat (512 * unat sector)" "512 * unat sector < 2 ^ 64"
      "512 * unat sector + buffers_len bs \<le> 512 * unat (config_capacity config)"
    by (auto simp: request_offset_in_bounds_def Let_def buffers_len_def mult.commute split: if_splits)
  then have "unat off = 512 * unat sector" unfolding o(1) by (simp add: unsigned_of_nat take_bit_eq_mod del: of_nat_mult)
  then show ?thesis using bs o by simp
qed

theorem block_transfer_in_capacity_witness:
  "\<exists>c. request_task (VirtioBlkConfig_new 4) ReqIn 3 [(0, 512)] c = TaskRead 1536 [(0, 512)] c
     \<and> unat (1536 :: u64) + buffers_len [(0, 512)] \<le> 512 * unat (config_capacity (VirtioBlkConfig_new 4))"
proof -
  fix c :: VirtIOBlockCompletion
  have "config_capacity (VirtioBlkConfig_new 4) = 4" by (simp add: config_capacity_def VirtioBlkConfig_new_def of_bytes_to_bytes)
  then have t: "request_task (VirtioBlkConfig_new 4) ReqIn 3 [(0, 512)] c = TaskRead 1536 [(0, 512)] c"
    by (simp add: request_task_def request_offset_in_bounds_def)
  then show ?thesis using block_transfer_in_capacity [OF t, of 1536 "[(0, 512)]" c] by auto
qed

text \<open>The capacity that bounds the transfers is itself a field that the guest can write.\<close>

lemma capacity_written:
  assumes "8 \<le> length (config_region d)"
  shows "config_capacity (config_region (write_config 0 8 v d)) = v"
proof -
  have "map (\<lambda>i. ucast (drop_bit (8 * i) v)) [0..<8] = to_bytes v" by (simp add: to_bytes_def upt_rec)
  then show ?thesis using assms by (simp add: write_config_def config_capacity_def of_bytes_to_bytes)
qed

end
