(* ===== verification/Board.thy ===== *)
theory Board
  imports HartDevices PlicSpec UartSpec ClintSpec VirtioSpec
begin

unbundle bit_operations_syntax

text \<open>
  The board: \<open>src/board/mod.rs\<close>, \<open>src/board/virt.rs\<close>, \<open>src/board/builder.rs\<close> and
  \<open>src/device/id_allocator.rs\<close>.

  A board is a hart over an arena of devices.  The cycle counter and the timer that the board shares with the
  interruptor by reference are fields of the interruptor, and the static \<open>POWER_STATUS\<close> is a field of the power
  manager.  The packages behind the devices are the argument \<open>host\<close>.
\<close>

section \<open>The devices of a board\<close>

datatype ('b, 'q, 'o, 'ch, 'f) VirtDevice =
    DevPower PowerManager
  | DevClint Clint
  | DevPlic "'b PLIC"
  | DevUart "('q, 'o) Uart16550A"
  | DevVirtio "('ch, 'f) VirtIOMMIO"

record ('b, 'q, 'o, 'ch, 'f) board_host =
  host_bits :: "'b BitSet"
  host_uart :: "('q, 'o) uart_channels"
  host_blk :: "('ch, 'f) blk_host"

text \<open>\<open>PlicDevice::irq_level\<close> of a device by its handle.\<close>

definition device_irq_level :: "('b, 'q, 'o, 'ch, 'f) board_host \<Rightarrow> ('b, 'q, 'o, 'ch, 'f) VirtDevice poll" where
  "device_irq_level host h ds r =
     (case nth_opt ds h of
        Some (DevUart u) \<Rightarrow> (case Uart_irq_level (host_uart host) u of (level, u) \<Rightarrow> Some (level, ds[h := DevUart u]))
      | Some (DevVirtio m) \<Rightarrow> map_option (\<lambda>level. (level, ds)) (blk_irq_level r (vdev m))
      | _ \<Rightarrow> None)"

definition device_read ::
  "('b, 'q, 'o, 'ch, 'f) board_host \<Rightarrow> ErasedDeviceHandle \<Rightarrow> ('b, 'q, 'o, 'ch, 'f) VirtDevice list \<Rightarrow> Ram \<Rightarrow> u64 \<Rightarrow> nat
    \<Rightarrow> ((u64, MemError) result \<times> ('b, 'q, 'o, 'ch, 'f) VirtDevice list \<times> Ram \<times> irq_event list) option" where
  "device_read host h ds r addr len =
     Option.bind (nth_opt ds h) (\<lambda>d.
       case d of
         DevPower p \<Rightarrow> do { v \<leftarrow> PowerManager_read len p; Some (v, ds, r, []) }
       | DevClint c \<Rightarrow> do { v \<leftarrow> Clint_read addr len c; Some (v, ds, r, []) }
       | DevPlic p \<Rightarrow>
           do { (v, p, ds) \<leftarrow> PLIC_read_impl (host_bits host) (device_irq_level host) r len addr (p, ds);
                Some (map_ok ucast v, ds[h := DevPlic p], r, []) }
       | DevUart u \<Rightarrow> do { (v, u) \<leftarrow> Uart_read (host_uart host) addr len u; Some (v, ds[h := DevUart u], r, []) }
       | DevVirtio m \<Rightarrow> do { v \<leftarrow> VirtIOMMIO_read addr len m; Some (v, ds, r, []) })"

definition device_write ::
  "('b, 'q, 'o, 'ch, 'f) board_host \<Rightarrow> ErasedDeviceHandle \<Rightarrow> ('b, 'q, 'o, 'ch, 'f) VirtDevice list \<Rightarrow> Ram \<Rightarrow> u64 \<Rightarrow> nat \<Rightarrow> u64
    \<Rightarrow> ((unit, MemError) result \<times> ('b, 'q, 'o, 'ch, 'f) VirtDevice list \<times> Ram \<times> irq_event list) option" where
  "device_write host h ds r addr len v =
     Option.bind (nth_opt ds h) (\<lambda>d.
       case d of
         DevPower p \<Rightarrow> do { (res, p) \<leftarrow> PowerManager_write len v p; Some (res, ds[h := DevPower p], r, []) }
       | DevClint c \<Rightarrow> do { (res, c, evs) \<leftarrow> Clint_write addr len v c; Some (res, ds[h := DevClint c], r, evs) }
       | DevPlic p \<Rightarrow>
           do { (res, p, ds) \<leftarrow> PLIC_write_impl (host_bits host) (device_irq_level host) r len addr (ucast v) (p, ds);
                Some (res, ds[h := DevPlic p], r, []) }
       | DevUart u \<Rightarrow> do { (res, u) \<leftarrow> Uart_write (host_uart host) addr len v u; Some (res, ds[h := DevUart u], r, []) }
       | DevVirtio m \<Rightarrow>
           do { (res, m, r) \<leftarrow> VirtIOMMIO_write (host_blk host) addr len v (m, r); Some (res, ds[h := DevVirtio m], r, []) })"

text \<open>No device of the board has anything to do in \<open>sync\<close>.\<close>

definition virt_device_ops :: "('b, 'q, 'o, 'ch, 'f) board_host \<Rightarrow> ('b, 'q, 'o, 'ch, 'f) VirtDevice device_ops" where
  "virt_device_ops host =
     \<lparr>dev_read = device_read host, dev_write = device_write host, dev_sync = (\<lambda>h ds r. Some (ds, r, []))\<rparr>"

section \<open>Addresses and interrupt numbers\<close>

record MemMapInfo =
  info_name :: string
  info_base :: u64
  info_size :: u64
  info_irq :: "PeriphIrqId option"

record IdAllocator =
  next_id :: u64
  device_name :: string
  mem_base :: u64
  mem_size :: u64
  irq_base :: "PeriphIrqId option"

fun decimal :: "nat \<Rightarrow> string" where
  "decimal n = (if n < 10 then [] else decimal (n div 10)) @ [char_of (48 + n mod 10)]"

definition IdAllocator_new :: "u64 \<Rightarrow> string \<Rightarrow> u64 \<Rightarrow> u64 \<Rightarrow> PeriphIrqId option \<Rightarrow> IdAllocator" where
  "IdAllocator_new start_id name base sz irq =
     \<lparr>next_id = start_id, device_name = name, mem_base = base, mem_size = sz, irq_base = irq\<rparr>"

definition IdAllocator_get :: "IdAllocator \<Rightarrow> MemMapInfo \<times> IdAllocator" where
  "IdAllocator_get a =
     (\<lparr>info_name = decimal (unat (next_id a)) @ device_name a, info_base = mem_base a + next_id a * mem_size a,
       info_size = mem_size a, info_irq = map_option (\<lambda>base_irq. base_irq + ucast (next_id a)) (irq_base a)\<rparr>,
      a\<lparr>next_id := next_id a + 1\<rparr>)"

section \<open>Building a board\<close>

abbreviation (input) UART_BASE :: u64 where "UART_BASE \<equiv> 0x10000000"
abbreviation (input) UART_SIZE :: u64 where "UART_SIZE \<equiv> 8"
abbreviation (input) UART_IRQ :: u32 where "UART_IRQ \<equiv> 10"
abbreviation (input) VIRTIO_MMIO_BASE :: u64 where "VIRTIO_MMIO_BASE \<equiv> 0x10001000"
abbreviation (input) VIRTIO_MMIO_SIZE :: u64 where "VIRTIO_MMIO_SIZE \<equiv> 0x1000"
abbreviation (input) VIRTIO_IRQ_BASE :: u32 where "VIRTIO_IRQ_BASE \<equiv> 1"
abbreviation (input) POWER_MANAGER_BASE :: u64 where "POWER_MANAGER_BASE \<equiv> 0x100000"
abbreviation (input) CLINT_BASE :: u64 where "CLINT_BASE \<equiv> 0x2000000"
abbreviation (input) PLIC_BASE :: u64 where "PLIC_BASE \<equiv> 0xC000000"
abbreviation (input) MTIME_OFFSET :: u64 where "MTIME_OFFSET \<equiv> 0xBFF8"
abbreviation (input) MTIMECMP_OFFSET :: u64 where "MTIMECMP_OFFSET \<equiv> 0x4000"

text \<open>The types under which \<open>id_allocators\<close> keeps an allocator.\<close>

datatype plic_device_type = TypeUart | TypeVirtio

record ('b, 'q, 'o, 'ch, 'f) RVBoardBuilder =
  ram_ref :: Ram
  builder_plic :: "'b PLIC"
  arena_builder :: "('b, 'q, 'o, 'ch, 'f) VirtDevice list"
  id_allocators :: "plic_device_type \<rightharpoonup> IdAllocator"
  mmio_items :: "MemoryMapItem list"
  initial_registers :: "(u8 \<times> u64) list"
  clint_mmio :: "(u64 \<times> u64) option"
  plic_mmio :: "(u64 \<times> u64) option"

definition RVBoardBuilder_new :: "('b, 'q, 'o, 'ch, 'f) board_host \<Rightarrow> Ram \<Rightarrow> ('b, 'q, 'o, 'ch, 'f) RVBoardBuilder" where
  "RVBoardBuilder_new host r =
     \<lparr>ram_ref = r, builder_plic = PLIC_new (host_bits host), arena_builder = [], id_allocators = Map.empty, mmio_items = [],
      initial_registers = [], clint_mmio = None, plic_mmio = None\<rparr>"

definition add_plain_mmio_device ::
  "('b, 'q, 'o, 'ch, 'f) VirtDevice \<Rightarrow> u64 \<Rightarrow> u64 \<Rightarrow> ('b, 'q, 'o, 'ch, 'f) RVBoardBuilder \<Rightarrow> ('b, 'q, 'o, 'ch, 'f) RVBoardBuilder" where
  "add_plain_mmio_device device base sz b =
     (let handle = length (arena_builder b) in
      b\<lparr>arena_builder := arena_builder b @ [device],
        mmio_items := mmio_items b @ [\<lparr>item_start = base, item_size = sz, item_device = handle\<rparr>]\<rparr>)"

definition add_plic_device ::
  "plic_device_type \<Rightarrow> ('b, 'q, 'o, 'ch, 'f) VirtDevice \<Rightarrow> u64 \<Rightarrow> u64 \<Rightarrow> PeriphIrqId
    \<Rightarrow> ('b, 'q, 'o, 'ch, 'f) RVBoardBuilder \<Rightarrow> ('b, 'q, 'o, 'ch, 'f) RVBoardBuilder option" where
  "add_plic_device type_id device base sz interrupt_id b =
     (let allocator = (case id_allocators b type_id of
                         Some a \<Rightarrow> a
                       | None \<Rightarrow> IdAllocator_new 0 ''D'' base sz (Some interrupt_id));
          (info, allocator) = IdAllocator_get allocator;
          irq = (case info_irq info of Some n \<Rightarrow> n | None \<Rightarrow> interrupt_id) in
      do { p \<leftarrow> register_device (length (arena_builder b)) irq (builder_plic b);
           Some (add_plain_mmio_device device (info_base info) (info_size info)
                   (b\<lparr>id_allocators := (id_allocators b)(type_id \<mapsto> allocator), builder_plic := p\<rparr>)) })"

definition add_uart ::
  "'q \<Rightarrow> 'o \<Rightarrow> ('b, 'q, 'o, 'ch, 'f) RVBoardBuilder \<Rightarrow> ('b, 'q, 'o, 'ch, 'f) RVBoardBuilder option" where
  "add_uart rx tx = add_plic_device TypeUart (DevUart (from_channel rx tx)) UART_BASE UART_SIZE UART_IRQ"

text \<open>
  A backing file is its size in bytes, its task channel and its state.  The features are the block size, bit 6, and
  flushing, bit 9.
\<close>

definition add_virtio_device ::
  "u64 \<times> 'ch \<times> 'f \<Rightarrow> ('b, 'q, 'o, 'ch, 'f) RVBoardBuilder \<Rightarrow> ('b, 'q, 'o, 'ch, 'f) RVBoardBuilder option" where
  "add_virtio_device = (\<lambda>(sz, ch, f) b.
     if sz mod 512 \<noteq> 0 then None
     else
       let d = VirtIOBlkDevice_new (sz div 512) ch f; d = d\<lparr>host_feature := host_feature d OR push_bit 6 1 OR push_bit 9 1\<rparr> in
       add_plic_device TypeVirtio (DevVirtio (VirtIOMMIO_new d)) VIRTIO_MMIO_BASE VIRTIO_MMIO_SIZE VIRTIO_IRQ_BASE b)"

fun add_virtio_devices ::
  "(u64 \<times> 'ch \<times> 'f) list \<Rightarrow> ('b, 'q, 'o, 'ch, 'f) RVBoardBuilder \<Rightarrow> ('b, 'q, 'o, 'ch, 'f) RVBoardBuilder option" where
  "add_virtio_devices [] b = Some b"
| "add_virtio_devices (config # configs) b = do { b \<leftarrow> add_virtio_device config b; add_virtio_devices configs b }"

datatype BoardStatus = Running | Halt

record ('b, 'q, 'o, 'ch, 'f, 'x) VirtBoard =
  cpu :: "(('b, 'q, 'o, 'ch, 'f) VirtDevice, 'x) RVCPU"
  clint :: ErasedDeviceHandle
  plic :: ErasedDeviceHandle
  status :: BoardStatus

text \<open>
  A call on the devices from outside of the hart: the interrupt lines that are driven reach the processor at
  once.
\<close>

definition on_devices ::
  "(('b, 'q, 'o, 'ch, 'f) VirtDevice list \<Rightarrow> Ram \<Rightarrow> (('b, 'q, 'o, 'ch, 'f) VirtDevice list \<times> irq_event list) option)
    \<Rightarrow> (('b, 'q, 'o, 'ch, 'f) VirtDevice, 'x) RVCPU \<Rightarrow> (('b, 'q, 'o, 'ch, 'f) VirtDevice, 'x) RVCPU option" where
  "on_devices f c =
     (let vm = memory c; io = mmio vm in
      do { arena \<leftarrow> devices io;
           (ds, evs) \<leftarrow> f (arena_devices arena) (ram io);
           apply_irqs evs (c\<lparr>memory := vm\<lparr>mmio := io\<lparr>devices := Some (arena\<lparr>arena_devices := ds\<rparr>)\<rparr>\<rparr>\<rparr>) })"

definition on_clint ::
  "ErasedDeviceHandle \<Rightarrow> (Clint \<Rightarrow> Clint \<times> irq_event list) \<Rightarrow> ('b, 'q, 'o, 'ch, 'f) VirtDevice list \<Rightarrow> Ram
    \<Rightarrow> (('b, 'q, 'o, 'ch, 'f) VirtDevice list \<times> irq_event list) option" where
  "on_clint h f ds r =
     (case nth_opt ds h of
        Some (DevClint c) \<Rightarrow> (case f c of (c, evs) \<Rightarrow> Some (ds[h := DevClint c], evs))
      | _ \<Rightarrow> None)"

definition on_plic ::
  "ErasedDeviceHandle \<Rightarrow> ('b PLIC \<times> ('b, 'q, 'o, 'ch, 'f) VirtDevice list \<Rightarrow> Ram
      \<Rightarrow> ('b PLIC \<times> ('b, 'q, 'o, 'ch, 'f) VirtDevice list \<times> irq_event list) option)
    \<Rightarrow> ('b, 'q, 'o, 'ch, 'f) VirtDevice list \<Rightarrow> Ram \<Rightarrow> (('b, 'q, 'o, 'ch, 'f) VirtDevice list \<times> irq_event list) option" where
  "on_plic h f ds r =
     (case nth_opt ds h of
        Some (DevPlic p) \<Rightarrow> do { (p, ds, evs) \<leftarrow> f (p, ds) r; Some (ds[h := DevPlic p], evs) }
      | _ \<Rightarrow> None)"

definition set_plic_line ::
  "('b, 'q, 'o, 'ch, 'f) board_host \<Rightarrow> ErasedDeviceHandle \<Rightarrow> Interrupt \<Rightarrow> nat
    \<Rightarrow> (('b, 'q, 'o, 'ch, 'f) VirtDevice, 'x) RVCPU \<Rightarrow> (('b, 'q, 'o, 'ch, 'f) VirtDevice, 'x) RVCPU option" where
  "set_plic_line host h line context_id =
     on_devices (on_plic h (\<lambda>(p, ds) r. do { (p, evs) \<leftarrow> PLIC_set_irq_line (host_bits host) line context_id p; Some (p, ds, evs) }))"

definition register_rv_interrupt ::
  "('b, 'q, 'o, 'ch, 'f) board_host \<Rightarrow> ErasedDeviceHandle \<Rightarrow> ErasedDeviceHandle \<Rightarrow> u64
    \<Rightarrow> (('b, 'q, 'o, 'ch, 'f) VirtDevice, 'x) RVCPU \<Rightarrow> (('b, 'q, 'o, 'ch, 'f) VirtDevice, 'x) RVCPU option" where
  "register_rv_interrupt host clint_h plic_h clint_base c =
     do { c \<leftarrow> on_devices (on_clint clint_h (\<lambda>cl. (Clint_set_irq_line MachineTimer 0 cl, []))) c;
          c \<leftarrow> on_devices (on_clint clint_h (\<lambda>cl. (Clint_set_irq_line MachineSoft 1 cl, []))) c;
          let c = c\<lparr>time_addr := Some (clint_base + MTIME_OFFSET)\<rparr> in
          do { c \<leftarrow> set_plic_line host plic_h MachineExternal 0 c;
               set_plic_line host plic_h SupervisorExternal 1 c } }"

fun write_regs :: "(u8 \<times> u64) list \<Rightarrow> ('d, 'x) RVCPU \<Rightarrow> ('d, 'x) RVCPU option" where
  "write_regs [] c = Some c"
| "write_regs ((i, v) # rs) c = do { (_, c) \<leftarrow> write_reg i v c; write_regs rs c }"

definition build ::
  "('b, 'q, 'o, 'ch, 'f) board_host \<Rightarrow> u64 \<Rightarrow> 'x \<Rightarrow> ('b, 'q, 'o, 'ch, 'f) RVBoardBuilder
    \<Rightarrow> ('b, 'q, 'o, 'ch, 'f, 'x) VirtBoard option" where
  "build host extensions units b =
     do { (clint_base, clint_size) \<leftarrow> clint_mmio b;
          (plic_base, plic_size) \<leftarrow> plic_mmio b;
          let clint_h = length (arena_builder b);
              plic_h = length (arena_builder b) + 1;
              ds = arena_builder b @ [DevClint (Clint_new 1 0 MTIME_OFFSET MTIMECMP_OFFSET 0 Timer_new), DevPlic (builder_plic b)];
              items = mmio_items b @ [\<lparr>item_start = clint_base, item_size = clint_size, item_device = clint_h\<rparr>,
                                      \<lparr>item_start = plic_base, item_size = plic_size, item_device = plic_h\<rparr>];
              io = from_mmio_items (ram_ref b) \<lparr>arena_devices = ds\<rparr> items in
          do { c \<leftarrow> from_decoder extensions units (from_ram_and_mmio io);
               c \<leftarrow> write_regs (initial_registers b) c;
               c \<leftarrow> register_rv_interrupt host clint_h plic_h clint_base c;
               Some \<lparr>cpu = c, clint = clint_h, plic = plic_h, status = Running\<rparr> } }"

datatype board_error = ImageBelowRam u64 | ImageFailed u64 RamImageError

fun load_images :: "(u64 \<times> u8 list) list \<Rightarrow> Ram \<Rightarrow> (Ram, board_error) result" where
  "load_images [] r = Ok r"
| "load_images ((address, bytes) # images) r =
     (if \<not> BASE_ADDR \<le> address then Err (ImageBelowRam address)
      else
        case try_insert_section bytes (address - BASE_ADDR) r of
          (Err e, _) \<Rightarrow> Err (ImageFailed address e)
        | (Ok _, r) \<Rightarrow> load_images images r)"

record ('q, 'o, 'ch, 'f) VirtBoardConfig =
  virtio_devices :: "(u64 \<times> 'ch \<times> 'f) list"
  memory_images :: "(u64 \<times> u8 list) list"
  config_registers :: "(u8 \<times> u64) list"
  uart_ends :: "'q \<times> 'o"

definition from_ram_with ::
  "('b, 'q, 'o, 'ch, 'f) board_host \<Rightarrow> u64 \<Rightarrow> 'x \<Rightarrow> Ram \<Rightarrow> ('q, 'o, 'ch, 'f) VirtBoardConfig
    \<Rightarrow> (('b, 'q, 'o, 'ch, 'f, 'x) VirtBoard, board_error) result option" where
  "from_ram_with host extensions units r config =
     (case load_images (memory_images config) r of
        Err e \<Rightarrow> Some (Err e)
      | Ok r \<Rightarrow>
          let b = RVBoardBuilder_new host r;
              b = b\<lparr>initial_registers := config_registers config\<rparr>;
              b = add_plain_mmio_device (DevPower PowerManager_new) POWER_MANAGER_BASE 0x1000 b;
              b = b\<lparr>clint_mmio := Some (CLINT_BASE, 0x10000), plic_mmio := Some (PLIC_BASE, 0x4000000)\<rparr> in
          do { b \<leftarrow> add_uart (fst (uart_ends config)) (snd (uart_ends config)) b;
               b \<leftarrow> add_virtio_devices (virtio_devices config) b;
               board \<leftarrow> build host extensions units b;
               Some (Ok board) })"

section \<open>Running a board\<close>

definition prepare_cpu_batch ::
  "('b, 'q, 'o, 'ch, 'f) board_host \<Rightarrow> ('b, 'q, 'o, 'ch, 'f, 'x) VirtBoard \<Rightarrow> ('b, 'q, 'o, 'ch, 'f, 'x) VirtBoard option" where
  "prepare_cpu_batch host b =
     do { c \<leftarrow> on_devices (on_clint (clint b) (\<lambda>cl.
                 case Timer_tick (clock_now (clock_cycles cl)) (timer cl) of (evs, t) \<Rightarrow> (cl\<lparr>timer := t\<rparr>, evs))) (cpu b);
          c \<leftarrow> on_devices (on_plic (plic b) (\<lambda>s r.
                 update_context_irq_lines (host_bits host) (device_irq_level host) r [0, 1] s)) c;
          Some (b\<lparr>cpu := c\<rparr>) }"

fun powered_off :: "('b, 'q, 'o, 'ch, 'f) VirtDevice \<Rightarrow> bool" where
  "powered_off (DevPower p) = (power_status p = POWER_OFF_CODE)"
| "powered_off _ = False"

definition finish_cpu_batch ::
  "(('b, 'q, 'o, 'ch, 'f) VirtDevice, 'x) hart_env \<Rightarrow> u64 \<Rightarrow> ('b, 'q, 'o, 'ch, 'f, 'x) VirtBoard
    \<Rightarrow> ('b, 'q, 'o, 'ch, 'f, 'x) VirtBoard option" where
  "finish_cpu_batch env cycles b =
     do { c \<leftarrow> on_devices (on_clint (clint b) (\<lambda>cl. (cl\<lparr>clock_cycles := clock_cycles cl + cycles\<rparr>, []))) (cpu b);
          arena \<leftarrow> devices (mmio (memory c));
          if \<exists>d \<in> set (arena_devices arena). powered_off d
          then do { c \<leftarrow> power_off (env_ops env) c; Some (b\<lparr>cpu := c, status := Halt\<rparr>) }
          else Some (b\<lparr>cpu := c\<rparr>) }"

definition execute_cpu_batch ::
  "(('b, 'q, 'o, 'ch, 'f) VirtDevice, 'x) hart_env \<Rightarrow> ('b, 'q, 'o, 'ch, 'f) board_host
    \<Rightarrow> ((('b, 'q, 'o, 'ch, 'f) VirtDevice, 'x) RVCPU \<Rightarrow> (BatchResult \<times> (('b, 'q, 'o, 'ch, 'f) VirtDevice, 'x) RVCPU) option)
    \<Rightarrow> ('b, 'q, 'o, 'ch, 'f, 'x) VirtBoard \<Rightarrow> (BatchResult \<times> ('b, 'q, 'o, 'ch, 'f, 'x) VirtBoard) option" where
  "execute_cpu_batch env host exec b =
     (if status b \<noteq> Running then Some (\<lparr>batch_cycles = 0, hook_stopped = False\<rparr>, b)
      else
        do { b \<leftarrow> prepare_cpu_batch host b;
             (result, c) \<leftarrow> exec (cpu b);
             b \<leftarrow> finish_cpu_batch env (batch_cycles result) (b\<lparr>cpu := c\<rparr>);
             Some (result, b) })"

definition board_step_batch ::
  "(('b, 'q, 'o, 'ch, 'f) VirtDevice, 'x) hart_env \<Rightarrow> ('b, 'q, 'o, 'ch, 'f) board_host \<Rightarrow> u64
    \<Rightarrow> ('b, 'q, 'o, 'ch, 'f, 'x) VirtBoard \<Rightarrow> (BatchResult \<times> ('b, 'q, 'o, 'ch, 'f, 'x) VirtBoard) option" where
  "board_step_batch env host cycles =
     execute_cpu_batch env host (\<lambda>c. do { c \<leftarrow> step_batch env cycles c; Some (\<lparr>batch_cycles = cycles, hook_stopped = False\<rparr>, c) })"

text \<open>\<open>run_cycles_with\<close>: the loop may run forever when a batch executes no cycle.\<close>

abbreviation (input) STEP_BATCH_CYCLES :: u64 where "STEP_BATCH_CYCLES \<equiv> 1024"

partial_function (option) run_loop ::
  "(u64 \<Rightarrow> ('b, 'q, 'o, 'ch, 'f, 'x) VirtBoard \<Rightarrow> (BatchResult \<times> ('b, 'q, 'o, 'ch, 'f, 'x) VirtBoard) option)
    \<Rightarrow> u64 \<Rightarrow> u64 \<Rightarrow> ('b, 'q, 'o, 'ch, 'f, 'x) VirtBoard \<Rightarrow> (BatchResult \<times> ('b, 'q, 'o, 'ch, 'f, 'x) VirtBoard) option" where
  "run_loop step_fn cycles executed b =
     (if executed < cycles \<and> status b = Running then
        Option.bind (step_fn (min (cycles - executed) STEP_BATCH_CYCLES) b) (\<lambda>(result, b).
          if hook_stopped result
          then Some (\<lparr>batch_cycles = executed + batch_cycles result, hook_stopped = True\<rparr>, b)
          else run_loop step_fn cycles (executed + batch_cycles result) b)
      else Some (\<lparr>batch_cycles = executed, hook_stopped = False\<rparr>, b))"

definition run_cycles_with ::
  "u64 \<Rightarrow> (u64 \<Rightarrow> ('b, 'q, 'o, 'ch, 'f, 'x) VirtBoard \<Rightarrow> (BatchResult \<times> ('b, 'q, 'o, 'ch, 'f, 'x) VirtBoard) option)
    \<Rightarrow> ('b, 'q, 'o, 'ch, 'f, 'x) VirtBoard \<Rightarrow> (BatchResult \<times> ('b, 'q, 'o, 'ch, 'f, 'x) VirtBoard) option" where
  "run_cycles_with cycles step_fn b = run_loop step_fn cycles 0 b"

definition run_cycles ::
  "(('b, 'q, 'o, 'ch, 'f) VirtDevice, 'x) hart_env \<Rightarrow> ('b, 'q, 'o, 'ch, 'f) board_host \<Rightarrow> u64
    \<Rightarrow> ('b, 'q, 'o, 'ch, 'f, 'x) VirtBoard \<Rightarrow> (u64 \<times> ('b, 'q, 'o, 'ch, 'f, 'x) VirtBoard) option" where
  "run_cycles env host cycles b =
     map_option (\<lambda>(result, b). (batch_cycles result, b)) (run_cycles_with cycles (board_step_batch env host) b)"

definition board_step ::
  "(('b, 'q, 'o, 'ch, 'f) VirtDevice, 'x) hart_env \<Rightarrow> ('b, 'q, 'o, 'ch, 'f) board_host
    \<Rightarrow> ('b, 'q, 'o, 'ch, 'f, 'x) VirtBoard \<Rightarrow> ('b, 'q, 'o, 'ch, 'f, 'x) VirtBoard option" where
  "board_step env host b = map_option snd (run_cycles env host 1 b)"

definition board_run ::
  "(('b, 'q, 'o, 'ch, 'f) VirtDevice, 'x) hart_env \<Rightarrow> ('b, 'q, 'o, 'ch, 'f) board_host
    \<Rightarrow> ('b, 'q, 'o, 'ch, 'f, 'x) VirtBoard \<Rightarrow> ('b, 'q, 'o, 'ch, 'f, 'x) VirtBoard option" where
  "board_run env host b = map_option snd (run_cycles env host (- 1) b)"

end
