(* ===== verification/BoardSpec.thy ===== *)
theory BoardSpec
  imports Board
begin

unbundle bit_operations_syntax

text \<open>
  The invariant of the devices of a board, \<open>devices_ok\<close>: they are well formed and wired together, and every access
  of the guest to one of them keeps it.
\<close>

section \<open>The devices\<close>

datatype device_kind = KPower | KClint | KPlic | KUart | KVirtio

fun kind :: "('b, 'q, 'o, 'ch, 'f) VirtDevice \<Rightarrow> device_kind" where
  "kind (DevPower _) = KPower"
| "kind (DevClint _) = KClint"
| "kind (DevPlic _) = KPlic"
| "kind (DevUart _) = KUart"
| "kind (DevVirtio _) = KVirtio"

definition avail_ok :: "VirtQueue \<Rightarrow> bool" where
  "avail_ok q \<longleftrightarrow> (\<forall>a. avail_ptr q = Some a \<longrightarrow> a + 4 \<le> SIZE)"

text \<open>The sources are devices that can be asked for their level, and two contexts have a line.\<close>

definition plic_wired :: "device_kind list \<Rightarrow> 'b PLIC \<Rightarrow> bool" where
  "plic_wired K p \<longleftrightarrow>
     (\<forall>h. Some h \<in> set (peripheral_irq_devices p) \<longrightarrow> h < length K \<and> K ! h \<in> {KUart, KVirtio})
     \<and> riscv_irq_line p = [Some MachineExternal, Some SupervisorExternal] @ replicate 14 None"

definition clint_local :: "u64 \<Rightarrow> Clint \<Rightarrow> bool" where
  "clint_local C c \<longleftrightarrow> clint_ok c MachineTimer \<and> software_irq_line c = Some MachineSoft \<and> clock_cycles c = C"

fun local_ok :: "('b, 'q, 'o, 'ch, 'f) board_host \<Rightarrow> u64 \<Rightarrow> device_kind list \<Rightarrow> ('b, 'q, 'o, 'ch, 'f) VirtDevice \<Rightarrow> bool" where
  "local_ok host C K (DevClint c) = clint_local C c"
| "local_ok host C K (DevPlic p) = (plic_wf (host_bits host) p \<and> plic_wired K p)"
| "local_ok host C K (DevVirtio m) = avail_ok (blk_queue (vdev m))"
| "local_ok host C K _ = True"

definition devices_ok ::
  "('b, 'q, 'o, 'ch, 'f) board_host \<Rightarrow> device_kind list \<Rightarrow> u64 \<Rightarrow> ('b, 'q, 'o, 'ch, 'f) VirtDevice list \<Rightarrow> bool" where
  "devices_ok host K C ds \<longleftrightarrow> map kind ds = K \<and> (\<forall>d \<in> set ds. local_ok host C K d)"

lemma devices_okD:
  assumes "devices_ok host K C ds" "nth_opt ds h = Some d"
  shows "local_ok host C K d" "h < length ds" "ds ! h = d" "K ! h = kind d" "length K = length ds"
  using assms by (auto simp: devices_ok_def nth_opt_Some)

lemma devices_ok_update:
  assumes "devices_ok host K C ds" "nth_opt ds h = Some d" "kind d' = kind d" "local_ok host C K d'"
  shows "devices_ok host K C (ds[h := d'])"
proof -
  have "map kind (ds[h := d']) = map kind ds"
    using devices_okD(2,3) [OF assms(1,2)] assms(3) by (metis list_update_id map_update)
  then show ?thesis using assms(1,4) set_update_subset_insert [of ds h d'] by (fastforce simp: devices_ok_def)
qed

subsection \<open>Polling\<close>

lemma device_irq_level_ok:
  assumes "devices_ok host K C ds" "h < length K" "K ! h \<in> {KUart, KVirtio}"
  shows "\<exists>b ds'. device_irq_level host h ds r = Some (b, ds') \<and> devices_ok host K C ds'"
proof -
  have h: "nth_opt ds h = Some (ds ! h)" "kind (ds ! h) = K ! h" using assms(1,2) by (auto simp: devices_ok_def nth_opt_Some)
  consider (uart) u where "ds ! h = DevUart u" | (virtio) m where "ds ! h = DevVirtio m"
    using assms(3) h(2) by (cases "ds ! h") auto
  then show ?thesis
  proof cases
    case (uart u)
    then show ?thesis using devices_ok_update [OF assms(1) h(1)] h(1) by (auto simp: device_irq_level_def split: prod.split)
  next
    case (virtio m)
    then have "avail_ok (blk_queue (vdev m))" using devices_okD(1) [OF assms(1) h(1)] by simp
    then have "\<exists>b. interrupts_enabled r (blk_queue (vdev m)) = Some b"
    proof (cases "avail_ptr (blk_queue (vdev m))")
      case (Some a)
      then obtain v :: u16 where "peek r a = Some v"
        using \<open>avail_ok _\<close> peek_Some [where 'a = 16 and r = r and off = a] by (auto simp: avail_ok_def size_of_def)
      then show ?thesis using Some by (simp add: interrupts_enabled_def)
    qed (auto simp: interrupts_enabled_def)
    then show ?thesis using virtio h(1) assms(1) by (cases "isr (vdev m) = 0") (auto simp: device_irq_level_def blk_irq_level_def)
  qed
qed

lemma sync_ok:
  assumes "devices_ok host K C ds" "plic_wf (host_bits host) p" "plic_wired K p"
  shows "\<exists>p' ds'. sync_peripheral_irq_levels (host_bits host) (device_irq_level host) r (p, ds) = Some (p', ds')
     \<and> devices_ok host K C ds' \<and> plic_wf (host_bits host) p' \<and> plic_wired K p'"
proof -
  have "0 + length (peripheral_irq_devices p) \<le> VIRT_MAX_INTERRUPTS" "layout_wf (host_bits host) (layout p)"
    using assms(2) by (simp_all add: plic_wf_def)
  then have "\<exists>l' ds'. sync_levels (host_bits host) (device_irq_level host) r 0 (peripheral_irq_devices p) (layout p, ds) = Some (l', ds')
      \<and> layout_wf (host_bits host) l' \<and> devices_ok host K C ds'"
    using assms(1,3) by (intro sync_levels_spec) (simp_all add: plic_wired_def device_irq_level_ok)
  then show ?thesis using assms(2,3) by (auto simp: sync_peripheral_irq_levels_def plic_wf_def plic_wired_def)
qed

lemma plic_layout_ok:
  assumes "plic_wf bs p" "plic_wired K p" "layout_wf bs l"
  shows "plic_wf bs (p\<lparr>layout := l\<rparr>)" "plic_wired K (p\<lparr>layout := l\<rparr>)"
  using assms by (simp_all add: plic_wf_def plic_wired_def)

subsection \<open>Register accesses\<close>

text \<open>A claim or completion first samples the levels.\<close>

lemma claim_sync_ok:
  assumes "devices_ok host K C ds" "plic_wf (host_bits host) p" "plic_wired K p"
    and "(if claim then sync_peripheral_irq_levels (host_bits host) (device_irq_level host) r (p, ds) else Some (p, ds)) = Some (p', ds')"
  shows "devices_ok host K C ds' \<and> plic_wf (host_bits host) p' \<and> plic_wired K p'"
proof (cases claim)
  case True
  then show ?thesis using sync_ok [OF assms(1-3), of r] assms(4) by (elim exE conjE) simp
qed (use assms in simp)

lemma plic_read_ok:
  assumes "devices_ok host K C ds" "plic_wf (host_bits host) p" "plic_wired K p"
    and rd: "PLIC_read_impl (host_bits host) (device_irq_level host) r len a (p, ds) = Some (v, p', ds')"
  shows "devices_ok host K C ds' \<and> plic_wf (host_bits host) p' \<and> plic_wired K p'"
proof (cases "len = 4 \<and> decode_register a \<noteq> None")
  case True
  then obtain reg p2 ds2 w l where e: "decode_register a = Some reg"
      "(if is_claim reg then sync_peripheral_irq_levels (host_bits host) (device_irq_level host) r (p, ds) else Some (p, ds)) = Some (p2, ds2)"
      "read_register (host_bits host) reg (layout p2) = Some (w, l)" "p' = p2\<lparr>layout := l\<rparr>" "ds' = ds2"
    using rd by (auto simp: PLIC_read_impl_def bind_eq_Some_conv)
  note ok = claim_sync_ok [OF assms(1-3) e(2)]
  have wf: "layout_wf (host_bits host) (layout p2)" using ok by (simp add: plic_wf_def)
  obtain v' l' where "read_register (host_bits host) reg (layout p2) = Some (v', l')" "layout_wf (host_bits host) l'"
    using read_register_spec [OF wf e(1)] by blast
  then have "layout_wf (host_bits host) l" using e(3) by simp
  then show ?thesis using ok plic_layout_ok [of "host_bits host" p2 K l] e(4,5) by simp
next
  case False
  then have "p' = p \<and> ds' = ds" using rd by (auto simp: PLIC_read_impl_def split: if_splits)
  then show ?thesis using assms(1-3) by simp
qed

lemma plic_write_ok:
  assumes "devices_ok host K C ds" "plic_wf (host_bits host) p" "plic_wired K p"
    and wr: "PLIC_write_impl (host_bits host) (device_irq_level host) r len a w (p, ds) = Some (res, p', ds')"
  shows "devices_ok host K C ds' \<and> plic_wf (host_bits host) p' \<and> plic_wired K p'"
proof (cases "len = 4 \<and> decode_register a \<noteq> None \<and> (\<forall>n. decode_register a \<noteq> Some (PlicPending n))")
  case True
  then obtain reg where reg: "decode_register a = Some reg" "\<forall>n. reg \<noteq> PlicPending n" by auto
  then obtain p2 ds2 l where e:
      "(if is_claim reg then sync_peripheral_irq_levels (host_bits host) (device_irq_level host) r (p, ds) else Some (p, ds)) = Some (p2, ds2)"
      "write_register (host_bits host) reg w (layout p2) = Some l" "p' = p2\<lparr>layout := l\<rparr>" "ds' = ds2"
    using wr True by (cases reg) (auto simp: PLIC_write_impl_def bind_eq_Some_conv)
  note ok = claim_sync_ok [OF assms(1-3) e(1)]
  have wf: "layout_wf (host_bits host) (layout p2)" using ok by (simp add: plic_wf_def)
  obtain l' where "write_register (host_bits host) reg w (layout p2) = Some l'" "layout_wf (host_bits host) l'"
    using write_register_spec [OF wf reg(1), of w] by blast
  then have "layout_wf (host_bits host) l" using e(2) by simp
  then show ?thesis using ok plic_layout_ok [of "host_bits host" p2 K l] e(3,4) by simp
next
  case False
  then have "p' = p \<and> ds' = ds" using wr by (auto simp: PLIC_write_impl_def split: if_splits)
  then show ?thesis using assms(1-3) by simp
qed

lemma update_timer_local:
  assumes "clint_local C c" "update_timer i c = Some (c', evs)"
  shows "clint_local C c'"
proof -
  have "i = 0" using assms by (auto simp: clint_local_def clint_ok_def update_timer_def bind_eq_Some_conv nth_opt_Some)
  moreover have "software_irq_line c' = software_irq_line c"
    using assms(2) by (auto simp: update_timer_def bind_eq_Some_conv split: if_splits)
  ultimately show ?thesis using assms update_timer_spec [of c MachineTimer] by (auto simp: clint_local_def)
qed

lemma update_timers_local:
  "clint_local C c \<Longrightarrow> update_timers is c = Some (c', evs) \<Longrightarrow> clint_local C c'"
proof (induction "is" arbitrary: c evs)
  case (Cons i "is")
  then obtain c1 e1 e2 where "update_timer i c = Some (c1, e1)" "update_timers is c1 = Some (c', e2)"
    by (auto simp: bind_eq_Some_conv)
  then show ?case using Cons.IH update_timer_local [OF Cons.prems(1)] by blast
qed simp

lemma clint_write_ok:
  assumes "clint_local C c" "Clint_write addr len v c = Some (res, c', evs)"
  shows "clint_local C c'"
proof -
  have ok: "clint_local C (c\<lparr>time_cmp := (time_cmp c)[i := w]\<rparr>)" "clint_local C (c\<lparr>msip := (msip c)[i := m]\<rparr>)"
    "clint_local C (c\<lparr>time_offset := w\<rparr>)" for i w m
    using assms(1) by (auto simp: clint_local_def clint_ok_def)
  have "Clint_write_impl len addr (take_bit (8 * len) v) c = Some (res, c', evs)"
    using assms(2) by (auto simp: Clint_write_def split: if_splits)
  then show ?thesis
    using assms(1) unfolding Clint_write_impl_def Let_def
    by (simp only: bind_eq_Some_conv split: if_splits)
      (clarsimp simp: ok, (erule update_timer_local [OF ok(1)] update_timers_local [OF ok(3)])?)+
qed

lemma take_one_request_avail:
  assumes "take_one_request func r q st = Some (c, q', st')"
  shows "avail_ptr q' = avail_ptr q"
  using assms by (auto simp: take_one_request_def try_get_desc_def bind_eq_Some_conv split: if_splits option.splits)

lemma blk_manage_one_request_avail:
  assumes "blk_manage_one_request host (d, r) = Some (again, d', r')"
  shows "avail_ptr (blk_queue d') = avail_ptr (blk_queue d)"
proof (cases "ch_reserve host (blk_channel d)")
  case True
  then obtain c q st where t: "take_one_request (collect_request r) r (blk_queue d) (ReqUnsupported, 0, [], None) = Some (c, q, st)"
    using assms by (auto simp: blk_manage_one_request_def bind_eq_Some_conv)
  have "blk_queue d' = q"
    using assms True t
    by (cases st) (auto simp: blk_manage_one_request_def bind_eq_Some_conv Let_def split: option.splits)
  then show ?thesis using take_one_request_avail [OF t] by simp
qed (use assms in \<open>auto simp: blk_manage_one_request_def\<close>)

lemma blk_notify_avail:
  fixes host :: "('ch, 'f) blk_host"
  assumes "blk_notify host s = Some s'"
  shows "avail_ptr (blk_queue (fst s')) = avail_ptr (blk_queue (fst s))"
proof -
  let ?P = "\<lambda>(_ :: ('ch, 'f) blk_host) s s'. avail_ptr (blk_queue (fst s')) = avail_ptr (blk_queue (fst s))"
  show "?P host s s'"
  proof (rule blk_notify.raw_induct [where P = ?P, OF _ assms(1)])
    fix rec and host :: "('ch, 'f) blk_host" and s s'
    assume ih: "\<And>host s s'. rec host s = Some s' \<Longrightarrow> ?P host s s'"
      and body: "Option.bind (blk_manage_one_request host s) (\<lambda>(again, s'). if again then rec host s' else Some s') = Some s'"
    obtain again d' r' where step: "blk_manage_one_request host (fst s, snd s) = Some (again, d', r')"
      using body by (cases "blk_manage_one_request host s") auto
    show "?P host s s'"
      using body step blk_manage_one_request_avail [OF step] ih [of host "(d', r')" s'] by (auto split: if_splits)
  qed
qed

lemma guest_ram_ptr_bound: "guest_ram_ptr p len align = Some a \<Longrightarrow> a + len \<le> SIZE"
  by (auto simp: guest_ram_ptr_def Let_def split: if_splits)

lemma configured_avail: "avail_ok (VirtQueue_set_used u (VirtQueue_set_avail a q))"
proof -
  have "x + 4 \<le> SIZE" if "guest_ram_ptr a (4 + unat (queue_num q) * 2) 2 = Some x" for x
    using guest_ram_ptr_bound [OF that] by simp
  then show ?thesis by (simp add: avail_ok_def VirtQueue_set_used_def VirtQueue_set_avail_def)
qed

lemma virtio_steps_avail:
  assumes "avail_ok (blk_queue (vdev m))"
  shows "avail_ok (blk_queue (vdev (on_selected f m)))"
    and "avail_ok (blk_queue (vdev (write_queue_num v m)))"
    and "avail_ok (blk_queue (vdev (write_queue_ready v m)))"
    and "mmio_reset host (m, r) = Some (m', r') \<Longrightarrow> avail_ok (blk_queue (vdev m'))"
    and "write_status host v (m, r) = Some (m', r') \<Longrightarrow> avail_ok (blk_queue (vdev m'))"
proof -
  show sel: "avail_ok (blk_queue (vdev (on_selected f m)))" using assms by (simp add: on_selected_def)
  show "avail_ok (blk_queue (vdev (write_queue_num v m)))"
    using assms by (simp add: write_queue_num_def on_selected_def on_device_def VirtQueue_set_queue_num_def avail_ok_def)
  show "avail_ok (blk_queue (vdev (write_queue_ready v m)))"
    using assms configured_avail by (simp add: write_queue_ready_def on_selected_def on_device_def Let_def)
  show reset: "avail_ok (blk_queue (vdev m'))" if "mmio_reset host (m, r) = Some (m', r')"
    using that by (auto simp: mmio_reset_def blk_reset_def bind_eq_Some_conv VirtIOMMIO_new_def VirtQueue_reset_def VirtQueue_new_def avail_ok_def)
  show "avail_ok (blk_queue (vdev m'))" if "write_status host v (m, r) = Some (m', r')"
    using that assms reset by (auto simp: write_status_def on_device_def Let_def split: if_splits)
qed

lemma virtio_write_avail:
  assumes "avail_ok (blk_queue (vdev m))" "VirtIOMMIO_write host addr len v (m, r) = Some (res, m', r')"
  shows "avail_ok (blk_queue (vdev m'))"
proof -
  have dev: "avail_ok (blk_queue (vdev (on_device f m)))" if "\<And>d. blk_queue (f d) = blk_queue d" for f
    using assms(1) that by (simp add: on_device_def)
  have "avail_ok (blk_queue (vdev m1))" if "write_u32_impl host addr (ucast v) (m, r) = Some (m1, r1)" for m1 r1
  proof (cases "map_of Offset_table addr")
    case None
    then show ?thesis using that assms(1) dev by (auto simp: write_u32_impl_def split: if_splits)
  next
    case (Some t)
    have notify: "avail_ok (blk_queue d)" if "blk_notify host (vdev m, r) = Some (d, r')" for d r'
      using assms(1) blk_notify_avail [OF that] by (simp add: avail_ok_def)
    show ?thesis using that Some
      by (cases t) (use assms(1) dev virtio_steps_avail in \<open>auto simp: write_u32_impl_def bind_eq_Some_conv notify split: if_splits\<close>)
  qed
  then show ?thesis using assms dev by (auto simp: VirtIOMMIO_write_def bind_eq_Some_conv split: if_splits)
qed

end
