(* ===== verification/BoardRun.thy ===== *)
theory BoardRun
  imports BoardSpec
begin

unbundle bit_operations_syntax

text \<open>
  The board as a whole: the devices discharge the contract of the hart, so the board keeps its invariant; a batch can
  always be prepared and delivers the interrupts that are due; running for a number of cycles runs that number, unless
  the guest powers the board off or a batch of the hart panics.
\<close>

section \<open>The devices keep their contract\<close>

lemma device_read_ok:
  assumes ok: "devices_ok host K C ds" and rd: "device_read host h ds r a n = Some (res, ds', r', evs)"
  shows "devices_ok host K C ds'"
proof -
  obtain d where d: "nth_opt ds h = Some d" using rd by (auto simp: device_read_def bind_eq_Some_conv)
  note loc = devices_okD [OF ok d] and upd = devices_ok_update [OF ok d]
  show ?thesis
  proof (cases d)
    case (DevPlic p)
    then obtain v p' ds1 where e: "PLIC_read_impl (host_bits host) (device_irq_level host) r n a (p, ds) = Some (v, p', ds1)"
        "ds' = ds1[h := DevPlic p']"
      using rd d by (auto simp: device_read_def bind_eq_Some_conv)
    then have ok1: "devices_ok host K C ds1" "plic_wf (host_bits host) p'" "plic_wired K p'"
      using plic_read_ok [OF ok _ _ e(1)] loc(1) DevPlic by auto
    have "h < length ds1" "kind (ds1 ! h) = KPlic"
      using ok1(1) ok loc(2,3) DevPlic by (auto simp: devices_ok_def) (metis kind.simps(3) length_map nth_map)+
    then show ?thesis using devices_ok_update [OF ok1(1), of h "ds1 ! h"] ok1(2,3) e(2) by (simp add: nth_opt_Some)
  next
    case (DevUart u)
    then show ?thesis using rd d upd by (auto simp: device_read_def bind_eq_Some_conv)
  qed (use rd d ok in \<open>auto simp: device_read_def bind_eq_Some_conv\<close>)
qed

lemma device_write_ok:
  assumes ok: "devices_ok host K C ds" and wr: "device_write host h ds r a n v = Some (res, ds', r', evs)"
  shows "devices_ok host K C ds'"
proof -
  obtain d where d: "nth_opt ds h = Some d" using wr by (auto simp: device_write_def bind_eq_Some_conv)
  note loc = devices_okD [OF ok d] and upd = devices_ok_update [OF ok d]
  show ?thesis
  proof (cases d)
    case (DevPlic p)
    then obtain v' p' ds1 where e: "PLIC_write_impl (host_bits host) (device_irq_level host) r n a (ucast v) (p, ds) = Some (v', p', ds1)"
        "ds' = ds1[h := DevPlic p']"
      using wr d by (auto simp: device_write_def bind_eq_Some_conv)
    then have ok1: "devices_ok host K C ds1" "plic_wf (host_bits host) p'" "plic_wired K p'"
      using plic_write_ok [OF ok _ _ e(1)] loc(1) DevPlic by auto
    have "h < length ds1" "kind (ds1 ! h) = KPlic"
      using ok1(1) ok loc(2,3) DevPlic by (auto simp: devices_ok_def) (metis kind.simps(3) length_map nth_map)+
    then show ?thesis using devices_ok_update [OF ok1(1), of h "ds1 ! h"] ok1(2,3) e(2) by (simp add: nth_opt_Some)
  next
    case (DevClint c)
    then show ?thesis using wr d upd loc(1) by (auto simp: device_write_def bind_eq_Some_conv dest: clint_write_ok)
  next
    case (DevVirtio m)
    then show ?thesis using wr d upd loc(1) by (auto simp: device_write_def bind_eq_Some_conv dest: virtio_write_avail)
  qed (use wr d upd in \<open>auto simp: device_write_def bind_eq_Some_conv\<close>)
qed

interpretation board_devices: device_contract "virt_device_ops host" "devices_ok host K C" for host K C
  by unfold_locales (auto simp: virt_device_ops_def dest: device_read_ok device_write_ok)

section \<open>Interrupt lines\<close>

text \<open>The lines that a device of the board drives, and the bit of \<open>mip\<close> behind each.\<close>

fun irq_bit :: "Interrupt \<Rightarrow> nat" where
  "irq_bit UserSoft = 0"
| "irq_bit SupervisorSoft = 1"
| "irq_bit MachineSoft = 3"
| "irq_bit UserTimer = 4"
| "irq_bit SupervisorTimer = 5"
| "irq_bit MachineTimer = 7"
| "irq_bit UserExternal = 8"
| "irq_bit SupervisorExternal = 9"
| "irq_bit MachineExternal = 11"
| "irq_bit UnknownInterrupt = 63"

abbreviation board_irqs :: "Interrupt set" where
  "board_irqs \<equiv> {MachineSoft, MachineTimer, SupervisorExternal, MachineExternal}"

definition mip_lines :: "('d, 'x) RVCPU \<Rightarrow> Interrupt \<Rightarrow> bool" where
  "mip_lines c nr = bit (csr_val (csr c) 0x344) (irq_bit nr)"

lemma field_put_bit: "bit (field_put low 1 (of_bool b) (w :: u64)) i = (if i = low then low < 64 \<and> b else bit w i)"
  by (cases "i < 64") (auto simp: field_put_def bit_simps bit_1_iff dest: bit_imp_le_length)

lemma irq_bit_inj: "irq_bit a = irq_bit b \<longleftrightarrow> a = b"
  by (cases a; cases b) simp_all

lemma handle_irq_spec:
  assumes "cpu_wf c" "nr \<in> board_irqs"
  shows "\<exists>c'. handle_irq nr level c = Some c' \<and> cpu_wf c' \<and> memory c' = memory c \<and> mip_lines c' = (mip_lines c)(nr := level)"
proof -
  have "csr_wf (csr c)" using assms(1) by (simp add: cpu_wf_def)
  then have "\<exists>c'. handle_irq nr level c = Some c'
      \<and> csr c' = csr_put 0x344 (field_put (irq_bit nr) 1 (of_bool level) (csr_val (csr c) 0x344)) (csr c)"
    using assms(2) by (auto simp: on_csr_def csr_simps mask_eq_exp_minus_1)
  then obtain c' where c': "handle_irq nr level c = Some c'"
      "csr c' = csr_put 0x344 (field_put (irq_bit nr) 1 (of_bool level) (csr_val (csr c) 0x344)) (csr c)" by blast
  have "mip_lines c' = (mip_lines c)(nr := level)"
  proof
    fix x
    have "irq_bit nr < 64" by (cases nr) simp_all
    then show "mip_lines c' x = ((mip_lines c)(nr := level)) x"
      by (simp add: mip_lines_def c'(2) csr_simps field_put_bit irq_bit_inj)
  qed
  moreover have "cpu_at (cpl (csr c)) c'"
    by (rule handle_irq_wf [OF _ c'(1)]) (use assms(1) in \<open>simp add: cpu_at_def\<close>)
  ultimately show ?thesis using c'(1) handle_irq_memory [OF c'(1)] by (auto simp: cpu_at_def)
qed

lemma drive_Cons: "drive ((nr, level) # evs) w = drive evs (w(nr := level))"
  by (simp add: drive_def)

lemma apply_irqs_spec:
  assumes "cpu_wf c" "\<forall>(nr, level) \<in> set evs. nr \<in> board_irqs"
  shows "\<exists>c'. apply_irqs evs c = Some c' \<and> cpu_wf c' \<and> memory c' = memory c \<and> mip_lines c' = drive evs (mip_lines c)"
  using assms
proof (induction evs arbitrary: c)
  case Nil
  then show ?case by (simp add: drive_def)
next
  case (Cons ev evs)
  obtain nr level where ev: "ev = (nr, level)" by (cases ev)
  then obtain c1 where c1: "handle_irq nr level c = Some c1" "cpu_wf c1" "memory c1 = memory c" "mip_lines c1 = (mip_lines c)(nr := level)"
    using handle_irq_spec [OF Cons.prems(1), of nr level] Cons.prems(2) by auto
  obtain c' where "apply_irqs evs c1 = Some c'" "cpu_wf c'" "memory c' = memory c1" "mip_lines c' = drive evs (mip_lines c1)"
    using Cons.IH [OF c1(2)] Cons.prems(2) by auto
  then show ?case using c1 by (simp add: ev drive_Cons)
qed

lemma drive_other: "nr \<notin> fst ` set evs \<Longrightarrow> drive evs w nr = w nr"
  by (induction evs arbitrary: w) (auto simp: drive_Cons drive_def [of "[]"])

section \<open>The invariant of a board\<close>

text \<open>The devices of the arena.\<close>

definition arena_of :: "('d, 'x) RVCPU \<Rightarrow> 'd list" where
  "arena_of c = (case devices (mmio (memory c)) of Some a \<Rightarrow> arena_devices a | None \<Rightarrow> [])"

definition board_inv ::
  "('b, 'q, 'o, 'ch, 'f) board_host \<Rightarrow> MemoryMapItem list \<Rightarrow> device_kind list \<Rightarrow> u64 \<Rightarrow> ('b, 'q, 'o, 'ch, 'f, 'x) VirtBoard \<Rightarrow> bool" where
  "board_inv host M K C b \<longleftrightarrow> cpu_wf (cpu b) \<and> hart_inv M (devices_ok host K C) (cpu b)
     \<and> clint b < length K \<and> K ! clint b = KClint \<and> (\<forall>h < length K. K ! h = KClint \<longrightarrow> h = clint b)
     \<and> plic b < length K \<and> K ! plic b = KPlic \<and> (\<forall>item \<in> set M. item_device item < length K)"

lemma hart_inv_arena: "hart_inv M D c \<Longrightarrow> D (arena_of c)"
  by (auto simp: hart_inv_def arena_inv_def arena_of_def)

lemma on_devices_spec:
  assumes "cpu_wf c" "hart_inv M D c" "f (arena_of c) (ram (mmio (memory c))) = Some (ds, evs)" "D' ds"
    and "\<forall>(nr, level) \<in> set evs. nr \<in> board_irqs"
  shows "\<exists>c'. on_devices f c = Some c' \<and> cpu_wf c' \<and> hart_inv M D' c' \<and> arena_of c' = ds
     \<and> ram (mmio (memory c')) = ram (mmio (memory c)) \<and> mip_lines c' = drive evs (mip_lines c)"
proof -
  obtain a where a: "devices (mmio (memory c)) = Some a" "mmio_map (mmio (memory c)) = M" "arena_of c = arena_devices a"
    using assms(2) by (auto simp: hart_inv_def arena_inv_def arena_of_def)
  let ?c = "c\<lparr>memory := (memory c)\<lparr>mmio := (mmio (memory c))\<lparr>devices := Some (a\<lparr>arena_devices := ds\<rparr>)\<rparr>\<rparr>\<rparr>"
  have "cpu_wf ?c" using assms(1) by (simp add: cpu_wf_def)
  from apply_irqs_spec [OF this assms(5)] obtain c' where c': "apply_irqs evs ?c = Some c'" "cpu_wf c'"
      "memory c' = memory ?c" "mip_lines c' = drive evs (mip_lines ?c)" by blast
  have "on_devices f c = Some c'" using assms(3) a(1,3) c'(1) by (simp add: on_devices_def Let_def)
  moreover have "hart_inv M D' c'" "arena_of c' = ds" "ram (mmio (memory c')) = ram (mmio (memory c))"
    using c'(3) a(2) assms(4) by (simp_all add: hart_inv_def arena_inv_def arena_of_def)
  moreover have "mip_lines ?c = mip_lines c" by (simp add: mip_lines_def fun_eq_iff)
  ultimately show ?thesis using c' by auto
qed

lemma board_clint:
  assumes "devices_ok host K C ds" "h < length K" "K ! h = KClint"
  obtains cl where "ds ! h = DevClint cl" "nth_opt ds h = Some (DevClint cl)" "clint_local C cl"
proof -
  have h: "nth_opt ds h = Some (ds ! h)" "kind (ds ! h) = KClint" using assms by (auto simp: devices_ok_def nth_opt_Some)
  then obtain cl where "ds ! h = DevClint cl" by (cases "ds ! h") auto
  then show thesis using that [of cl] h devices_okD(1) [OF assms(1) h(1)] by simp
qed

lemma board_plic:
  assumes "devices_ok host K C ds" "h < length K" "K ! h = KPlic"
  obtains p where "ds ! h = DevPlic p" "nth_opt ds h = Some (DevPlic p)" "plic_wf (host_bits host) p" "plic_wired K p"
proof -
  have h: "nth_opt ds h = Some (ds ! h)" "kind (ds ! h) = KPlic" using assms by (auto simp: devices_ok_def nth_opt_Some)
  then obtain p where "ds ! h = DevPlic p" by (cases "ds ! h") auto
  then show thesis using that [of p] h devices_okD(1) [OF assms(1) h(1)] by simp
qed

subsection \<open>Preparing a batch\<close>

text \<open>The two calls of \<open>prepare_cpu_batch\<close> on the devices.\<close>

definition tick_devices ::
  "ErasedDeviceHandle \<Rightarrow> ('b, 'q, 'o, 'ch, 'f) VirtDevice list \<Rightarrow> Ram \<Rightarrow> (('b, 'q, 'o, 'ch, 'f) VirtDevice list \<times> irq_event list) option" where
  "tick_devices h = on_clint h (\<lambda>cl.
     case Timer_tick (clock_now (clock_cycles cl)) (timer cl) of (evs, t) \<Rightarrow> (cl\<lparr>timer := t\<rparr>, evs))"

definition refresh_devices ::
  "('b, 'q, 'o, 'ch, 'f) board_host \<Rightarrow> ErasedDeviceHandle \<Rightarrow> ('b, 'q, 'o, 'ch, 'f) VirtDevice list \<Rightarrow> Ram
    \<Rightarrow> (('b, 'q, 'o, 'ch, 'f) VirtDevice list \<times> irq_event list) option" where
  "refresh_devices host h = on_plic h (\<lambda>s r. update_context_irq_lines (host_bits host) (device_irq_level host) r [0, 1] s)"

lemma prepare_cpu_batch_eq:
  "prepare_cpu_batch host b =
     do { c \<leftarrow> on_devices (tick_devices (clint b)) (cpu b); c \<leftarrow> on_devices (refresh_devices host (plic b)) c; Some (b\<lparr>cpu := c\<rparr>) }"
  by (simp add: prepare_cpu_batch_def tick_devices_def refresh_devices_def)

lemma tick_step:
  assumes "cpu_wf c" "hart_inv M (devices_ok host K C) c" "h < length K" "arena_of c ! h = DevClint cl" "K ! h = KClint"
  shows "\<exists>c' t. on_devices (tick_devices h) c = Some c'
     \<and> cpu_wf c' \<and> hart_inv M (devices_ok host K C) c' \<and> arena_of c' = (arena_of c)[h := DevClint (cl\<lparr>timer := t\<rparr>)]
     \<and> mip_lines c' = (mip_lines c)(MachineTimer := mip_lines c MachineTimer \<or> deadline cl \<le> clock_now C)"
proof -
  note ok = hart_inv_arena [OF assms(2)]
  have cl: "nth_opt (arena_of c) h = Some (DevClint cl)" "clint_local C cl"
    using board_clint [OF ok assms(3,5)] assms(4) by (metis VirtDevice.inject(2))+
  obtain evs t where t: "Timer_tick (clock_now (clock_cycles cl)) (timer cl) = (evs, t)" by fastforce
  have e: "evs = (if deadline cl \<le> clock_now C then [(MachineTimer, True)] else [])" and "clint_local C (cl\<lparr>timer := t\<rparr>)"
    using tick_single [of cl MachineTimer "clock_now C"] cl(2) t by (auto simp: clint_local_def)
  then have ok': "devices_ok host K C ((arena_of c)[h := DevClint (cl\<lparr>timer := t\<rparr>)])"
    using devices_ok_update [OF ok cl(1)] by simp
  have f: "tick_devices h
      (arena_of c) (ram (mmio (memory c))) = Some ((arena_of c)[h := DevClint (cl\<lparr>timer := t\<rparr>)], evs)"
    using cl(1) t by (simp add: tick_devices_def on_clint_def)
  have "drive evs (mip_lines c) = (mip_lines c)(MachineTimer := mip_lines c MachineTimer \<or> deadline cl \<le> clock_now C)"
    unfolding e by (auto simp: drive_def fun_eq_iff)
  then show ?thesis using on_devices_spec [where f = "tick_devices h" and D' = "devices_ok host K C", OF assms(1,2) f ok'] e by auto
qed

lemma plic_step:
  assumes "cpu_wf c" "hart_inv M (devices_ok host K C) c" "h < length K" "arena_of c ! h = DevPlic p" "K ! h = KPlic" "lines_ok p w"
  shows "\<exists>c' p' evs. on_devices (refresh_devices host h) c = Some c'
     \<and> cpu_wf c' \<and> hart_inv M (devices_ok host K C) c' \<and> arena_of c' ! h = DevPlic p' \<and> lines_ok p' (drive evs w)
     \<and> mip_lines c' = drive evs (mip_lines c) \<and> fst ` set evs \<subseteq> {MachineExternal, SupervisorExternal}
     \<and> drive evs w MachineExternal = notify (host_bits host) (layout p') 0
     \<and> drive evs w SupervisorExternal = notify (host_bits host) (layout p') 1
     \<and> mip_lines c' MachineExternal = edge (riscv_irq_level p ! 0) (notify (host_bits host) (layout p') 0) (mip_lines c MachineExternal)
     \<and> mip_lines c' SupervisorExternal = edge (riscv_irq_level p ! 1) (notify (host_bits host) (layout p') 1) (mip_lines c SupervisorExternal)"
proof -
  note ok = hart_inv_arena [OF assms(2)]
  have p: "nth_opt (arena_of c) h = Some (DevPlic p)" "plic_wf (host_bits host) p" "plic_wired K p"
    using board_plic [OF ok assms(3,5)] assms(4) by (metis VirtDevice.inject(3))+
  let ?r = "ram (mmio (memory c))"
  have poll: "\<exists>b ds'. device_irq_level host g ds ?r = Some (b, ds') \<and> devices_ok host K C ds'"
    if "Some g \<in> set (peripheral_irq_devices p)" "devices_ok host K C ds" for g ds
    using that p(3) device_irq_level_ok [OF that(2)] by (auto simp: plic_wired_def)
  obtain p' ds evs where u: "update_context_irq_lines (host_bits host) (device_irq_level host) ?r [0, 1] (p, arena_of c) = Some (p', ds, evs)"
      "plic_wf (host_bits host) p'" "lines_ok p' (drive evs w)" "devices_ok host K C ds" "riscv_irq_line p' = riscv_irq_line p"
      "peripheral_irq_devices p' = peripheral_irq_devices p" "\<forall>(nr, b) \<in> set evs. Some nr \<in> set (riscv_irq_line p)"
      "\<forall>c < VIRT_MAX_CONTEXTS. \<forall>nr. riscv_irq_line p ! c = Some nr \<longrightarrow>
          drive evs w nr = (if c \<in> set [0, 1] then notify (host_bits host) (layout p') c else w nr)"
      "\<forall>c < VIRT_MAX_CONTEXTS. \<forall>nr v. riscv_irq_line p ! c = Some nr \<longrightarrow> drive evs v nr =
          (if c \<in> set [0, 1] then edge (riscv_irq_level p ! c) (notify (host_bits host) (layout p') c) (v nr) else v nr)"
    by (rule exE [OF update_lines_spec [where D = "devices_ok host K C" and poll = "device_irq_level host" and cs = "[0, 1]",
          OF p(2) assms(6) ok poll]], assumption, assumption) (elim exE conjE, rule that)
  have lines: "riscv_irq_line p = [Some MachineExternal, Some SupervisorExternal] @ replicate 14 None"
    using p(3) by (simp add: plic_wired_def)
  have evs: "fst ` set evs \<subseteq> {MachineExternal, SupervisorExternal}" using u(7) by (auto simp: lines)
  have len: "h < length ds" "kind (ds ! h) = KPlic" using u(4) assms(3,5) by (auto simp: devices_ok_def)
  have ok': "devices_ok host K C (ds[h := DevPlic p'])"
    using devices_ok_update [OF u(4), of h "ds ! h" "DevPlic p'"] len u(2,5,6) p(3) by (auto simp: nth_opt_Some plic_wired_def)
  have f: "refresh_devices host h (arena_of c) ?r
      = Some (ds[h := DevPlic p'], evs)"
    using p(1) u(1) by (simp add: refresh_devices_def on_plic_def)
  have "\<forall>(nr, level) \<in> set evs. nr \<in> board_irqs" using evs by fastforce
  from on_devices_spec [where f = "refresh_devices host h" and D' = "devices_ok host K C", OF assms(1,2) f ok' this]
  obtain c' where c': "on_devices (refresh_devices host h) c = Some c'"
      "cpu_wf c'" "hart_inv M (devices_ok host K C) c'" "arena_of c' = ds[h := DevPlic p']" "mip_lines c' = drive evs (mip_lines c)"
    by blast
  have "drive evs w MachineExternal = notify (host_bits host) (layout p') 0"
      "drive evs w SupervisorExternal = notify (host_bits host) (layout p') 1"
    using u(8) [rule_format, of 0 MachineExternal] u(8) [rule_format, of 1 SupervisorExternal] by (simp_all add: lines)
  moreover have "drive evs v MachineExternal = edge (riscv_irq_level p ! 0) (notify (host_bits host) (layout p') 0) (v MachineExternal)"
      "drive evs v SupervisorExternal = edge (riscv_irq_level p ! 1) (notify (host_bits host) (layout p') 1) (v SupervisorExternal)" for v
    using u(9) [rule_format, of 0 MachineExternal v] u(9) [rule_format, of 1 SupervisorExternal v] by (simp_all add: lines)
  ultimately show ?thesis using c' evs u(3) len(1) by (intro exI [of _ c'] exI [of _ p'] exI [of _ evs]) simp
qed

lemma lines_exist:
  assumes "plic_wired K p"
  shows "\<exists>w. lines_ok p w"
proof -
  have l: "riscv_irq_line p = [Some MachineExternal, Some SupervisorExternal] @ replicate 14 None"
    using assms by (simp add: plic_wired_def)
  have nth: "riscv_irq_line p ! c = (if c = 0 then Some MachineExternal else if c = 1 then Some SupervisorExternal else None)"
    if "c < 16" for c using that by (auto simp: l nth_append nth_Cons split: nat.splits)
  show ?thesis
    by (rule exI [of _ "\<lambda>nr. riscv_irq_level p ! (if nr = MachineExternal then 0 else 1) = Some True"])
      (auto simp: lines_ok_def nth split: if_splits)
qed

lemma prepare_step:
  assumes "board_inv host M K C b" "arena_of (cpu b) ! clint b = DevClint cl" "arena_of (cpu b) ! plic b = DevPlic p" "lines_ok p w"
  shows "\<exists>b' p' evs. prepare_cpu_batch host b = Some b' \<and> board_inv host M K C b' \<and> status b' = status b \<and> plic b' = plic b
     \<and> arena_of (cpu b') ! plic b = DevPlic p' \<and> lines_ok p' (drive evs w) \<and> fst ` set evs \<subseteq> {MachineExternal, SupervisorExternal}
     \<and> mip_lines (cpu b') = drive evs ((mip_lines (cpu b))(MachineTimer := mip_lines (cpu b) MachineTimer \<or> deadline cl \<le> clock_now C))
     \<and> drive evs w MachineExternal = notify (host_bits host) (layout p') 0
     \<and> drive evs w SupervisorExternal = notify (host_bits host) (layout p') 1
     \<and> mip_lines (cpu b') MachineExternal =
         edge (riscv_irq_level p ! 0) (notify (host_bits host) (layout p') 0) (mip_lines (cpu b) MachineExternal)
     \<and> mip_lines (cpu b') SupervisorExternal =
         edge (riscv_irq_level p ! 1) (notify (host_bits host) (layout p') 1) (mip_lines (cpu b) SupervisorExternal)"
proof -
  have inv: "cpu_wf (cpu b)" "hart_inv M (devices_ok host K C) (cpu b)" "clint b < length K" "K ! clint b = KClint"
    "plic b < length K" "K ! plic b = KPlic" using assms(1) by (auto simp: board_inv_def)
  obtain c t where c: "on_devices (tick_devices (clint b)) (cpu b) = Some c" "cpu_wf c" "hart_inv M (devices_ok host K C) c"
      "arena_of c = (arena_of (cpu b))[clint b := DevClint (cl\<lparr>timer := t\<rparr>)]"
      "mip_lines c = (mip_lines (cpu b))(MachineTimer := mip_lines (cpu b) MachineTimer \<or> deadline cl \<le> clock_now C)"
    using tick_step [OF inv(1,2,3) assms(2) inv(4)] by blast
  have "clint b \<noteq> plic b" using inv(4,6) by auto
  then have "arena_of c ! plic b = DevPlic p" using c(4) assms(3) by simp
  from plic_step [OF c(2,3) inv(5) this inv(6) assms(4)] obtain c' p' evs where
      "on_devices (refresh_devices host (plic b)) c = Some c'" "cpu_wf c'" "hart_inv M (devices_ok host K C) c'"
      "arena_of c' ! plic b = DevPlic p'" "lines_ok p' (drive evs w)" "mip_lines c' = drive evs (mip_lines c)"
      "fst ` set evs \<subseteq> {MachineExternal, SupervisorExternal}"
      "drive evs w MachineExternal = notify (host_bits host) (layout p') 0"
      "drive evs w SupervisorExternal = notify (host_bits host) (layout p') 1"
      "mip_lines c' MachineExternal = edge (riscv_irq_level p ! 0) (notify (host_bits host) (layout p') 0) (mip_lines c MachineExternal)"
      "mip_lines c' SupervisorExternal = edge (riscv_irq_level p ! 1) (notify (host_bits host) (layout p') 1) (mip_lines c SupervisorExternal)"
    by (elim exE conjE) (rule that)
  then show ?thesis using c(1,5) assms(1)
    by (intro exI [of _ "b\<lparr>cpu := c'\<rparr>"] exI [of _ p'] exI [of _ evs]) (simp add: prepare_cpu_batch_eq board_inv_def)
qed

lemma prepare_ok:
  assumes "board_inv host M K C b"
  shows "\<exists>b'. prepare_cpu_batch host b = Some b' \<and> board_inv host M K C b' \<and> status b' = status b"
proof -
  have inv: "hart_inv M (devices_ok host K C) (cpu b)" "clint b < length K" "K ! clint b = KClint" "plic b < length K" "K ! plic b = KPlic"
    using assms by (auto simp: board_inv_def)
  obtain cl where cl: "arena_of (cpu b) ! clint b = DevClint cl" by (rule board_clint [OF hart_inv_arena [OF inv(1)] inv(2,3)])
  obtain p where p: "arena_of (cpu b) ! plic b = DevPlic p" "plic_wired K p" by (rule board_plic [OF hart_inv_arena [OF inv(1)] inv(4,5)])
  obtain w where "lines_ok p w" using lines_exist [OF p(2)] by blast
  from prepare_step [OF assms cl p(1) this] show ?thesis by blast
qed

subsection \<open>Finishing a batch\<close>

lemma sync_items_nop:
  "devices io = Some a \<Longrightarrow> \<forall>item \<in> set items. item_device item < length (arena_devices a)
    \<Longrightarrow> sync_items (virt_device_ops host) items io = Some io"
proof (induction items)
  case (Cons item items)
  have io: "io\<lparr>devices := Some a\<rparr> = io" using Cons.prems(1) by (cases io) simp
  show ?case using Cons by (simp add: virt_device_ops_def erased_device_mut_def io)
qed simp

lemma power_off_ok:
  assumes "cpu_wf c" "hart_inv M D c" "env_ops env = virt_device_ops host" "\<forall>item \<in> set M. item_device item < length (arena_of c)"
  shows "power_off (env_ops env) c = Some c"
proof -
  obtain a where a: "devices (mmio (memory c)) = Some a" "mmio_map (mmio (memory c)) = M" "arena_of c = arena_devices a"
    using assms(2) by (auto simp: hart_inv_def arena_inv_def arena_of_def)
  have s: "sync_items (virt_device_ops host) M (mmio (memory c)) = Some (mmio (memory c))"
    by (rule sync_items_nop [OF a(1)]) (use assms(4) a(3) in simp)
  have "vm_sync (env_ops env) (memory c) = Some (memory c)"
    unfolding vm_sync_def mmio_sync_def a(2) assms(3) s by simp
  moreover have "irq_out (mmio (memory c)) = []" using assms(1) by (simp add: cpu_wf_def)
  ultimately show ?thesis by (simp add: power_off_def drain_irqs_def)
qed

lemma any_update:
  assumes "P x = P (xs ! h)"
  shows "(\<exists>d \<in> set (xs[h := x]). P d) = (\<exists>d \<in> set xs. P d)"
proof -
  have "map P (xs[h := x]) = map P xs"
    using assms by (cases "h < length xs") (simp_all add: map_update list_update_same_conv list_update_beyond)
  then have "True \<in> set (map P (xs[h := x])) \<longleftrightarrow> True \<in> set (map P xs)" by simp
  then show ?thesis by (simp add: image_iff Bex_def)
qed

lemma advance_clock:
  assumes "devices_ok host K C ds" "h < length K" "\<forall>g < length K. K ! g = KClint \<longrightarrow> g = h" "ds ! h = DevClint cl"
  shows "devices_ok host K (C + n) (ds[h := DevClint (cl\<lparr>clock_cycles := clock_cycles cl + n\<rparr>)])"
proof -
  have len: "length K = length ds" using assms(1) by (auto simp: devices_ok_def)
  have "local_ok host (C + n) K (ds[h := DevClint (cl\<lparr>clock_cycles := clock_cycles cl + n\<rparr>)] ! g)" if "g < length ds" for g
  proof (cases "g = h")
    case True
    have "clint_local C cl" using assms(1,2,4) len devices_okD(1) [of host K C ds h] by (simp add: nth_opt_Some)
    then show ?thesis using True that by (simp add: clint_local_def clint_ok_def)
  next
    case False
    have "local_ok host C K (ds ! g)" "kind (ds ! g) \<noteq> KClint"
      using assms(1,3) that len False devices_okD(1,4) [of host K C ds g] by (auto simp: nth_opt_Some)
    then show ?thesis using False by (cases "ds ! g") auto
  qed
  moreover have "map kind (ds[h := DevClint (cl\<lparr>clock_cycles := clock_cycles cl + n\<rparr>)]) = K"
    using assms(1,2,4) len by (simp add: devices_ok_def map_update) (metis kind.simps(2) list_update_id map_update)
  ultimately show ?thesis by (auto simp: devices_ok_def in_set_conv_nth)
qed

lemma finish_ok:
  assumes inv: "board_inv host M K C b" and env: "env_ops env = virt_device_ops host"
  shows "\<exists>b'. finish_cpu_batch env n b = Some b' \<and> board_inv host M K (C + n) b'
     \<and> (status b' = Halt \<longleftrightarrow> status b = Halt \<or> (\<exists>d \<in> set (arena_of (cpu b)). powered_off d))"
proof -
  have i: "cpu_wf (cpu b)" "hart_inv M (devices_ok host K C) (cpu b)" "clint b < length K" "K ! clint b = KClint"
    "\<forall>g < length K. K ! g = KClint \<longrightarrow> g = clint b" using inv by (auto simp: board_inv_def)
  obtain cl where cl: "arena_of (cpu b) ! clint b = DevClint cl" "nth_opt (arena_of (cpu b)) (clint b) = Some (DevClint cl)"
    by (rule board_clint [OF hart_inv_arena [OF i(2)] i(3,4)])
  let ?f = "on_clint (clint b) (\<lambda>cl. (cl\<lparr>clock_cycles := clock_cycles cl + n\<rparr>, []))"
  let ?ds = "(arena_of (cpu b))[clint b := DevClint (cl\<lparr>clock_cycles := clock_cycles cl + n\<rparr>)]"
  have f: "?f (arena_of (cpu b)) (ram (mmio (memory (cpu b)))) = Some (?ds, [])" using cl(2) by (simp add: on_clint_def)
  have "devices_ok host K (C + n) ?ds" by (rule advance_clock [OF hart_inv_arena [OF i(2)] i(3,5) cl(1)])
  from on_devices_spec [where f = ?f and D' = "devices_ok host K (C + n)", OF i(1,2) f this] obtain c where
    c: "on_devices ?f (cpu b) = Some c" "cpu_wf c" "hart_inv M (devices_ok host K (C + n)) c" "arena_of c = ?ds" by auto
  have off: "(\<exists>d \<in> set ?ds. powered_off d) = (\<exists>d \<in> set (arena_of (cpu b)). powered_off d)"
    by (rule any_update) (simp add: cl(1))
  obtain a where a: "devices (mmio (memory c)) = Some a" "arena_devices a = ?ds"
    using c(3,4) by (auto simp: hart_inv_def arena_inv_def arena_of_def)
  have len: "length (arena_of c) = length K" using hart_inv_arena [OF c(3)] by (auto simp: devices_ok_def)
  have m: "\<forall>item \<in> set M. item_device item < length (arena_of c)"
    using inv len by (simp add: board_inv_def)
  have "finish_cpu_batch env n b =
      Some (b\<lparr>cpu := c, status := if \<exists>d \<in> set (arena_of (cpu b)). powered_off d then Halt else status b\<rparr>)"
    using c(1) a off power_off_ok [OF c(2,3) env m] by (simp add: finish_cpu_batch_def)
  then show ?thesis using inv c(2,3) by (simp add: board_inv_def)
qed

subsection \<open>Running\<close>

text \<open>
  The environment of the hart fits the board: its devices are the board's, and the instructions of the other
  extensions keep the hart well formed and do not touch the devices.
\<close>

definition env_fits :: "('b, 'q, 'o, 'ch, 'f) board_host \<Rightarrow> (('b, 'q, 'o, 'ch, 'f) VirtDevice, 'x) hart_env \<Rightarrow> bool" where
  "env_fits host env \<longleftrightarrow> env_ops env = virt_device_ops host \<and> ext_ok (env_ext env)
     \<and> (\<forall>M K C. ext_keeps M (devices_ok host K C) env)"

text \<open>A batch of the hart panics, at a board that could be prepared.\<close>

definition hart_panics ::
  "(('b, 'q, 'o, 'ch, 'f) VirtDevice, 'x) hart_env \<Rightarrow> ('b, 'q, 'o, 'ch, 'f) board_host \<Rightarrow> u64 \<Rightarrow> ('b, 'q, 'o, 'ch, 'f, 'x) VirtBoard \<Rightarrow> bool" where
  "hart_panics env host n b \<longleftrightarrow> (\<exists>b'. prepare_cpu_batch host b = Some b' \<and> step_batch env n (cpu b') = None)"

lemma step_batch_wf:
  assumes "ext_ok (env_ext env)" "cpu_wf c" "step_batch env n c = Some c'"
  shows "cpu_wf c'"
  by (rule step_batch_invariant [of cpu_wf, OF step_impl_wf [OF assms(1)] try_take_interrupt_wf _ assms(2,3)])
    (auto simp: increment_mcycle_def dest: increment_mcycle_wf)

lemma board_step_batch_ok:
  assumes "env_fits host env" "board_inv host M K C b" "status b = Running"
  shows "hart_panics env host n b \<or>
    (\<exists>b'. board_step_batch env host n b = Some (\<lparr>batch_cycles = n, hook_stopped = False\<rparr>, b') \<and> board_inv host M K (C + n) b')"
proof -
  have env: "env_ops env = virt_device_ops host" "ext_ok (env_ext env)" "ext_keeps M (devices_ok host K C) env"
    using assms(1) by (auto simp: env_fits_def)
  obtain b1 where b1: "prepare_cpu_batch host b = Some b1" "board_inv host M K C b1" using prepare_ok [OF assms(2)] by blast
  show ?thesis
  proof (cases "step_batch env n (cpu b1)")
    case None
    then show ?thesis using b1(1) by (auto simp: hart_panics_def)
  next
    case (Some c)
    have "hart_inv M (devices_ok host K C) c"
      by (rule board_devices.step_batch_hart [OF env(1,3) _ Some]) (use b1(2) in \<open>simp add: board_inv_def\<close>)
    moreover have "cpu_wf c" by (rule step_batch_wf [OF env(2) _ Some]) (use b1(2) in \<open>simp add: board_inv_def\<close>)
    ultimately have "board_inv host M K C (b1\<lparr>cpu := c\<rparr>)" using b1(2) by (simp add: board_inv_def)
    from finish_ok [OF this env(1), of n] show ?thesis
      using b1(1) Some assms(3) by (auto simp: board_step_batch_def execute_cpu_batch_def)
  qed
qed

text \<open>
  The boards that \<open>run_cycles\<close> goes through when it is asked for \<open>n\<close> cycles: from a running board with \<open>e\<close> cycles
  done and more to do, one batch of the remaining cycles or of \<open>STEP_BATCH_CYCLES\<close>, whichever is less.
\<close>

inductive batches ::
  "(('b, 'q, 'o, 'ch, 'f) VirtDevice, 'x) hart_env \<Rightarrow> ('b, 'q, 'o, 'ch, 'f) board_host \<Rightarrow> u64
    \<Rightarrow> u64 \<Rightarrow> ('b, 'q, 'o, 'ch, 'f, 'x) VirtBoard \<Rightarrow> u64 \<Rightarrow> ('b, 'q, 'o, 'ch, 'f, 'x) VirtBoard \<Rightarrow> bool" for env host n where
  batches_none: "batches env host n e b e b"
| batches_step:
    "e < n \<Longrightarrow> status b = Running \<Longrightarrow> m = min (n - e) STEP_BATCH_CYCLES
     \<Longrightarrow> board_step_batch env host m b = Some (\<lparr>batch_cycles = m, hook_stopped = False\<rparr>, b1)
     \<Longrightarrow> batches env host n (e + m) b1 e' b' \<Longrightarrow> batches env host n e b e' b'"

lemma run_loop_ok:
  assumes fits: "env_fits host env"
  shows "board_inv host M K C b \<Longrightarrow> e \<le> n \<Longrightarrow>
    \<exists>k b'. batches env host n e b k b' \<and> board_inv host M K (C + (k - e)) b' \<and> k \<le> n
      \<and> (if k < n \<and> status b' = Running
         then run_loop (board_step_batch env host) n e b = None \<and> hart_panics env host (min (n - k) STEP_BATCH_CYCLES) b'
         else run_loop (board_step_batch env host) n e b = Some (\<lparr>batch_cycles = k, hook_stopped = False\<rparr>, b'))"
proof (induction "unat (n - e)" arbitrary: C b e rule: less_induct)
  case less
  show ?case
  proof (cases "e < n \<and> status b = Running")
    case False
    then have "run_loop (board_step_batch env host) n e b = Some (\<lparr>batch_cycles = e, hook_stopped = False\<rparr>, b)"
      by (subst run_loop.simps) auto
    then show ?thesis using False less.prems by (intro exI [of _ e] exI [of _ b]) (auto intro: batches_none)
  next
    case True
    define m where "m = min (n - e) STEP_BATCH_CYCLES"
    have ne: "unat (n - e) = unat n - unat e" "unat e < unat n" using True by (simp_all add: unat_sub order_less_imp_le word_less_nat_alt)
    have m: "0 < unat m" "unat m \<le> unat n - unat e" using ne by (auto simp: m_def min_def word_le_nat_alt)
    then have em: "unat (e + m) = unat e + unat m" using ne(2) unsigned_less [where 'a = nat and w = n] by (simp add: unat_word_ariths)
    show ?thesis
    proof (cases "hart_panics env host m b")
      case panics: True
      then have "board_step_batch env host m b = None"
        using True by (auto simp: hart_panics_def board_step_batch_def execute_cpu_batch_def)
      then have "run_loop (board_step_batch env host) n e b = None"
        using True by (subst run_loop.simps) (simp add: m_def)
      then show ?thesis using True panics less.prems
        by (intro exI [of _ e] exI [of _ b]) (simp add: m_def [symmetric] batches_none)
    next
      case False
      then obtain b' where b': "board_step_batch env host m b = Some (\<lparr>batch_cycles = m, hook_stopped = False\<rparr>, b')"
          "board_inv host M K (C + m) b'"
        using board_step_batch_ok [OF fits less.prems(1)] True by blast
      have le: "e + m \<le> n" "unat (n - (e + m)) < unat (n - e)"
        using em m ne by (simp_all add: word_le_nat_alt unat_sub)
      obtain k b'' where k: "batches env host n (e + m) b' k b''" "board_inv host M K (C + m + (k - (e + m))) b''" "k \<le> n"
          "if k < n \<and> status b'' = Running
           then run_loop (board_step_batch env host) n (e + m) b' = None \<and> hart_panics env host (min (n - k) STEP_BATCH_CYCLES) b''
           else run_loop (board_step_batch env host) n (e + m) b' = Some (\<lparr>batch_cycles = k, hook_stopped = False\<rparr>, b'')"
        using less.hyps [OF le(2) b'(2) le(1)] by blast
      have "run_loop (board_step_batch env host) n e b = run_loop (board_step_batch env host) n (e + m) b'"
        using True b'(1) by (subst run_loop.simps) (simp add: m_def)
      moreover have "C + m + (k - (e + m)) = C + (k - e)" by simp
      moreover have "batches env host n e b k b''"
        by (rule batches_step [OF _ _ m_def b'(1) k(1)]) (use True in simp_all)
      ultimately show ?thesis using k(2-4) by (intro exI [of _ k] exI [of _ b'']) simp
    qed
  qed
qed

end
