(* ===== verification/BoardBuild.thy ===== *)
theory BoardBuild
  imports BoardRun
begin

unbundle bit_operations_syntax

text \<open>
  Building a board: the builder connects the devices, and the board it returns satisfies the invariant under which
  it runs.
\<close>

section \<open>The builder\<close>

definition builder_ok :: "('b, 'q, 'o, 'ch, 'f) board_host \<Rightarrow> ('b, 'q, 'o, 'ch, 'f) RVBoardBuilder \<Rightarrow> bool" where
  "builder_ok host b \<longleftrightarrow>
     plic_wf (host_bits host) (builder_plic b) \<and> riscv_irq_line (builder_plic b) = replicate 16 None
     \<and> (\<forall>h. Some h \<in> set (peripheral_irq_devices (builder_plic b)) \<longrightarrow>
          h < length (arena_builder b) \<and> kind (arena_builder b ! h) \<in> {KUart, KVirtio})
     \<and> (\<forall>d \<in> set (arena_builder b). kind d \<notin> {KClint, KPlic} \<and> (\<forall>C K. local_ok host C K d))
     \<and> (\<forall>item \<in> set (mmio_items b). item_device item < length (arena_builder b))"

lemma builder_new_ok: "bitset_laws (host_bits host) \<Longrightarrow> builder_ok host (RVBoardBuilder_new host r)"
  by (auto simp: builder_ok_def RVBoardBuilder_new_def PLIC_new_def plic_wf_def PLICLayout_new_wf)

lemma builder_ok_frame [simp]:
  "builder_ok host (b\<lparr>initial_registers := rs\<rparr>) = builder_ok host b" "builder_ok host (b\<lparr>clint_mmio := cm\<rparr>) = builder_ok host b"
  "builder_ok host (b\<lparr>plic_mmio := pm\<rparr>) = builder_ok host b" "builder_ok host (b\<lparr>id_allocators := ia\<rparr>) = builder_ok host b"
  by (simp_all add: builder_ok_def)

lemma add_plain_ok:
  assumes "builder_ok host b" "kind d \<notin> {KClint, KPlic}" "\<And>C K. local_ok host C K d"
  shows "builder_ok host (add_plain_mmio_device d base sz b)"
proof -
  have "item_device item < Suc (length (arena_builder b))" if "item \<in> set (mmio_items b)" for item
    using assms(1) that by (auto simp: builder_ok_def less_Suc_eq)
  then show ?thesis using assms by (auto simp: builder_ok_def add_plain_mmio_device_def Let_def nth_append less_Suc_eq)
qed

lemma add_plic_device_ok:
  assumes "builder_ok host b" "kind d \<in> {KUart, KVirtio}" "\<And>C K. local_ok host C K d"
    and "add_plic_device ty d base sz irq b = Some b'"
  shows "builder_ok host b' \<and> clint_mmio b' = clint_mmio b \<and> plic_mmio b' = plic_mmio b"
proof -
  obtain irq' base' sz' a p where e: "register_device (length (arena_builder b)) irq' (builder_plic b) = Some p"
      "b' = add_plain_mmio_device d base' sz' (b\<lparr>id_allocators := (id_allocators b)(ty \<mapsto> a), builder_plic := p\<rparr>)"
    using assms(4) by (auto simp: add_plic_device_def Let_def bind_eq_Some_conv split: prod.splits)
  have p: "p = (builder_plic b)\<lparr>peripheral_irq_devices := (peripheral_irq_devices (builder_plic b))[unat irq' := Some (length (arena_builder b))]\<rparr>"
    using e(1) by (auto simp: register_device_def upd_opt_Some split: if_splits)
  have src: "h < Suc (length (arena_builder b)) \<and> kind ((arena_builder b @ [d]) ! h) \<in> {KUart, KVirtio}"
    if "Some h \<in> set (peripheral_irq_devices p)" for h
  proof -
    have "h = length (arena_builder b) \<or> Some h \<in> set (peripheral_irq_devices (builder_plic b))"
      using that set_update_subset_insert by (fastforce simp: p)
    then show ?thesis using assms(1,2) by (auto simp: builder_ok_def nth_append)
  qed
  have items: "item_device item < Suc (length (arena_builder b))" if "item \<in> set (mmio_items b)" for item
    using assms(1) that by (auto simp: builder_ok_def less_Suc_eq)
  have "plic_wf (host_bits host) p" "riscv_irq_line p = replicate 16 None"
    using assms(1) by (auto simp: builder_ok_def p plic_wf_def)
  then show ?thesis using assms(1-3) src items
    by (auto simp: e(2) builder_ok_def add_plain_mmio_device_def Let_def)
qed

lemma new_virtio_ok: "local_ok host C K (DevVirtio (VirtIOMMIO_new ((VirtIOBlkDevice_new n ch f)\<lparr>host_feature := fs\<rparr>)))"
  by (simp add: VirtIOMMIO_new_def VirtIOBlkDevice_new_def VirtQueue_new_def avail_ok_def)

lemma add_virtio_devices_ok:
  "builder_ok host b \<Longrightarrow> add_virtio_devices configs b = Some b' \<Longrightarrow>
     builder_ok host b' \<and> clint_mmio b' = clint_mmio b \<and> plic_mmio b' = plic_mmio b"
proof (induction configs b rule: add_virtio_devices.induct)
  case (2 config configs b)
  obtain sz ch f where config: "config = (sz, ch, f)" by (cases config) auto
  from "2.prems"(2) obtain b1 where b1: "add_virtio_device config b = Some b1" "add_virtio_devices configs b1 = Some b'"
    by (auto simp: bind_eq_Some_conv)
  obtain m where m: "add_plic_device TypeVirtio (DevVirtio m) VIRTIO_MMIO_BASE VIRTIO_MMIO_SIZE VIRTIO_IRQ_BASE b = Some b1"
      "\<And>C K. local_ok host C K (DevVirtio m)"
    using b1(1) new_virtio_ok [of host] by (auto simp: config add_virtio_device_def Let_def split: if_splits)
  have "builder_ok host b1 \<and> clint_mmio b1 = clint_mmio b \<and> plic_mmio b1 = plic_mmio b"
    by (rule add_plic_device_ok [OF "2.prems"(1) _ m(2,1)]) simp
  then show ?case using "2.IH" [OF b1(1)] b1(2) by auto
qed simp

section \<open>Connecting the interrupt lines\<close>

lemma set_irq_line_spec:
  fixes p :: "'b PLIC"
  assumes "plic_wf bs p" "c < VIRT_MAX_CONTEXTS"
    and "lines_ok (p\<lparr>riscv_irq_line := (riscv_irq_line p)[c := Some nr], riscv_irq_level := (riscv_irq_level p)[c := None]\<rparr>) w"
  shows "\<exists>p' evs. PLIC_set_irq_line bs nr c p = Some (p', evs) \<and> plic_wf bs p' \<and> lines_ok p' (drive evs w)
     \<and> riscv_irq_line p' = (riscv_irq_line p)[c := Some nr] \<and> peripheral_irq_devices p' = peripheral_irq_devices p
     \<and> (\<forall>(n, b) \<in> set evs. Some n \<in> set ((riscv_irq_line p)[c := Some nr]))"
proof -
  let ?p = "p\<lparr>riscv_irq_line := (riscv_irq_line p)[c := Some nr], riscv_irq_level := (riscv_irq_level p)[c := None]\<rparr>"
  have wf: "plic_wf bs ?p" using assms(1) by (simp add: plic_wf_def)
  obtain p' evs where r: "refresh_contexts bs [c] ?p = Some (p', evs)" "plic_wf bs p'" "lines_ok p' (drive evs w)"
    using refresh_contexts_spec [OF wf assms(3), of "[c]"] by blast
  have "PLIC_set_irq_line bs nr c p = Some (p', evs)"
    using r(1) assms(1,2) by (auto simp: PLIC_set_irq_line_def plic_wf_def upd_opt_def bind_eq_Some_conv)
  then show ?thesis using r(2,3) refresh_events [OF r(1)] by auto
qed

lemma connect_clint:
  assumes "cpu_wf c" "hart_inv M (\<lambda>ds. ds = ds0) c" "ds0 = xs @ DevClint cl # ys"
  shows "\<exists>c'. on_devices (on_clint (length xs) (\<lambda>cl. (f cl, []))) c = Some c' \<and> cpu_wf c'
     \<and> hart_inv M (\<lambda>ds. ds = xs @ DevClint (f cl) # ys) c' \<and> mip_lines c' = mip_lines c"
proof -
  have "nth_opt ds0 (length xs) = Some (DevClint cl)" using assms(3) by (simp add: nth_opt_Some)
  then have f: "on_clint (length xs) (\<lambda>cl. (f cl, [])) (arena_of c) (ram (mmio (memory c))) = Some (xs @ DevClint (f cl) # ys, [])"
    using hart_inv_arena [OF assms(2)] assms(3) by (simp add: on_clint_def)
  show ?thesis
    using on_devices_spec [where f = "on_clint (length xs) (\<lambda>cl. (f cl, []))" and D' = "\<lambda>ds. ds = xs @ DevClint (f cl) # ys",
        OF assms(1,2) f refl] by (auto simp: drive_def)
qed

lemma connect_plic:
  assumes "cpu_wf c" "hart_inv M (\<lambda>ds. ds = xs @ [DevPlic p]) c" "plic_wf (host_bits host) p" "n < VIRT_MAX_CONTEXTS"
    and "lines_ok (p\<lparr>riscv_irq_line := (riscv_irq_line p)[n := Some nr], riscv_irq_level := (riscv_irq_level p)[n := None]\<rparr>) (mip_lines c)"
    and "\<And>m. Some m \<in> set ((riscv_irq_line p)[n := Some nr]) \<Longrightarrow> m \<in> board_irqs"
  shows "\<exists>c' p'. set_plic_line host (length xs) nr n c = Some c' \<and> cpu_wf c' \<and> hart_inv M (\<lambda>ds. ds = xs @ [DevPlic p']) c'
     \<and> plic_wf (host_bits host) p' \<and> lines_ok p' (mip_lines c') \<and> riscv_irq_line p' = (riscv_irq_line p)[n := Some nr]
     \<and> peripheral_irq_devices p' = peripheral_irq_devices p"
proof -
  obtain p' evs where p': "PLIC_set_irq_line (host_bits host) nr n p = Some (p', evs)" "plic_wf (host_bits host) p'"
      "lines_ok p' (drive evs (mip_lines c))" "riscv_irq_line p' = (riscv_irq_line p)[n := Some nr]" "peripheral_irq_devices p' = peripheral_irq_devices p"
      "\<forall>(m, b) \<in> set evs. Some m \<in> set ((riscv_irq_line p)[n := Some nr])"
    using set_irq_line_spec [OF assms(3-5)] by blast
  let ?f = "on_plic (length xs) (\<lambda>(p, ds) r. do { (p, evs) \<leftarrow> PLIC_set_irq_line (host_bits host) nr n p; Some (p, ds, evs) })"
  have "nth_opt (xs @ [DevPlic p]) (length xs) = Some (DevPlic p)" by (simp add: nth_opt_Some)
  then have f: "?f (arena_of c) (ram (mmio (memory c))) = Some (xs @ [DevPlic p'], evs)"
    using hart_inv_arena [OF assms(2)] p'(1) by (simp add: on_plic_def)
  have "\<forall>(m, b) \<in> set evs. m \<in> board_irqs" using p'(6) assms(6) by blast
  from on_devices_spec [where f = ?f and D' = "\<lambda>ds. ds = xs @ [DevPlic p']", OF assms(1,2) f refl this]
  show ?thesis using p'(2-5) by (auto simp: set_plic_line_def)
qed

lemma lines_okI:
  assumes "\<And>c nr b. c < VIRT_MAX_CONTEXTS \<Longrightarrow> riscv_irq_line p ! c = Some nr \<Longrightarrow> riscv_irq_level p ! c = Some b \<Longrightarrow> w nr = b"
    and "\<And>c d nr. c < VIRT_MAX_CONTEXTS \<Longrightarrow> d < VIRT_MAX_CONTEXTS \<Longrightarrow> riscv_irq_line p ! c = Some nr \<Longrightarrow> riscv_irq_line p ! d = Some nr \<Longrightarrow> c = d"
  shows "lines_ok p w"
  using assms unfolding lines_ok_def by (metis option.collapse)

lemma first_line_ok:
  assumes "plic_wf bs p" "riscv_irq_line p = replicate 16 None"
  shows "lines_ok (p\<lparr>riscv_irq_line := (riscv_irq_line p)[0 := Some nr], riscv_irq_level := (riscv_irq_level p)[0 := None]\<rparr>) w"
proof -
  have nth: "(riscv_irq_line p)[0 := Some nr] ! c = (if c = 0 then Some nr else None)" if "c < 16" for c
    unfolding assms(2) using that by (cases "c = 0") simp_all
  have len: "length (riscv_irq_level p) = 16" using assms(1) by (simp add: plic_wf_def)
  then have "(riscv_irq_level p)[0 := None] ! 0 = None" by simp
  then show ?thesis by (intro lines_okI) (auto simp: nth split: if_splits)
qed

lemma second_line_ok:
  assumes "plic_wf bs p" "riscv_irq_line p = (replicate 16 None)[0 := Some MachineExternal]" "lines_ok p w"
  shows "lines_ok (p\<lparr>riscv_irq_line := (riscv_irq_line p)[1 := Some SupervisorExternal], riscv_irq_level := (riscv_irq_level p)[1 := None]\<rparr>) w"
proof -
  have nth0: "riscv_irq_line p ! 0 = Some MachineExternal" unfolding assms(2) by simp
  have nth: "(riscv_irq_line p)[1 := Some SupervisorExternal] ! c =
      (if c = 0 then Some MachineExternal else if c = 1 then Some SupervisorExternal else None)" if "c < 16" for c
    unfolding assms(2) using that by (cases "c = 0"; cases "c = 1") simp_all
  have len: "length (riscv_irq_level p) = 16" using assms(1) by (simp add: plic_wf_def)
  then have lv: "(riscv_irq_level p)[1 := None] ! 1 = None" "(riscv_irq_level p)[1 := None] ! 0 = riscv_irq_level p ! 0" by simp_all
  have "w MachineExternal = b" if "riscv_irq_level p ! 0 = Some b" for b
    using assms(3) nth0 that unfolding lines_ok_def by force
  then show ?thesis using lv by (intro lines_okI) (auto simp: nth [simplified] split: if_splits)
qed

lemma register_interrupts_ok:
  assumes "cpu_wf c" "hart_inv M (\<lambda>ds. ds = xs @ [DevClint (Clint_new 1 0 0xBFF8 0x4000 0 Timer_new), DevPlic p]) c"
    and "plic_wf (host_bits host) p" "riscv_irq_line p = replicate 16 None"
  shows "\<exists>c' cl p'. register_rv_interrupt host (length xs) (Suc (length xs)) base c = Some c' \<and> cpu_wf c'
     \<and> hart_inv M (\<lambda>ds. ds = xs @ [DevClint cl, DevPlic p']) c' \<and> clint_local 0 cl \<and> plic_wf (host_bits host) p'
     \<and> riscv_irq_line p' = [Some MachineExternal, Some SupervisorExternal] @ replicate 14 None
     \<and> peripheral_irq_devices p' = peripheral_irq_devices p \<and> lines_ok p' (mip_lines c')"
proof -
  let ?cl = "Clint_set_irq_line MachineSoft 1 (Clint_set_irq_line MachineTimer 0 (Clint_new 1 0 0xBFF8 0x4000 0 Timer_new))"
  have cl: "clint_local 0 ?cl"
    using clint_built [of MachineSoft MachineTimer 0]
    by (simp add: clint_local_def Clint_set_irq_line_def Clint_new_def Timer_register_def Timer_new_def)
  obtain c1 where c1: "on_devices (on_clint (length xs) (\<lambda>cl. (Clint_set_irq_line MachineTimer 0 cl, []))) c = Some c1" "cpu_wf c1"
      "hart_inv M (\<lambda>ds. ds = xs @ [DevClint (Clint_set_irq_line MachineTimer 0 (Clint_new 1 0 0xBFF8 0x4000 0 Timer_new)), DevPlic p]) c1"
    using connect_clint [OF assms(1,2) refl, of "Clint_set_irq_line MachineTimer 0"] by blast
  obtain c2 where c2: "on_devices (on_clint (length xs) (\<lambda>cl. (Clint_set_irq_line MachineSoft 1 cl, []))) c1 = Some c2" "cpu_wf c2"
      "hart_inv M (\<lambda>ds. ds = xs @ [DevClint ?cl, DevPlic p]) c2"
    using connect_clint [OF c1(2,3) refl, of "Clint_set_irq_line MachineSoft 1"] by blast
  let ?c2 = "c2\<lparr>time_addr := Some (base + MTIME_OFFSET)\<rparr>" and ?xs = "xs @ [DevClint ?cl]"
  have i2: "cpu_wf ?c2" "hart_inv M (\<lambda>ds. ds = ?xs @ [DevPlic p]) ?c2" using c2(2,3) by (simp_all add: cpu_wf_def)
  have irqs0: "m \<in> board_irqs" if "Some m \<in> set ((riscv_irq_line p)[0 := Some MachineExternal])" for m
    using that set_update_subset_insert [of "riscv_irq_line p" 0 "Some MachineExternal"] by (auto simp: assms(4))
  obtain c3 p3 where c3: "set_plic_line host (length ?xs) MachineExternal 0 ?c2 = Some c3" "cpu_wf c3"
      "hart_inv M (\<lambda>ds. ds = ?xs @ [DevPlic p3]) c3" "plic_wf (host_bits host) p3" "lines_ok p3 (mip_lines c3)"
      "riscv_irq_line p3 = (replicate 16 None)[0 := Some MachineExternal]" "peripheral_irq_devices p3 = peripheral_irq_devices p"
    using connect_plic [OF i2 assms(3) _ first_line_ok [OF assms(3,4), of MachineExternal "mip_lines ?c2"] irqs0] by (auto simp: assms(4))
  have irqs: "m \<in> board_irqs" if "Some m \<in> set ((riscv_irq_line p3)[1 := Some SupervisorExternal])" for m
    using that set_update_subset_insert [of "riscv_irq_line p3" 1 "Some SupervisorExternal"]
      set_update_subset_insert [of "replicate 16 None" 0 "Some MachineExternal"] by (auto simp: c3(6))
  obtain c4 p4 where "set_plic_line host (length ?xs) SupervisorExternal 1 c3 = Some c4" "cpu_wf c4"
      "hart_inv M (\<lambda>ds. ds = ?xs @ [DevPlic p4]) c4" "plic_wf (host_bits host) p4"
      "riscv_irq_line p4 = (riscv_irq_line p3)[1 := Some SupervisorExternal]" "peripheral_irq_devices p4 = peripheral_irq_devices p3"
      "lines_ok p4 (mip_lines c4)"
    using connect_plic [OF c3(2-4) _ second_line_ok [OF c3(4,6,5)] irqs] by auto
  then show ?thesis using c1(1) c2(1) c3(1,6,7) cl
    by (intro exI [of _ c4] exI [of _ ?cl] exI [of _ p4]) (simp add: register_rv_interrupt_def numeral_eq_Suc)
qed

section \<open>The board\<close>

lemma write_regs_ok:
  "cpu_wf c \<Longrightarrow> write_regs rs c = Some c' \<Longrightarrow> cpu_wf c' \<and> memory c' = memory c"
proof (induction rs c rule: write_regs.induct)
  case (2 i v rs c)
  then obtain c1 where c1: "write_reg i v c = Some (Ok (), c1)" "write_regs rs c1 = Some c'"
    by (auto simp: bind_eq_Some_conv write_reg_def)
  have "cpu_wf c1" by (rule keepsD [OF keeps_cpu_wf [OF keeps_write_reg] "2.prems"(1) c1(1)])
  moreover have "memory c1 = memory c" using c1(1) by (auto simp: write_reg_def)
  ultimately show ?case using "2.IH" [OF c1(1) refl] c1(2) by simp
qed simp

text \<open>The kinds of the devices of a board, in the order of their handles, and its memory map.\<close>

definition board_kinds :: "('b, 'q, 'o, 'ch, 'f) RVBoardBuilder \<Rightarrow> device_kind list" where
  "board_kinds b = map kind (arena_builder b) @ [KClint, KPlic]"

lemma built_devices_ok:
  assumes "builder_ok host b" "clint_local 0 cl" "plic_wf (host_bits host) p"
    and "riscv_irq_line p = [Some MachineExternal, Some SupervisorExternal] @ replicate 14 None"
    and "peripheral_irq_devices p = peripheral_irq_devices (builder_plic b)"
  shows "devices_ok host (board_kinds b) 0 (arena_builder b @ [DevClint cl, DevPlic p])"
proof -
  have "plic_wired (board_kinds b) p"
    using assms(1,4,5) by (auto simp: plic_wired_def builder_ok_def board_kinds_def nth_append)
  then show ?thesis using assms by (auto simp: devices_ok_def board_kinds_def builder_ok_def)
qed

definition board_map :: "('b, 'q, 'o, 'ch, 'f) RVBoardBuilder \<Rightarrow> MemoryMapItem list" where
  "board_map b = sort_key item_start
     (mmio_items b @ [\<lparr>item_start = fst (the (clint_mmio b)), item_size = snd (the (clint_mmio b)), item_device = length (arena_builder b)\<rparr>,
                      \<lparr>item_start = fst (the (plic_mmio b)), item_size = snd (the (plic_mmio b)), item_device = Suc (length (arena_builder b))\<rparr>])"

lemma build_ok:
  assumes "builder_ok host b" "build host extensions units b = Some board" "extensions \<le> mask 25"
  shows "board_inv host (board_map b) (board_kinds b) 0 board \<and> status board = Running
     \<and> (\<exists>p. arena_of (cpu board) ! plic board = DevPlic p \<and> peripheral_irq_devices p = peripheral_irq_devices (builder_plic b)
          \<and> lines_ok p (mip_lines (cpu board)))"
proof -
  obtain clint_base clint_size plic_base plic_size io c0 c1 c2 where cm: "clint_mmio b = Some (clint_base, clint_size)"
      "plic_mmio b = Some (plic_base, plic_size)" and e:
      "from_decoder extensions units (from_ram_and_mmio io) = Some c0" "write_regs (initial_registers b) c0 = Some c1"
      "register_rv_interrupt host (length (arena_builder b)) (Suc (length (arena_builder b))) clint_base c1 = Some c2"
      "board = \<lparr>cpu = c2, clint = length (arena_builder b), plic = Suc (length (arena_builder b)), status = Running\<rparr>"
      "io = from_mmio_items (ram_ref b)
         \<lparr>arena_devices = arena_builder b @ [DevClint (Clint_new 1 0 0xBFF8 0x4000 0 Timer_new), DevPlic (builder_plic b)]\<rparr>
         (mmio_items b @ [\<lparr>item_start = clint_base, item_size = clint_size, item_device = length (arena_builder b)\<rparr>,
                          \<lparr>item_start = plic_base, item_size = plic_size, item_device = Suc (length (arena_builder b))\<rparr>])"
    using assms(2) by (auto simp: build_def Let_def bind_eq_Some_conv)
  have "cpu_wf c0" using from_decoder_wf [OF e(1) assms(3)] e(5) by (simp add: from_mmio_items_def)
  then have c1: "cpu_wf c1" "memory c1 = memory c0" using write_regs_ok [OF _ e(2)] by auto
  have mem: "memory c0 = from_ram_and_mmio io" using e(1) by (auto simp: from_decoder_def Let_def bind_eq_Some_conv)
  have inv: "hart_inv (mmio_map io) (\<lambda>ds. ds = arena_builder b @ [DevClint (Clint_new 1 0 0xBFF8 0x4000 0 Timer_new), DevPlic (builder_plic b)]) c1"
    by (simp add: hart_inv_def arena_inv_def c1(2) mem from_ram_and_mmio_def) (simp add: e(5) from_mmio_items_def)
  have M: "mmio_map io = board_map b" by (simp add: e(5) from_mmio_items_def board_map_def cm)
  have p: "plic_wf (host_bits host) (builder_plic b)" "riscv_irq_line (builder_plic b) = replicate 16 None"
    using assms(1) by (auto simp: builder_ok_def)
  obtain cl p' where c2: "cpu_wf c2" "hart_inv (mmio_map io) (\<lambda>ds. ds = arena_builder b @ [DevClint cl, DevPlic p']) c2"
      "devices_ok host (board_kinds b) 0 (arena_builder b @ [DevClint cl, DevPlic p'])"
      "peripheral_irq_devices p' = peripheral_irq_devices (builder_plic b)" "lines_ok p' (mip_lines c2)"
    using register_interrupts_ok [OF c1(1) inv p, of clint_base] e(3) built_devices_ok [OF assms(1)] by auto
  have items: "\<forall>item \<in> set (mmio_map io). item_device item < length (board_kinds b)"
    using assms(1) by (auto simp: e(5) from_mmio_items_def builder_ok_def board_kinds_def less_Suc_eq)
  have "hart_inv (mmio_map io) (devices_ok host (board_kinds b) 0) c2" using c2(2,3) by (auto simp: hart_inv_def arena_inv_def)
  moreover have "\<forall>h < length (board_kinds b). board_kinds b ! h = KClint \<longrightarrow> h = length (arena_builder b)"
    using assms(1) by (auto simp: board_kinds_def builder_ok_def nth_append nth_Cons split: nat.splits)
  ultimately have "board_inv host (mmio_map io) (board_kinds b) 0 board"
    using c2(1) items by (simp add: board_inv_def e(4)) (simp add: board_kinds_def nth_append)
  moreover have "arena_of c2 ! Suc (length (arena_builder b)) = DevPlic p'" using hart_inv_arena [OF c2(2)] by (simp add: nth_append)
  ultimately show ?thesis using c2(4,5) by (auto simp: e(4) M)
qed

section \<open>Addresses and interrupt numbers\<close>

text \<open>What the builder holds after the power manager, the UART and \<open>k\<close> disks.\<close>

definition source_table :: "nat \<Rightarrow> ErasedDeviceHandle option list" where
  "source_table k = map (\<lambda>i. if 1 \<le> i \<and> i \<le> k then Some (i + 1) else if i = 10 then Some 1 else None) [0..<VIRT_MAX_INTERRUPTS]"

definition disk_items :: "nat \<Rightarrow> MemoryMapItem list" where
  "disk_items k = map (\<lambda>j. \<lparr>item_start = VIRTIO_MMIO_BASE + of_nat j * VIRTIO_MMIO_SIZE, item_size = VIRTIO_MMIO_SIZE, item_device = j + 2\<rparr>) [0..<k]"

definition layout_after :: "nat \<Rightarrow> ('b, 'q, 'o, 'ch, 'f) RVBoardBuilder \<Rightarrow> bool" where
  "layout_after k b \<longleftrightarrow> length (arena_builder b) = k + 2 \<and> peripheral_irq_devices (builder_plic b) = source_table k
     \<and> id_allocators b TypeVirtio =
         (if k = 0 then None
          else Some \<lparr>next_id = of_nat k, device_name = ''D'', mem_base = VIRTIO_MMIO_BASE, mem_size = VIRTIO_MMIO_SIZE, irq_base = Some VIRTIO_IRQ_BASE\<rparr>)
     \<and> mmio_items b = [\<lparr>item_start = POWER_MANAGER_BASE, item_size = 0x1000, item_device = 0\<rparr>,
         \<lparr>item_start = UART_BASE, item_size = UART_SIZE, item_device = 1\<rparr>] @ disk_items k"

lemma source_table_Suc: "k < 63 \<Longrightarrow> (source_table k)[Suc k := Some (k + 2)] = source_table (Suc k)"
  by (rule nth_equalityI) (auto simp: source_table_def nth_list_update le_Suc_eq)

lemma add_disk_layout:
  assumes "layout_after k b" "sz mod 512 = 0" "k \<le> 63"
  shows "if k < 63 then \<exists>b'. add_virtio_device (sz, ch, f) b = Some b' \<and> layout_after (Suc k) b' else add_virtio_device (sz, ch, f) b = None"
proof -
  have u: "unat (1 + ucast (of_nat k :: u64) :: u32) = Suc k" if "k < 64"
    using that by (simp add: unat_word_ariths unsigned_of_nat unsigned_ucast_eq take_bit_eq_mod)
  show ?thesis
  proof (cases "k < 63")
    case True
    have reg: "register_device (length (arena_builder b)) (1 + ucast (of_nat k :: u64)) (builder_plic b)
        = Some ((builder_plic b)\<lparr>peripheral_irq_devices := source_table (Suc k)\<rparr>)"
      using assms(1) True u source_table_Suc [OF True]
      by (auto simp: register_device_def is_valid_interrupt_id_def layout_after_def upd_opt_def source_table_def)
    show ?thesis using True reg assms(1,2)
      by (cases "k = 0") (auto simp: add_virtio_device_def add_plic_device_def Let_def IdAllocator_new_def IdAllocator_get_def
          add_plain_mmio_device_def layout_after_def disk_items_def add.commute)
  next
    case False
    then have "k = 63" using assms(3) by simp
    moreover from this have "register_device (length (arena_builder b)) (1 + ucast (of_nat k :: u64)) (builder_plic b) = None"
      using u by (simp add: register_device_def is_valid_interrupt_id_def)
    ultimately show ?thesis using assms(1,2)
      by (auto simp: add_virtio_device_def add_plic_device_def Let_def IdAllocator_get_def layout_after_def)
  qed
qed

lemma add_disks_layout:
  assumes "layout_after k b" "\<forall>(sz, _, _) \<in> set configs. sz mod 512 = 0"
  shows "if k + length configs \<le> 63 then \<exists>b'. add_virtio_devices configs b = Some b' \<and> layout_after (k + length configs) b'
         else k \<le> 63 \<longrightarrow> add_virtio_devices configs b = None"
  using assms
proof (induction configs arbitrary: k b)
  case (Cons config configs)
  obtain sz ch f where c: "config = (sz, ch, f)" "sz mod 512 = 0" using Cons.prems(2) by (cases config) auto
  show ?case
  proof (cases "k < 63")
    case True
    then obtain b1 where b1: "add_virtio_device config b = Some b1" "layout_after (Suc k) b1"
      using add_disk_layout [OF Cons.prems(1) c(2), of ch f] c(1) by auto
    then show ?thesis using Cons.IH [OF b1(2)] Cons.prems(2) True by auto
  next
    case False
    then show ?thesis using add_disk_layout [OF Cons.prems(1) c(2), of ch f] c(1) by auto
  qed
qed simp

lemma from_decoder_total:
  assumes "extensions \<le> mask 25"
  shows "\<exists>c. from_decoder extensions units vm = Some c \<and> length (reg_file c) = REGFILE_CNT"
proof -
  have "csr_wf (CsrRegFile_new\<lparr>ctx := (ctx CsrRegFile_new)\<lparr>extension := extensions\<rparr>\<rparr>)"
    using csr_wf_new by (simp add: csr_wf_def)
  moreover have "(2 :: u64) \<le> mask 2" by (simp add: mask_eq_exp_minus_1 word_le_nat_alt)
  ultimately show ?thesis using assms by (simp add: from_decoder_def Let_def csr_simps RegFile_new_def)
qed

lemma write_regs_total:
  "length (reg_file c) = REGFILE_CNT \<Longrightarrow> \<forall>(i, v) \<in> set rs. i < 32 \<Longrightarrow> \<exists>c'. write_regs rs c = Some c'"
  by (induction rs c rule: write_regs.induct)
    (auto simp: write_reg_def RegFile_write_def REGFILE_CNT_def word_less_nat_alt)

lemma build_total:
  assumes "builder_ok host b" "clint_mmio b \<noteq> None" "plic_mmio b \<noteq> None" "extensions \<le> mask 25"
    and "\<forall>(i, v) \<in> set (initial_registers b). i < 32"
  shows "build host extensions units b \<noteq> None"
proof -
  let ?a = "arena_builder b"
  define io where "io = (\<lambda>cb cs pb ps. from_mmio_items (ram_ref b)
     \<lparr>arena_devices = ?a @ [DevClint (Clint_new 1 0 0xBFF8 0x4000 0 Timer_new), DevPlic (builder_plic b)]\<rparr>
     (mmio_items b @ [\<lparr>item_start = cb, item_size = cs, item_device = length ?a\<rparr>,
                      \<lparr>item_start = pb, item_size = ps, item_device = Suc (length ?a)\<rparr>]))"
  obtain cb cs pb ps where m: "clint_mmio b = Some (cb, cs)" "plic_mmio b = Some (pb, ps)" using assms(2,3) by auto
  let ?vm = "from_ram_and_mmio (io cb cs pb ps)"
  obtain c0 where c0: "from_decoder extensions units ?vm = Some c0" "length (reg_file c0) = REGFILE_CNT"
    using from_decoder_total [OF assms(4), of units ?vm] by (elim exE conjE) (rule that)
  obtain c1 where c1: "write_regs (initial_registers b) c0 = Some c1" using write_regs_total [OF c0(2) assms(5)] by blast
  have "cpu_wf c0" using from_decoder_wf [OF c0(1) assms(4)] by (simp add: io_def from_mmio_items_def)
  then have wf: "cpu_wf c1" "memory c1 = memory c0" using write_regs_ok [OF _ c1] by auto
  have mem: "memory c0 = ?vm" using c0(1) by (auto simp: from_decoder_def Let_def bind_eq_Some_conv)
  have inv: "hart_inv (mmio_map (io cb cs pb ps))
      (\<lambda>ds. ds = ?a @ [DevClint (Clint_new 1 0 0xBFF8 0x4000 0 Timer_new), DevPlic (builder_plic b)]) c1"
    by (simp add: hart_inv_def arena_inv_def wf(2) mem from_ram_and_mmio_def) (simp add: io_def from_mmio_items_def)
  have "\<exists>c2. register_rv_interrupt host (length ?a) (Suc (length ?a)) cb c1 = Some c2"
    using register_interrupts_ok [OF wf(1) inv, of host cb] assms(1) by (auto simp: builder_ok_def)
  then show ?thesis using m c0(1) c1 by (auto simp: build_def Let_def io_def)
qed

definition started_builder ::
  "('b, 'q, 'o, 'ch, 'f) board_host \<Rightarrow> Ram \<Rightarrow> ('q, 'o, 'ch, 'f) VirtBoardConfig \<Rightarrow> ('b, 'q, 'o, 'ch, 'f) RVBoardBuilder" where
  "started_builder host r config =
     (add_plain_mmio_device (DevPower PowerManager_new) POWER_MANAGER_BASE 0x1000
        ((RVBoardBuilder_new host r)\<lparr>initial_registers := config_registers config\<rparr>))
       \<lparr>clint_mmio := Some (CLINT_BASE, 0x10000), plic_mmio := Some (PLIC_BASE, 0x4000000)\<rparr>"

lemma from_ram_with_eq:
  assumes "load_images (memory_images config) r = Ok r'"
  shows "from_ram_with host extensions units r config =
    do { b \<leftarrow> add_uart (fst (uart_ends config)) (snd (uart_ends config)) (started_builder host r' config);
         b \<leftarrow> add_virtio_devices (virtio_devices config) b;
         board \<leftarrow> build host extensions units b;
         Some (Ok board) }"
  using assms by (simp add: from_ram_with_def started_builder_def)

lemma add_uart_layout:
  assumes "bitset_laws (host_bits host)"
  shows "\<exists>b. add_uart rx tx (started_builder host r config) = Some b \<and> builder_ok host b \<and> layout_after 0 b
     \<and> initial_registers b = config_registers config \<and> clint_mmio b = Some (CLINT_BASE, 0x10000) \<and> plic_mmio b = Some (PLIC_BASE, 0x4000000)
     \<and> map kind (arena_builder b) = [KPower, KUart]"
proof -
  have t: "(replicate 64 None)[10 := Some 1] = source_table 0"
    by (rule nth_equalityI) (auto simp: source_table_def nth_list_update)
  have v: "is_valid_interrupt_id 10" by (simp add: is_valid_interrupt_id_def)
  have "\<exists>b. add_uart rx tx (started_builder host r config) = Some b \<and> layout_after 0 b \<and> initial_registers b = config_registers config
     \<and> clint_mmio b = Some (CLINT_BASE, 0x10000) \<and> plic_mmio b = Some (PLIC_BASE, 0x4000000) \<and> map kind (arena_builder b) = [KPower, KUart]"
    using t v
    by (simp add: add_uart_def add_plic_device_def Let_def started_builder_def add_plain_mmio_device_def RVBoardBuilder_new_def
        IdAllocator_new_def IdAllocator_get_def register_device_def PLIC_new_def upd_opt_def layout_after_def disk_items_def)
  then obtain b where b: "add_uart rx tx (started_builder host r config) = Some b" "layout_after 0 b" "initial_registers b = config_registers config"
      "clint_mmio b = Some (CLINT_BASE, 0x10000)" "plic_mmio b = Some (PLIC_BASE, 0x4000000)" "map kind (arena_builder b) = [KPower, KUart]"
    by (elim exE conjE) (rule that)
  have "builder_ok host (started_builder host r config)"
    using builder_new_ok [OF assms] by (simp add: started_builder_def add_plain_ok)
  then have "builder_ok host b" using add_plic_device_ok [OF _ _ _ b(1) [unfolded add_uart_def]] by simp
  then show ?thesis using b by simp
qed

lemma add_virtio_devices_frame:
  "add_virtio_devices configs b = Some b' \<Longrightarrow>
     initial_registers b' = initial_registers b \<and> map kind (arena_builder b') = map kind (arena_builder b) @ replicate (length configs) KVirtio"
proof (induction configs b rule: add_virtio_devices.induct)
  case (2 config configs b)
  then obtain b1 where b1: "add_virtio_device config b = Some b1" "add_virtio_devices configs b1 = Some b'"
    by (auto simp: bind_eq_Some_conv)
  have "initial_registers b1 = initial_registers b \<and> map kind (arena_builder b1) = map kind (arena_builder b) @ [KVirtio]"
    using b1(1) by (auto simp: add_virtio_device_def add_plic_device_def add_plain_mmio_device_def Let_def bind_eq_Some_conv
        split: if_splits prod.splits)
  then show ?case using "2.IH" [OF b1(1)] b1(2) by simp
qed simp

definition virt_map :: "nat \<Rightarrow> MemoryMapItem list" where
  "virt_map n = sort_key item_start
     ([\<lparr>item_start = POWER_MANAGER_BASE, item_size = 0x1000, item_device = 0\<rparr>,
       \<lparr>item_start = UART_BASE, item_size = UART_SIZE, item_device = 1\<rparr>] @ disk_items n
      @ [\<lparr>item_start = CLINT_BASE, item_size = 0x10000, item_device = n + 2\<rparr>,
         \<lparr>item_start = PLIC_BASE, item_size = 0x4000000, item_device = n + 3\<rparr>])"

definition virt_kinds :: "nat \<Rightarrow> device_kind list" where
  "virt_kinds n = [KPower, KUart] @ replicate n KVirtio @ [KClint, KPlic]"

lemma from_ram_with_ok:
  assumes "from_ram_with host extensions units r config = Some (Ok board)" "extensions \<le> mask 25" "bitset_laws (host_bits host)"
  shows "\<exists>M K. board_inv host M K 0 board"
proof -
  obtain r' where r': "load_images (memory_images config) r = Ok r'"
    using assms(1) by (auto simp: from_ram_with_def split: result.splits)
  obtain b where b: "add_uart (fst (uart_ends config)) (snd (uart_ends config)) (started_builder host r' config) = Some b" "builder_ok host b"
    using add_uart_layout [OF assms(3), of "fst (uart_ends config)" "snd (uart_ends config)" r' config] by (elim exE conjE) (rule that)
  obtain b2 where e: "add_virtio_devices (virtio_devices config) b = Some b2" "build host extensions units b2 = Some board"
    using assms(1) from_ram_with_eq [OF r', of host extensions units] b(1) by (auto simp: bind_eq_Some_conv)
  have "builder_ok host b2" using add_virtio_devices_ok [OF b(2) e(1)] by simp
  from build_ok [OF this e(2) assms(2)] show ?thesis by blast
qed

lemma virt_built:
  assumes "bitset_laws (host_bits host)" "extensions \<le> mask 25" "load_images (memory_images config) r = Ok r'"
    and "\<forall>(sz, _, _) \<in> set (virtio_devices config). sz mod 512 = 0" "n = length (virtio_devices config)"
    and "from_ram_with host extensions units r config = Some res"
  shows "n \<le> 63 \<and> (\<exists>board p. res = Ok board \<and> board_inv host (virt_map n) (virt_kinds n) 0 board \<and> status board = Running
     \<and> arena_of (cpu board) ! plic board = DevPlic p \<and> peripheral_irq_devices p = source_table n
     \<and> lines_ok p (mip_lines (cpu board)))"
proof -
  obtain b where b: "add_uart (fst (uart_ends config)) (snd (uart_ends config)) (started_builder host r' config) = Some b" "builder_ok host b"
      "layout_after 0 b" "clint_mmio b = Some (CLINT_BASE, 0x10000)" "plic_mmio b = Some (PLIC_BASE, 0x4000000)"
      "map kind (arena_builder b) = [KPower, KUart]"
    using add_uart_layout [OF assms(1), of "fst (uart_ends config)" "snd (uart_ends config)" r' config] by (elim exE conjE) (rule that)
  obtain b2 board where e: "add_virtio_devices (virtio_devices config) b = Some b2" "build host extensions units b2 = Some board" "res = Ok board"
    using assms(6) from_ram_with_eq [OF assms(3), of host extensions units] b(1) by (auto simp: bind_eq_Some_conv)
  have n: "n \<le> 63" and l2: "layout_after n b2" using add_disks_layout [OF b(3) assms(4)] e(1) assms(5) by (auto split: if_splits)
  have b2: "builder_ok host b2" "clint_mmio b2 = Some (CLINT_BASE, 0x10000)" "plic_mmio b2 = Some (PLIC_BASE, 0x4000000)"
    using add_virtio_devices_ok [OF b(2) e(1)] b(4,5) by auto
  have "board_map b2 = virt_map n" using l2 b2(2,3) by (simp add: board_map_def virt_map_def layout_after_def numeral_3_eq_3)
  moreover have "board_kinds b2 = virt_kinds n"
    using add_virtio_devices_frame [OF e(1)] b(6) assms(5) by (simp add: board_kinds_def virt_kinds_def)
  ultimately show ?thesis using build_ok [OF b2(1) e(2) assms(2)] e(3) n l2 by (auto simp: layout_after_def)
qed

lemma from_ram_with_total:
  assumes "bitset_laws (host_bits host)" "extensions \<le> mask 25" "load_images (memory_images config) r = Ok r'"
    and "\<forall>(sz, _, _) \<in> set (virtio_devices config). sz mod 512 = 0" "length (virtio_devices config) \<le> 63"
    and "\<forall>(i, v) \<in> set (config_registers config). i < 32"
  shows "from_ram_with host extensions units r config \<noteq> None"
proof -
  obtain b where b: "add_uart (fst (uart_ends config)) (snd (uart_ends config)) (started_builder host r' config) = Some b" "builder_ok host b"
      "layout_after 0 b" "initial_registers b = config_registers config" "clint_mmio b = Some (CLINT_BASE, 0x10000)"
      "plic_mmio b = Some (PLIC_BASE, 0x4000000)"
    using add_uart_layout [OF assms(1), of "fst (uart_ends config)" "snd (uart_ends config)" r' config] by (elim exE conjE) (rule that)
  obtain b2 where b2: "add_virtio_devices (virtio_devices config) b = Some b2" using add_disks_layout [OF b(3) assms(4)] assms(5) by auto
  have "build host extensions units b2 \<noteq> None"
    by (rule build_total) (use add_virtio_devices_ok [OF b(2) b2] add_virtio_devices_frame [OF b2] assms(2,6) b(4-6) in auto)
  then show ?thesis using from_ram_with_eq [OF assms(3), of host extensions units] b(1) b2 by auto
qed

text \<open>A board with one disk of two sectors, and a hart without further extensions.\<close>

definition demo_host :: "(nat list, u8 list, u8 list, unit, nat \<Rightarrow> u8) board_host" where
  "demo_host = \<lparr>host_bits = list_bitset, host_uart = list_channels, host_blk = example_host\<rparr>"

definition demo_env :: "((nat list, u8 list, u8 list, unit, nat \<Rightarrow> u8) VirtDevice, unit) hart_env" where
  "demo_env = \<lparr>env_ops = virt_device_ops demo_host, env_ext = (\<lambda>_. exec_illegal), env_decode = (\<lambda>_. None)\<rparr>"

definition demo_config :: "(u8 list, u8 list, unit, nat \<Rightarrow> u8) VirtBoardConfig" where
  "demo_config = \<lparr>virtio_devices = [(1024, (), \<lambda>_. 0)], memory_images = [], config_registers = [(10, 7)], uart_ends = ([], [])\<rparr>"

lemma demo_fits: "env_fits demo_host demo_env"
proof -
  have "ext_ok (env_ext demo_env)" unfolding ext_ok_def demo_env_def by (simp add: keeps_env)
  then show ?thesis by (simp add: env_fits_def ext_keeps_def demo_env_def keeps_def exec_illegal_def ret_err_def)
qed

lemma demo_premises:
  "bitset_laws (host_bits demo_host)" "(0x1105 :: u64) \<le> mask 25" "load_images (memory_images demo_config) r = Ok r"
  "\<forall>(sz, _, _) \<in> set (virtio_devices demo_config). sz mod 512 = 0" "length (virtio_devices demo_config) = 1"
  "\<forall>(i, v) \<in> set (config_registers demo_config). i < 32"
  by (simp_all add: demo_host_def demo_config_def list_bitset_laws mask_eq_exp_minus_1 word_le_nat_alt)

lemma demo_built:
  "\<exists>board p. from_ram_with demo_host 0x1105 () (Ram_new 0) demo_config = Some (Ok board)
     \<and> board_inv demo_host (virt_map 1) (virt_kinds 1) 0 board \<and> status board = Running
     \<and> arena_of (cpu board) ! plic board = DevPlic p \<and> peripheral_irq_devices p = source_table 1
     \<and> lines_ok p (mip_lines (cpu board))"
proof -
  have "from_ram_with demo_host 0x1105 () (Ram_new 0) demo_config \<noteq> None"
    by (rule from_ram_with_total [OF demo_premises(1-4) _ demo_premises(6)]) (simp add: demo_premises(5))
  then obtain res where res: "from_ram_with demo_host 0x1105 () (Ram_new 0) demo_config = Some res" by blast
  show ?thesis using virt_built [OF demo_premises(1-4) demo_premises(5) [symmetric] res] res by auto
qed

text \<open>
  C14.  For a configuration whose images load, whose disk sizes are multiples of 512 and whose register numbers are
  below 32, \<open>from_ram_with\<close> builds a board exactly when at most 63 disks are asked for: the power manager, the UART, the
  disks, the CLINT and the PLIC get the handles, addresses and sources of the platform, and the board satisfies
  its invariant, with the lines of the PLIC at the levels that the hart sees.  The disks take the sources from 1 on, so the tenth replaces the UART at source 10.
\<close>

theorem board_layout:
  assumes "bitset_laws (host_bits host)" "extensions \<le> mask 25" "load_images (memory_images config) r = Ok r'"
    and "\<forall>(sz, _, _) \<in> set (virtio_devices config). sz mod 512 = 0" "n = length (virtio_devices config)"
    and "\<forall>(i, v) \<in> set (config_registers config). i < 32"
  shows "if n \<le> 63 then
      \<exists>board p. from_ram_with host extensions units r config = Some (Ok board)
        \<and> board_inv host (virt_map n) (virt_kinds n) 0 board \<and> status board = Running
        \<and> arena_of (cpu board) ! plic board = DevPlic p \<and> peripheral_irq_devices p = source_table n
        \<and> (Some 1 \<in> set (peripheral_irq_devices p) \<longleftrightarrow> n < 10) \<and> lines_ok p (mip_lines (cpu board))
    else from_ram_with host extensions units r config = None"
proof (cases "from_ram_with host extensions units r config")
  case None
  then show ?thesis using from_ram_with_total [OF assms(1-4) _ assms(6), of units] assms(5) by auto
next
  case (Some res)
  have "Some 1 \<in> set (source_table n) \<longleftrightarrow> n < 10" by (auto simp: source_table_def image_iff)
  then show ?thesis using virt_built [OF assms(1-5) Some] Some by auto
qed

theorem board_layout_witness:
  "\<exists>board. from_ram_with demo_host 0x1105 () (Ram_new 0) demo_config = Some (Ok board) \<and> status board = Running"
  using board_layout [OF demo_premises(1-4) demo_premises(5) [symmetric] demo_premises(6), of "()" "Ram_new 0"]
  by auto

section \<open>The life of a board\<close>

text \<open>
  After it is built a board runs batches; between them bytes arrive for the UART and the worker threads of the disks
  finish requests.
\<close>

definition replace_devices ::
  "('b, 'q, 'o, 'ch, 'f) VirtDevice list \<Rightarrow> Ram \<Rightarrow> ('b, 'q, 'o, 'ch, 'f, 'x) VirtBoard \<Rightarrow> ('b, 'q, 'o, 'ch, 'f, 'x) VirtBoard" where
  "replace_devices ds r b =
     (let c = cpu b; vm = memory c; io = mmio vm in
      b\<lparr>cpu := c\<lparr>memory := vm\<lparr>mmio := io\<lparr>ram := r, devices := map_option (\<lambda>a. a\<lparr>arena_devices := ds\<rparr>) (devices io)\<rparr>\<rparr>\<rparr>\<rparr>)"

inductive board_reachable ::
  "('b, 'q, 'o, 'ch, 'f) board_host \<Rightarrow> (('b, 'q, 'o, 'ch, 'f) VirtDevice, 'x) hart_env \<Rightarrow> ('b, 'q, 'o, 'ch, 'f, 'x) VirtBoard \<Rightarrow> bool"
  for host env where
  board_built: "extensions \<le> mask 25 \<Longrightarrow> from_ram_with host extensions units r config = Some (Ok b) \<Longrightarrow> board_reachable host env b"
| board_ran: "board_reachable host env b \<Longrightarrow> board_step_batch env host n b = Some (result, b') \<Longrightarrow> board_reachable host env b'"
| board_input: "board_reachable host env b \<Longrightarrow> nth_opt (arena_of (cpu b)) h = Some (DevUart u)
    \<Longrightarrow> board_reachable host env (replace_devices ((arena_of (cpu b))[h := DevUart (u\<lparr>input_rx := q\<rparr>)]) (ram (mmio (memory (cpu b)))) b)"
| board_worker: "board_reachable host env b \<Longrightarrow> nth_opt (arena_of (cpu b)) h = Some (DevVirtio m)
    \<Longrightarrow> ch_recv (host_blk host) (blk_channel (vdev m)) = (Some task, ch)
    \<Longrightarrow> run_task (host_blk host) task ((vdev m)\<lparr>blk_channel := ch\<rparr>, ram (mmio (memory (cpu b)))) = Some (d, r)
    \<Longrightarrow> board_reachable host env (replace_devices ((arena_of (cpu b))[h := DevVirtio (m\<lparr>vdev := d\<rparr>)]) r b)"

lemma replace_devices_ok:
  assumes "board_inv host M K C b" "devices_ok host K C ds"
  shows "board_inv host M K C (replace_devices ds r b)"
proof -
  obtain a where "devices (mmio (memory (cpu b))) = Some a" "mmio_map (mmio (memory (cpu b))) = M"
    using assms(1) by (auto simp: board_inv_def hart_inv_def arena_inv_def)
  then show ?thesis using assms by (simp add: board_inv_def replace_devices_def Let_def hart_inv_def arena_inv_def cpu_wf_def)
qed

lemma complete_request_queue: "complete_request c st n (d, r) = Some (d', r') \<Longrightarrow> blk_queue d' = blk_queue d"
  by (auto simp: complete_request_def bind_eq_Some_conv)

lemma run_task_queue: "run_task host task (d, r) = Some (d', r') \<Longrightarrow> blk_queue d' = blk_queue d"
  by (cases task) (auto simp: bind_eq_Some_conv dest: complete_request_queue split: prod.splits)

lemma panics_None: "hart_panics env host n b \<Longrightarrow> status b = Running \<Longrightarrow> board_step_batch env host n b = None"
  by (auto simp: hart_panics_def board_step_batch_def execute_cpu_batch_def)

text \<open>
  C2.  Whatever the guest does and whenever input arrives or a disk finishes, the board keeps its invariant: the hart
  stays well formed, the devices keep their places in the memory map, the CLINT its one timer, the PLIC its tables and
  its two lines, and every source of the PLIC can be asked for its level.  So the next batch can be prepared.
\<close>

theorem board_invariant:
  assumes "env_fits host env" "bitset_laws (host_bits host)" "board_reachable host env b"
  shows "\<exists>M K C. board_inv host M K C b \<and> prepare_cpu_batch host b \<noteq> None"
proof -
  have "\<exists>M K C. board_inv host M K C b" using assms(3)
  proof induction
    case (board_built extensions units r config b)
    from from_ram_with_ok [OF board_built(2,1) assms(2)] show ?case by blast
  next
    case (board_ran b n result b')
    then obtain M K C where inv: "board_inv host M K C b" by blast
    show ?case
    proof (cases "status b")
      case Running
      have "\<not> hart_panics env host n b" using panics_None [OF _ Running] board_ran(2) by fastforce
      then have "board_inv host M K (C + n) b'" using board_step_batch_ok [OF assms(1) inv Running, of n] board_ran(2) by auto
      then show ?thesis by blast
    qed (use board_ran(2) inv in \<open>auto simp: board_step_batch_def execute_cpu_batch_def\<close>)
  next
    case (board_input b h u q)
    then obtain M K C where inv: "board_inv host M K C b" by blast
    then have ok: "devices_ok host K C (arena_of (cpu b))" using hart_inv_arena by (auto simp: board_inv_def)
    have "devices_ok host K C ((arena_of (cpu b))[h := DevUart (u\<lparr>input_rx := q\<rparr>)])"
      by (rule devices_ok_update [OF ok board_input(2)]) simp_all
    from replace_devices_ok [OF inv this] show ?case by blast
  next
    case (board_worker b h m task ch d r)
    then obtain M K C where inv: "board_inv host M K C b" by blast
    then have ok: "devices_ok host K C (arena_of (cpu b))" using hart_inv_arena by (auto simp: board_inv_def)
    have "local_ok host C K (DevVirtio (m\<lparr>vdev := d\<rparr>))"
      using devices_okD(1) [OF ok board_worker(2)] run_task_queue [OF board_worker(4)] by simp
    then have "devices_ok host K C ((arena_of (cpu b))[h := DevVirtio (m\<lparr>vdev := d\<rparr>)])"
      by (intro devices_ok_update [OF ok board_worker(2)]) simp_all
    from replace_devices_ok [OF inv this] show ?case by blast
  qed
  then obtain M K C where inv: "board_inv host M K C b" by blast
  from prepare_ok [OF this] have "prepare_cpu_batch host b \<noteq> None" by (elim exE conjE) simp
  then show ?thesis using inv by blast
qed

theorem board_invariant_witness:
  "\<exists>b M K C. from_ram_with demo_host 0x1105 () (Ram_new 0) demo_config = Some (Ok b)
     \<and> board_inv demo_host M K C b \<and> prepare_cpu_batch demo_host b \<noteq> None"
proof -
  obtain b where b: "from_ram_with demo_host 0x1105 () (Ram_new 0) demo_config = Some (Ok b)" using demo_built by blast
  then show ?thesis using board_invariant [OF demo_fits demo_premises(1) board_built [OF demo_premises(2) b]] by blast
qed

section \<open>Interrupts and cycles\<close>

text \<open>
  C13.  Preparing a batch always succeeds and delivers the interrupts of the devices to the hart.  \<open>mtip\<close> is set when
  the timer of the CLINT is due and \<open>msip\<close> stays as it is.  The PLIC signals an interrupt to the machine and to the
  supervisor context exactly by its rules of notification, but it passes on changes only: \<open>meip\<close> and \<open>seip\<close> get the
  signalled level when that is not the level the PLIC drove last, and otherwise stay as they are, even if the guest
  has written \<open>mip\<close> since.  While the two bits have the levels that the PLIC drove last they are the signalled levels
  after the batch is prepared, and again the levels driven last.
\<close>

theorem batch_delivers_interrupts:
  assumes "board_inv host M K C b" "arena_of (cpu b) ! clint b = DevClint cl" "arena_of (cpu b) ! plic b = DevPlic p"
  shows "\<exists>b' p'. prepare_cpu_batch host b = Some b' \<and> board_inv host M K C b' \<and> arena_of (cpu b') ! plic b' = DevPlic p'
     \<and> mip_lines (cpu b') MachineTimer = (mip_lines (cpu b) MachineTimer \<or> deadline cl \<le> clock_now C)
     \<and> mip_lines (cpu b') MachineSoft = mip_lines (cpu b) MachineSoft
     \<and> mip_lines (cpu b') MachineExternal =
         (if riscv_irq_level p ! 0 = Some (notify (host_bits host) (layout p') 0) then mip_lines (cpu b) MachineExternal
          else notify (host_bits host) (layout p') 0)
     \<and> mip_lines (cpu b') SupervisorExternal =
         (if riscv_irq_level p ! 1 = Some (notify (host_bits host) (layout p') 1) then mip_lines (cpu b) SupervisorExternal
          else notify (host_bits host) (layout p') 1)
     \<and> (lines_ok p (mip_lines (cpu b)) \<longrightarrow>
          mip_lines (cpu b') MachineExternal = notify (host_bits host) (layout p') 0
          \<and> mip_lines (cpu b') SupervisorExternal = notify (host_bits host) (layout p') 1 \<and> lines_ok p' (mip_lines (cpu b')))"
proof -
  let ?w = "(mip_lines (cpu b))(MachineTimer := mip_lines (cpu b) MachineTimer \<or> deadline cl \<le> clock_now C)"
  have inv: "hart_inv M (devices_ok host K C) (cpu b)" "plic b < length K" "K ! plic b = KPlic" using assms(1) by (auto simp: board_inv_def)
  have wired: "plic_wired K p" using board_plic [OF hart_inv_arena [OF inv(1)] inv(2,3)] assms(3) by (metis VirtDevice.inject(3))
  then have "riscv_irq_line p ! c \<noteq> Some MachineTimer" if "c < 16" for c
    using that by (auto simp: plic_wired_def nth_append nth_Cons split: nat.splits)
  then have w: "lines_ok p ?w" if "lines_ok p (mip_lines (cpu b))" using that by (fastforce simp: lines_ok_def)
  obtain v where "lines_ok p v" using lines_exist [OF wired] by blast
  from prepare_step [OF assms this] obtain b' p' evs where
      b': "prepare_cpu_batch host b = Some b'" "board_inv host M K C b'" "plic b' = plic b" "arena_of (cpu b') ! plic b = DevPlic p'"
      "fst ` set evs \<subseteq> {MachineExternal, SupervisorExternal}" "mip_lines (cpu b') = drive evs ?w"
      "mip_lines (cpu b') MachineExternal =
         edge (riscv_irq_level p ! 0) (notify (host_bits host) (layout p') 0) (mip_lines (cpu b) MachineExternal)"
      "mip_lines (cpu b') SupervisorExternal =
         edge (riscv_irq_level p ! 1) (notify (host_bits host) (layout p') 1) (mip_lines (cpu b) SupervisorExternal)"
    by (elim exE conjE) (rule that)
  have "MachineTimer \<notin> fst ` set evs" "MachineSoft \<notin> fst ` set evs" using b'(5) by auto
  then have "drive evs ?w MachineTimer = ?w MachineTimer" "drive evs ?w MachineSoft = ?w MachineSoft"
    by (simp_all only: drive_other not_False_eq_True)
  moreover have "mip_lines (cpu b') MachineExternal = notify (host_bits host) (layout p') 0
      \<and> mip_lines (cpu b') SupervisorExternal = notify (host_bits host) (layout p') 1 \<and> lines_ok p' (mip_lines (cpu b'))"
    if "lines_ok p (mip_lines (cpu b))"
    using prepare_step [OF assms w [OF that]] b'(1,4) by (elim exE conjE) simp
  ultimately show ?thesis using b' by (intro exI [of _ b'] exI [of _ p']) (simp add: edge_def)
qed

theorem batch_delivers_interrupts_witness:
  "\<exists>b b' p'. from_ram_with demo_host 0x1105 () (Ram_new 0) demo_config = Some (Ok b) \<and> prepare_cpu_batch demo_host b = Some b'
     \<and> arena_of (cpu b') ! plic b' = DevPlic p' \<and> mip_lines (cpu b') MachineExternal = notify list_bitset (layout p') 0"
proof -
  obtain b p where b: "from_ram_with demo_host 0x1105 () (Ram_new 0) demo_config = Some (Ok b)"
      "board_inv demo_host (virt_map 1) (virt_kinds 1) 0 b" "arena_of (cpu b) ! plic b = DevPlic p" "lines_ok p (mip_lines (cpu b))"
    using demo_built by blast
  have inv: "hart_inv (virt_map 1) (devices_ok demo_host (virt_kinds 1) 0) (cpu b)" "clint b < length (virt_kinds 1)"
    "virt_kinds 1 ! clint b = KClint" using b(2) by (simp_all add: board_inv_def)
  obtain cl where "arena_of (cpu b) ! clint b = DevClint cl" by (rule board_clint [OF hart_inv_arena [OF inv(1)] inv(2,3)])
  from batch_delivers_interrupts [OF b(2) this b(3)] show ?thesis using b(1,4) by (auto simp: demo_host_def)
qed


inductive_cases batches_haltedE: "batches env host n e (b\<lparr>status := Halt\<rparr>) k b'"


end
