(* ===== verification/Spec2Isabelle.thy ===== *)
theory Spec2Isabelle
  imports InstrSpec DecoderSpec BoardBuild
begin

text \<open>
  A verification library for \<open>here\<close>, an emulator of a RISC-V board: one RV64 hart, its memory, and the devices of a
  \<open>virt\<close> platform.  All paths below are relative to the \<open>src\<close> directory of the crate.

  \<^bold>\<open>The program and its model.\<close>
  A board (\<open>board/virt.rs\<close>) owns a hart (\<open>isa/riscv/executor.rs\<close>).  The hart owns its registers, its control
  registers, a cache of decoded instructions and a memory manager; the memory manager owns the page table walker
  with its TLB and the memory map, and the memory map owns the RAM and an arena of devices.  A device talks to the hart by
  interrupt events only.  The board runs the hart in batches: before a batch it ticks the timer and refreshes the
  lines of the interrupt controller, after it it moves the virtual clock on and looks at the power manager.

  The model is a shallow embedding.  Structs are records, enums are datatypes, machine integers are words of their
  width, and every operation is a function on the state it changes.  It is the release build for 64 bits: arithmetic
  wraps and debug assertions are absent.  \<open>None\<close> stands for a panic, for undefined behaviour of unsafe code and,
  in the loops that are \<open>partial_function\<close>s (\<open>take_loop\<close>, \<open>drain_tasks\<close>, \<open>blk_notify\<close>, the \<open>drain\<close> of the UART and
  \<open>run_loop\<close> of the board), for not returning; where it matters the theorems tell the two apart.  Errors that the program returns are \<open>Err\<close> values.  A stateful operation that can fail is a
  \<open>('s, 'a, 'e) prog\<close>, a function from a state to an optional pair of a \<open>Result\<close> and a state.  Cells that the program shares by reference
  counting (the cycle counter, the timer, the power status) are fields of the device that owns them, and a raw
  pointer into guest memory is an offset into the RAM.

  \<^bold>\<open>Theories.\<close>
  \<^item> \<open>Prelude\<close>: machine integers, results and programs, little-endian bytes, the collection \<open>keeps_rules\<close> of
    invariant-preservation rules.
  \<^item> \<open>BitUtils\<close> (\<open>utils.rs\<close>): masks, sign extension, wrapping and alignment helpers.
  \<^item> \<open>Ram\<close> (\<open>ram.rs\<close>, \<open>config.rs\<close>): bytes, bounds and alignment, the reservation of LR/SC, image sections.
  \<^item> \<open>CsrTable\<close>, \<open>Csr\<close> (\<open>isa/riscv/csr_reg\<close>): the table that \<open>gen_csr_regfile!\<close> expands to, validators and shadow
    views, the privilege table, checked, unchecked and typed access.
  \<^item> \<open>Caches\<close> (\<open>isa/cache.rs\<close>): the locales \<open>cache_policy\<close> and \<open>exact_cache\<close> state what a cache promises; the
    direct-mapped cache of the program is an interpretation.
  \<^item> \<open>TrapCause\<close>, \<open>TrapController\<close> (\<open>isa/riscv/trap\<close>): causes, delegation, trap entry, \<open>mret\<close> and \<open>sret\<close>, interrupts.
  \<^item> \<open>PageTable\<close>, \<open>Mmio\<close>, \<open>Mmu\<close> (\<open>isa/riscv/mmu\<close>, \<open>device/mmio.rs\<close>, \<open>device/device_manager.rs\<close>): the walk, the TLB, permissions and
    the accessed and dirty policies; the memory map; access under a policy, atomics.
  \<^item> \<open>Alu\<close>, \<open>Instr\<close>, \<open>Cpu\<close>, \<open>Exec\<close>, \<open>Executor\<close> (\<open>isa/riscv/instruction\<close>, \<open>isa/riscv/executor.rs\<close>, \<open>cpu/reg_file.rs\<close>): calculators,
    operands, the processor record, the handler of every integer, multiply, atomic, control register,
    privileged and compressed instruction, and fetch, decode, execute and batches with hooks.
  \<^item> \<open>Decoder\<close> (\<open>isa/riscv/decoder\<close>): the table, mask and compressed decoders and their construction from a list of
    descriptions.
  \<^item> \<open>Plic\<close> (\<open>device/plic\<close>), \<open>Uart\<close> (\<open>device/uart16550a\<close>), \<open>Clock\<close> (\<open>clock.rs\<close>), \<open>Clint\<close> (\<open>device/aclint.rs\<close>,
    \<open>device/power_manager.rs\<close>), \<open>VirtQueue\<close>, \<open>VirtioBlock\<close>, \<open>VirtioMmio\<close> (\<open>device/virtio\<close>): the devices, every
    register at every access width.
  \<^item> \<open>Board\<close> (\<open>board\<close>, \<open>device/id_allocator.rs\<close>): the device enumeration, the builder, the batches, the run loop.
  \<^item> \<open>HartDevices\<close>: the locale \<open>device_contract\<close>, what the hart needs of the devices, and that the whole hart
    keeps their invariant; \<open>BoardRun\<close> interprets it on the devices of the board.
  \<^item> \<open>InstrSpec\<close>, \<open>DecoderSpec\<close>, \<open>PlicSpec\<close>, \<open>UartSpec\<close>, \<open>ClintSpec\<close>, \<open>VirtQueueSpec\<close>, \<open>VirtioSpec\<close>, \<open>BoardSpec\<close>,
    \<open>BoardRun\<close>, \<open>BoardBuild\<close>: the specifications and what is proved about the components.

  \<^bold>\<open>What the theorems show.\<close>
  \<^item> Hart: every reachable state is well formed; privilege rises only to the trap vector of the level that is
    entered; the exact effect of ALU instructions, jumps, branches, CSR writes and of a store followed by a load; trap entry and return;
    which interrupt is taken; how a batch splits.
  \<^item> Memory: the walk finds exactly the leaves that the tables describe, translation succeeds exactly under the
    architectural conditions, a load sees the store before it, a store-conditional succeeds exactly when the history holds its reservation,
    and caches forget but do not lie.
  \<^item> Control registers: read-only bits stay, and the privilege table is the rule of the architecture.
  \<^item> Decoder: it finds the most specific description that matches.
  \<^item> Devices: the gateways, claims, lines and fairness of the PLIC; the queues of the UART and that every access
    returns; the deadline of the CLINT; the bounds of descriptor chains, the used ring, the queue invariant and the round trip of a
    block through the disk.
  \<^item> Board: the layout that the builder produces, an invariant that holds for the life of the board, the
    delivery of interrupts at a batch, and what a run of \<open>n\<close> cycles does.
  \<^item> Some theorems state behaviour that departs from the architecture or from a comment in the code: a masked interrupt that blocks
    others, fetches served from the instruction cache without a permission check, a queue size that is not
    checked, an indirect table that loops for ever, a deadline that wraps.

  \<^bold>\<open>Parameters.\<close>
  Code of other packages is an argument with its documented behaviour as a hypothesis, and a concrete instance in the
  witnesses: the bit set of the PLIC (\<open>bitset_laws\<close>), the byte channels of the UART (\<open>channel_laws\<close>), the file
  and the task channel of a disk (\<open>blk_host\<close>, \<open>file_laws\<close>).  The list of instruction descriptions, which the
  build generates from \<open>instr_dict.json\<close>, is an argument of the decoder.  The float and vector units are the type
  parameter \<open>'x\<close> of the processor, and their handlers the field \<open>env_ext\<close> of \<open>hart_env\<close>, of which the theorems
  assume what \<open>ext_ok\<close> and \<open>ext_keeps\<close> say: they keep the hart well formed and touch no device.

  \<^bold>\<open>Bounds.\<close>
  Loops of the program are structural recursion on a list or on the number of iterations that the program itself bounds
  (levels of the walk, cycles of a batch, the 64 sources of the PLIC, the pending bytes of the UART), so no fuel is
  chosen.  \<open>run_loop\<close> terminates because a batch is never empty.  \<open>take_loop\<close> is proved to return with
  a number of iterations bounded by the tables when no indirect table is nested, and to run for ever on a table that refers to itself.

  \<^bold>\<open>Not modelled.\<close>
  \<^item> The vector unit (\<open>isa/riscv/vector\<close>, \<open>cpu/vector_reg_file.rs\<close>, \<open>exec_vector_function.rs\<close>), which the default instruction set
    RV64GC leaves out, and the float unit (\<open>fpu\<close>, \<open>exec_float_function.rs\<close>), which the package
    \<open>rustc_apfloat\<close> computes: both are the parameter above.
  \<^item> The debugger and its printer (\<open>isa/riscv/debugger.rs\<close>, \<open>rvdb\<close>) and the gdb server (\<open>gdb\<close>): interactive tools;
    a debugger reaches the hart through the execution hook, which is modelled.
  \<^item> The SPI controller and flash (\<open>device/spi\<close>), which no board maps, and the sample timer of a test feature.
  \<^item> Threads: input and the worker of a disk act between two batches in the model, while in the program they run
    beside the hart; a disk task runs to its end at once.
  \<^item> Loading of files, command line, terminal, browser interface, logging, the selection of the instruction
    set by name (\<open>isa_builder.rs\<close>) and the tests.
\<close>

end
